(* ===== verification/Errors.thy ===== *)
theory Errors
  imports Prelude
begin

text \<open>
  \<^verbatim>\<open>include/nvcr/common/error.hpp\<close>, \<^verbatim>\<open>src/common/error.cpp\<close>: the error codes shared by
  every NVCR component, the \<open>Error\<close> class and \<open>Result<T>\<close>. A \<open>Result<T>\<close> is
  \<open>'a result\<close>, with \<open>Inl\<close> for the error and \<open>Inr\<close> for the value.
\<close>

datatype error_code =
    invalid_argument
  | invalid_state
  | io_error
  | malformed_bitstream
  | resource_exhausted
  | dependency_unavailable
  | backend_error
  | not_implemented
  | internal_error
  | try_again
  | end_of_stream
  | missing_artifact
  | missing_codec
  | missing_provider
  | missing_model_set
  | incompatible_target
  | incompatible_precision
  | incompatible_version
  | digest_mismatch
  | license_restricted

datatype error = Error (code: error_code) (message: string) (subsystem: string)

type_synonym 'a result = "error + 'a"

definition error_code_to_string :: "error_code \<Rightarrow> string" where
  "error_code_to_string c = (case c of
      invalid_argument \<Rightarrow> ''invalid argument''
    | invalid_state \<Rightarrow> ''invalid state''
    | io_error \<Rightarrow> ''I/O error''
    | malformed_bitstream \<Rightarrow> ''malformed bitstream''
    | resource_exhausted \<Rightarrow> ''resource exhausted''
    | dependency_unavailable \<Rightarrow> ''dependency unavailable''
    | backend_error \<Rightarrow> ''backend error''
    | not_implemented \<Rightarrow> ''not implemented''
    | internal_error \<Rightarrow> ''internal error''
    | try_again \<Rightarrow> ''try again''
    | end_of_stream \<Rightarrow> ''end of stream''
    | missing_artifact \<Rightarrow> ''missing artifact''
    | missing_codec \<Rightarrow> ''missing codec''
    | missing_provider \<Rightarrow> ''missing provider''
    | missing_model_set \<Rightarrow> ''missing model set''
    | incompatible_target \<Rightarrow> ''incompatible target''
    | incompatible_precision \<Rightarrow> ''incompatible precision''
    | incompatible_version \<Rightarrow> ''incompatible version''
    | digest_mismatch \<Rightarrow> ''digest mismatch''
    | license_restricted \<Rightarrow> ''license restricted'')"

definition describe :: "error \<Rightarrow> string" where
  "describe e =
     (if subsystem e = [] then error_code_to_string (code e) @ '': '' @ message e
      else subsystem e @ '': '' @ error_code_to_string (code e) @ '': '' @ message e)"

definition has_value :: "'a result \<Rightarrow> bool" where
  "has_value r = (case r of Inl _ \<Rightarrow> False | Inr _ \<Rightarrow> True)"

lemma has_value_iff: "has_value r \<longleftrightarrow> (\<exists>x. r = Inr x)"
  by (cases r) (simp_all add: has_value_def)

subsection \<open>Sequencing with a state\<close>

definition and_then :: "('s \<Rightarrow> 'a result \<times> 's) \<Rightarrow> ('a \<Rightarrow> 's \<Rightarrow> 'b result \<times> 's) \<Rightarrow> 's \<Rightarrow> 'b result \<times> 's" where
  "and_then m f s = (case m s of (Inl e, s) \<Rightarrow> (Inl e, s) | (Inr a, s) \<Rightarrow> f a s)"

definition just :: "'a result \<Rightarrow> 's \<Rightarrow> 'a result \<times> 's" where
  "just r s = (r, s)"

lemma and_then_Inr:
  "and_then m f s = (Inr b, s'') \<longleftrightarrow> (\<exists>a s'. m s = (Inr a, s') \<and> f a s' = (Inr b, s''))"
  by (auto simp: and_then_def split: prod.splits sum.splits)

lemma and_then_step [simp]:
  "m s = (Inr a, s') \<Longrightarrow> and_then m f s = f a s'"
  "m s = (Inl e, s') \<Longrightarrow> and_then m f s = (Inl e, s')"
  by (simp_all add: and_then_def)

lemma just_eq [simp]: "just r s = (r', s') \<longleftrightarrow> r' = r \<and> s' = s"
  by (auto simp: just_def)

text \<open>What every step leaves alone, the sequence leaves alone.\<close>

lemma and_then_keeps:
  assumes "\<And>s. obs (snd (m s)) = obs s" "\<And>a s. obs (snd (f a s)) = obs s"
  shows "obs (snd (and_then m f s)) = obs s"
  using assms(1) [of s] assms(2) by (auto simp: and_then_def split: prod.splits sum.splits)

lemma and_then_cases:
  assumes "and_then m f s = (r, s'')"
  obtains (error) e where "m s = (Inl e, s'')" "r = Inl e" | (step) a s' where "m s = (Inr a, s')" "f a s' = (r, s'')"
  using assms by (auto simp: and_then_def split: prod.splits sum.splits)

end
