(* ===== verification/ByteIO.thy ===== *)
theory ByteIO
  imports Errors
begin

text \<open>
  \<^verbatim>\<open>include/nvcr/bitstream/packet_io.hpp\<close>, \<^verbatim>\<open>src/bitstream/packet_io.cpp\<close>:
  \<open>ByteWriter\<close> and \<open>ByteReader\<close>, the bounds-checked little-endian primitives of every
  NVCR wire format. The writer is its \<open>data_\<close> vector, the reader the span with its
  offset. The locale \<open>wire_field\<close> is the contract between a fixed-width write and the
  read that undoes it; the integer operations are instances of it, and the client lemmas
  on sequences of fields are proved once in it.
\<close>

subsection \<open>ByteWriter\<close>

type_synonym byte_writer = "byte list"

definition write_u8 :: "u8 \<Rightarrow> byte_writer \<Rightarrow> byte_writer" where
  "write_u8 v w = w @ [v]"

definition write_u16 :: "u16 \<Rightarrow> byte_writer \<Rightarrow> byte_writer" where
  "write_u16 v w =
     write_u8 (ucast (drop_bit 8 v AND 0xff)) (write_u8 (ucast (v AND 0xff)) w)"

definition write_u32 :: "u32 \<Rightarrow> byte_writer \<Rightarrow> byte_writer" where
  "write_u32 v w =
     fold (\<lambda>shift. write_u8 (ucast (drop_bit shift v AND 0xff))) [0, 8, 16, 24] w"

definition write_u64 :: "u64 \<Rightarrow> byte_writer \<Rightarrow> byte_writer" where
  "write_u64 v w =
     fold (\<lambda>shift. write_u8 (ucast (drop_bit shift v AND 0xff)))
       [0, 8, 16, 24, 32, 40, 48, 56] w"

definition write_bytes :: "byte list \<Rightarrow> byte_writer \<Rightarrow> byte_writer" where
  "write_bytes bs w = w @ bs"

definition write_string :: "string \<Rightarrow> byte_writer \<Rightarrow> byte_writer" where
  "write_string s w = write_bytes (as_bytes s) w"

subsection \<open>ByteReader\<close>

record byte_reader =
  rd_data :: "byte list"
  rd_offset :: nat

definition truncated_error :: error where
  "truncated_error = Error malformed_bitstream ''unexpected end of packet'' ''bitstream''"

definition make_reader :: "byte list \<Rightarrow> byte_reader" where
  "make_reader bs = \<lparr>rd_data = bs, rd_offset = 0\<rparr>"

definition remaining :: "byte_reader \<Rightarrow> nat" where
  "remaining r = length (rd_data r) - rd_offset r"

definition read_bytes :: "nat \<Rightarrow> byte_reader \<Rightarrow> (byte list \<times> byte_reader) result" where
  "read_bytes count r =
     (if remaining r < count then Inl truncated_error
      else Inr (take count (drop (rd_offset r) (rd_data r)),
                r\<lparr>rd_offset := rd_offset r + count\<rparr>))"

definition read_u8 :: "byte_reader \<Rightarrow> (u8 \<times> byte_reader) result" where
  "read_u8 r =
     (if remaining r < 1 then Inl truncated_error
      else Inr (rd_data r ! rd_offset r, r\<lparr>rd_offset := rd_offset r + 1\<rparr>))"

definition read_u16 :: "byte_reader \<Rightarrow> (u16 \<times> byte_reader) result" where
  "read_u16 r = res_bind (read_bytes 2 r) (\<lambda>(bs, r').
     Inr (ucast (bs ! 0) OR push_bit 8 (ucast (bs ! 1)), r'))"

definition read_u32 :: "byte_reader \<Rightarrow> (u32 \<times> byte_reader) result" where
  "read_u32 r = res_bind (read_bytes 4 r) (\<lambda>(bs, r').
     Inr (fold (\<lambda>index value. value OR push_bit (index * 8) (ucast (bs ! index)))
            [0, 1, 2, 3] 0, r'))"

definition read_u64 :: "byte_reader \<Rightarrow> (u64 \<times> byte_reader) result" where
  "read_u64 r = res_bind (read_bytes 8 r) (\<lambda>(bs, r').
     Inr (fold (\<lambda>index value. value OR push_bit (index * 8) (ucast (bs ! index)))
            [0, 1, 2, 3, 4, 5, 6, 7] 0, r'))"

text \<open>
  \<open>read_string\<close> copies the bytes it read into a \<open>std::string\<close>; the allocator is the
  parameter \<open>alloc\<close> (whether a request of that many bytes succeeds), and a failed
  allocation is the \<open>std::bad_alloc\<close> branch.
\<close>

definition read_string ::
  "(nat \<Rightarrow> bool) \<Rightarrow> nat \<Rightarrow> byte_reader \<Rightarrow> (string \<times> byte_reader) result" where
  "read_string alloc count r = res_bind (read_bytes count r) (\<lambda>(bs, r').
     if alloc (length bs) then Inr (as_string bs, r')
     else Inl (Error resource_exhausted ''metadata allocation failed'' ''bitstream''))"

subsection \<open>A reader between two byte strings\<close>

definition reader_at :: "byte list \<Rightarrow> byte list \<Rightarrow> byte_reader" where
  "reader_at pre post = \<lparr>rd_data = pre @ post, rd_offset = length pre\<rparr>"

lemma make_reader_at [wire_simps]: "make_reader bs = reader_at [] bs"
  by (simp add: make_reader_def reader_at_def)

lemma remaining_reader_at [wire_simps]: "remaining (reader_at pre post) = length post"
  by (simp add: remaining_def reader_at_def)

lemma reader_at_eq_iff:
  "reader_at pre post = reader_at pre' post' \<longleftrightarrow> pre = pre' \<and> post = post'"
  by (auto simp: reader_at_def)

lemma read_bytes_at:
  "read_bytes n (reader_at pre post) =
     (if length post < n then Inl truncated_error
      else Inr (take n post, reader_at (pre @ take n post) (drop n post)))"
  by (simp add: read_bytes_def remaining_reader_at) (simp add: reader_at_def)

lemma read_bytes_append [wire_simps]:
  "length bs = n \<Longrightarrow>
     read_bytes n (reader_at pre (bs @ post)) = Inr (bs, reader_at (pre @ bs) post)"
  by (simp add: read_bytes_at)

lemma read_bytes_all [wire_simps]:
  "length bs = n \<Longrightarrow> read_bytes n (reader_at pre bs) = Inr (bs, reader_at (pre @ bs) [])"
  using read_bytes_append [of bs n pre "[]"] by simp

lemma read_bytes_inv:
  "read_bytes n (reader_at pre post) = Inr (bs, r') \<Longrightarrow>
     \<exists>post'. post = bs @ post' \<and> length bs = n \<and> r' = reader_at (pre @ bs) post'"
  by (auto simp: read_bytes_at split: if_splits intro!: exI [of _ "drop n post"])

lemma read_string_append [wire_simps]:
  "length s = n \<Longrightarrow> alloc n \<Longrightarrow>
     read_string alloc n (reader_at pre (as_bytes s @ post)) =
       Inr (s, reader_at (pre @ as_bytes s) post)"
  by (simp add: read_string_def wire_simps)

lemma read_string_inv:
  "read_string alloc n (reader_at pre post) = Inr (s, r') \<Longrightarrow>
     \<exists>post'. post = as_bytes s @ post' \<and> length s = n \<and> r' = reader_at (pre @ as_bytes s) post'"
  by (auto simp: read_string_def result_simps split: if_splits dest!: read_bytes_inv)

subsection \<open>The contract of a fixed-width field\<close>

fun read_many :: "(byte_reader \<Rightarrow> ('a \<times> byte_reader) result) \<Rightarrow> nat \<Rightarrow> byte_reader
    \<Rightarrow> ('a list \<times> byte_reader) result" where
  "read_many read 0 r = Inr ([], r)"
| "read_many read (Suc n) r =
     res_bind (read r) (\<lambda>(v, r1).
     res_bind (read_many read n r1) (\<lambda>(vs, r2). Inr (v # vs, r2)))"

locale wire_field =
  fixes width :: nat
    and enc :: "'a \<Rightarrow> byte list"
    and put :: "'a \<Rightarrow> byte_writer \<Rightarrow> byte_writer"
    and get :: "byte_reader \<Rightarrow> ('a \<times> byte_reader) result"
  assumes enc_length: "length (enc v) = width"
    and write_enc: "put v w = w @ enc v"
    and read_enc: "get (reader_at pre (enc v @ post)) = Inr (v, reader_at (pre @ enc v) post)"
    and read_short: "length post < width \<Longrightarrow> get (reader_at pre post) = Inl truncated_error"
    and enc_surj: "length bs = width \<Longrightarrow> \<exists>v. bs = enc v"
begin

lemma read_cases:
  "(\<exists>v post'. post = enc v @ post'
      \<and> get (reader_at pre post) = Inr (v, reader_at (pre @ enc v) post'))
   \<or> length post < width \<and> get (reader_at pre post) = Inl truncated_error"
proof (cases "length post < width")
  case True
  then show ?thesis by (simp add: read_short)
next
  case False
  then obtain v where "take width post = enc v"
    using enc_surj [of "take width post"] by auto
  then have "post = enc v @ drop width post"
    by (metis append_take_drop_id)
  then show ?thesis using read_enc by metis
qed

lemma read_inv:
  assumes "get (reader_at pre post) = Inr (v, r')"
  shows "\<exists>post'. post = enc v @ post' \<and> r' = reader_at (pre @ enc v) post'"
  using read_cases [of post pre] assms by auto

lemma read_truncated_iff:
  "get (reader_at pre post) = Inl e \<longleftrightarrow> length post < width \<and> e = truncated_error"
  using read_cases [of post pre] by (auto simp: enc_length)

lemma enc_inject: "enc v = enc w \<Longrightarrow> v = w"
  by (metis read_enc Inr_inject prod.inject)

lemma fold_write: "fold put vs w = w @ concat (map enc vs)"
  by (induction vs arbitrary: w) (simp_all add: write_enc)

lemma read_many_enc:
  "read_many get (length vs) (reader_at pre (concat (map enc vs) @ post)) =
     Inr (vs, reader_at (pre @ concat (map enc vs)) post)"
  by (induction vs arbitrary: pre) (simp_all add: read_enc)

lemma read_many_inv:
  "read_many get n (reader_at pre post) = Inr (vs, r') \<Longrightarrow>
     \<exists>post'. post = concat (map enc vs) @ post' \<and> length vs = n
       \<and> r' = reader_at (pre @ concat (map enc vs)) post'"
proof (induction n arbitrary: pre post vs)
  case 0
  then show ?case by simp
next
  case (Suc n)
  then obtain v r1 vs' where
      v: "get (reader_at pre post) = Inr (v, r1)"
    and vs': "read_many get n r1 = Inr (vs', r')"
    and vs: "vs = v # vs'"
    by (auto simp: result_simps)
  from read_inv [OF v] obtain post1 where
    "post = enc v @ post1" and r1: "r1 = reader_at (pre @ enc v) post1" by auto
  with Suc.IH [OF vs' [unfolded r1]] vs show ?case by auto
qed

lemma length_concat_enc: "length (concat (map enc vs)) = width * length vs"
  by (induction vs) (simp_all add: enc_length)

end

subsection \<open>The integer fields meet the contract\<close>

abbreviation le16 :: "u16 \<Rightarrow> byte list" where "le16 \<equiv> le_bytes 2"
abbreviation le32 :: "u32 \<Rightarrow> byte list" where "le32 \<equiv> le_bytes 4"
abbreviation le64 :: "u64 \<Rightarrow> byte list" where "le64 \<equiv> le_bytes 8"

lemma ucast_and_ff: "ucast (w AND 0xff :: 'a::len word) = (ucast w :: byte)"
proof -
  have mask: "(0xff :: 'a word) = mask 8" by (simp add: mask_eq_exp_minus_1)
  show ?thesis
    unfolding mask by (intro bit_word_eqI) (auto simp: bit_simps dest: bit_imp_le_length)
qed

lemma write_u16_le: "write_u16 v w = w @ le16 v"
  by (simp add: write_u16_def write_u8_def ucast_and_ff numeral_2_eq_2)

lemma write_u32_le: "write_u32 v w = w @ le32 v"
  by (simp add: write_u32_def write_u8_def ucast_and_ff eval_nat_numeral)

lemma write_u64_le: "write_u64 v w = w @ le64 v"
  by (simp add: write_u64_def write_u8_def ucast_and_ff eval_nat_numeral)

lemma read_bytes_map_cong:
  assumes "\<And>bs. length bs = n \<Longrightarrow> f bs = g bs"
  shows "res_bind (read_bytes n r) (\<lambda>(bs, r'). Inr (f bs, r')) =
     res_bind (read_bytes n r) (\<lambda>(bs, r'). Inr (g bs, r'))"
  by (auto simp: read_bytes_def remaining_def not_less intro!: assms)

lemma le_value_2:
  "length bs = 2 \<Longrightarrow> ucast (bs ! 0) OR push_bit 8 (ucast (bs ! 1)) = (le_value bs :: u16)"
  by (auto simp: numeral_2_eq_2 length_Suc_conv)

lemma le_value_4:
  "length bs = 4 \<Longrightarrow>
     fold (\<lambda>index value. value OR push_bit (index * 8) (ucast (bs ! index))) [0, 1, 2, 3] 0 =
     (le_value bs :: u32)"
  by (auto simp: eval_nat_numeral length_Suc_conv push_bit_or ac_simps)

lemma le_value_8:
  "length bs = 8 \<Longrightarrow>
     fold (\<lambda>index value. value OR push_bit (index * 8) (ucast (bs ! index)))
       [0, 1, 2, 3, 4, 5, 6, 7] 0 =
     (le_value bs :: u64)"
  by (auto simp: eval_nat_numeral length_Suc_conv push_bit_or ac_simps)

interpretation f8: wire_field 1 "\<lambda>v. [v]" write_u8 read_u8
  by unfold_locales
     (auto simp: write_u8_def read_u8_def remaining_def length_Suc_conv
        reader_at_def nth_append)

lemma read_u16_le:
  "read_u16 r = res_bind (read_bytes 2 r) (\<lambda>(bs, r'). Inr (le_value bs, r'))"
  unfolding read_u16_def by (rule read_bytes_map_cong) (rule le_value_2)

interpretation f16: wire_field 2 le16 write_u16 read_u16
proof unfold_locales
  show "\<exists>v. bs = le16 v" if "length bs = 2" for bs
    by (rule exI [of _ "le_value bs"]) (use that le_bytes_le_value [of bs, where ?'a = 16] in simp)
qed (simp_all add: write_u16_le read_u16_le read_bytes_at le_value_bytes_full)

lemma read_u32_le:
  "read_u32 r = res_bind (read_bytes 4 r) (\<lambda>(bs, r'). Inr (le_value bs, r'))"
  unfolding read_u32_def by (rule read_bytes_map_cong) (rule le_value_4)

interpretation f32: wire_field 4 le32 write_u32 read_u32
proof unfold_locales
  show "\<exists>v. bs = le32 v" if "length bs = 4" for bs
    by (rule exI [of _ "le_value bs"]) (use that le_bytes_le_value [of bs, where ?'a = 32] in simp)
qed (simp_all add: write_u32_le read_u32_le read_bytes_at le_value_bytes_full)

lemma read_u64_le:
  "read_u64 r = res_bind (read_bytes 8 r) (\<lambda>(bs, r'). Inr (le_value bs, r'))"
  unfolding read_u64_def by (rule read_bytes_map_cong) (rule le_value_8)

interpretation f64: wire_field 8 le64 write_u64 read_u64
proof unfold_locales
  show "\<exists>v. bs = le64 v" if "length bs = 8" for bs
    by (rule exI [of _ "le_value bs"]) (use that le_bytes_le_value [of bs, where ?'a = 64] in simp)
qed (simp_all add: write_u64_le read_u64_le read_bytes_at le_value_bytes_full)

lemmas write_simps =
  f8.write_enc f16.write_enc f32.write_enc f64.write_enc write_bytes_def write_string_def

lemmas read_simps [wire_simps] =
  f8.read_enc f16.read_enc f32.read_enc f64.read_enc

lemma read_u8_Cons [wire_simps]:
  "read_u8 (reader_at pre (v # post)) = Inr (v, reader_at (pre @ [v]) post)"
  using f8.read_enc [of pre v post] by simp

lemmas read_invs =
  f8.read_inv f16.read_inv f32.read_inv f64.read_inv read_bytes_inv read_string_inv

end
