(* ===== verification/OrdMaps.thy ===== *)
theory OrdMaps
  imports Prelude "HOL-Library.List_Lexorder" "HOL-Library.Char_ord"
begin

text \<open>
  \<open>std::map\<close> as the sources use it: an association list in strictly increasing key
  order, which is the order a range-for visits it in. Strings are compared as
  \<open>std::less<>\<close> compares them, lexicographically by unsigned byte. \<open>emplace\<close> never
  overwrites and reports whether it inserted; \<open>insert_or_assign\<close> overwrites;
  \<open>erase\<close> removes. The locale \<open>std_map\<close> states what clients rely on.
\<close>

type_synonym ('k, 'v) omap = "('k \<times> 'v) list"

definition omap_ok :: "('k::linorder, 'v) omap \<Rightarrow> bool" where
  "omap_ok m \<longleftrightarrow> sorted_wrt (<) (map fst m)"

fun omap_assign :: "'k::linorder \<Rightarrow> 'v \<Rightarrow> ('k, 'v) omap \<Rightarrow> ('k, 'v) omap" where
  "omap_assign k v [] = [(k, v)]"
| "omap_assign k v ((k', v') # m) =
     (if k < k' then (k, v) # (k', v') # m
      else if k = k' then (k, v) # m
      else (k', v') # omap_assign k v m)"

definition omap_emplace ::
  "'k::linorder \<Rightarrow> 'v \<Rightarrow> ('k, 'v) omap \<Rightarrow> ('k, 'v) omap \<times> bool" where
  "omap_emplace k v m =
     (case map_of m k of None \<Rightarrow> (omap_assign k v m, True) | Some _ \<Rightarrow> (m, False))"

definition omap_erase :: "'k::linorder \<Rightarrow> ('k, 'v) omap \<Rightarrow> ('k, 'v) omap" where
  "omap_erase k m = filter (\<lambda>(k', _). k' \<noteq> k) m"

lemma set_omap_assign:
  "set (map fst (omap_assign k v m)) = insert k (set (map fst m))"
  by (induction k v m rule: omap_assign.induct) (simp_all add: insert_commute)

lemma set_omap_assign_pairs: "set (omap_assign k v m) \<subseteq> insert (k, v) (set m)"
  by (induction k v m rule: omap_assign.induct) auto

lemma omap_assign_sorted:
  "sorted_wrt (<) (map fst m) \<Longrightarrow> sorted_wrt (<) (map fst (omap_assign k v m))"
proof (induction m)
  case (Cons kv m)
  obtain k' v' where "kv = (k', v')" by force
  with Cons set_omap_assign [of k v m] show ?case by auto
qed simp

lemma map_of_omap_assign:
  "map_of (omap_assign k v m) = (map_of m)(k \<mapsto> v)"
  by (induction m) (auto simp: fun_eq_iff)

lemma map_of_omap_erase: "map_of (omap_erase k m) = (map_of m)(k := None)"
  by (induction m) (auto simp: omap_erase_def fun_eq_iff)

lemma omap_assign_last:
  "(\<forall>k' \<in> set (map fst m). k' < k) \<Longrightarrow> omap_assign k v m = m @ [(k, v)]"
  by (induction m) auto

lemma omap_emplace_last:
  assumes "\<forall>k' \<in> set (map fst m). k' < k"
  shows "omap_emplace k v m = (m @ [(k, v)], True)"
proof -
  have "map_of m k = None"
    using assms by (auto simp: map_of_eq_None_iff)
  then show ?thesis
    by (simp add: omap_emplace_def omap_assign_last [OF assms])
qed

locale std_map =
  fixes ok :: "'m \<Rightarrow> bool"
    and empty :: 'm
    and lookup :: "'m \<Rightarrow> 'k \<Rightarrow> 'v option"
    and emplace :: "'k \<Rightarrow> 'v \<Rightarrow> 'm \<Rightarrow> 'm \<times> bool"
    and assign :: "'k \<Rightarrow> 'v \<Rightarrow> 'm \<Rightarrow> 'm"
    and erase :: "'k \<Rightarrow> 'm \<Rightarrow> 'm"
  assumes ok_empty: "ok empty"
    and lookup_empty: "lookup empty k = None"
    and emplace_flag: "ok m \<Longrightarrow> snd (emplace k v m) \<longleftrightarrow> lookup m k = None"
    and lookup_emplace: "ok m \<Longrightarrow> lookup (fst (emplace k v m)) k' =
          (if k' = k \<and> lookup m k = None then Some v else lookup m k')"
    and ok_emplace: "ok m \<Longrightarrow> ok (fst (emplace k v m))"
    and lookup_assign: "ok m \<Longrightarrow> lookup (assign k v m) k' = (if k' = k then Some v else lookup m k')"
    and ok_assign: "ok m \<Longrightarrow> ok (assign k v m)"
    and lookup_erase: "ok m \<Longrightarrow> lookup (erase k m) k' = (if k' = k then None else lookup m k')"
    and ok_erase: "ok m \<Longrightarrow> ok (erase k m)"
begin

lemma emplace_present: "ok m \<Longrightarrow> lookup m k = Some v' \<Longrightarrow> \<not> snd (emplace k v m)
    \<and> lookup (fst (emplace k v m)) = lookup m"
  by (auto simp: emplace_flag lookup_emplace fun_eq_iff)

lemma emplace_absent: "ok m \<Longrightarrow> lookup m k = None \<Longrightarrow> snd (emplace k v m)
    \<and> lookup (fst (emplace k v m)) = (lookup m)(k \<mapsto> v)"
  by (auto simp: emplace_flag lookup_emplace fun_eq_iff)

lemma fold_erase_ok: "ok m \<Longrightarrow> ok (fold erase ks m)"
  by (induction ks arbitrary: m) (simp_all add: ok_erase)

lemma lookup_fold_erase:
  "ok m \<Longrightarrow> lookup (fold erase ks m) k = (if k \<in> set ks then None else lookup m k)"
  by (induction ks arbitrary: m) (simp_all add: ok_erase lookup_erase)

end

interpretation om: std_map omap_ok "[]" map_of omap_emplace omap_assign omap_erase
proof unfold_locales
  show "omap_ok (omap_erase k m)" if "omap_ok m" for k :: 'a and m :: "('a \<times> 'b) list"
    using that unfolding omap_ok_def omap_erase_def
    by (induction m) (auto simp: sorted_wrt_map)
qed (auto simp: omap_ok_def omap_emplace_def map_of_omap_assign map_of_omap_erase
       omap_assign_sorted split: option.splits)

end
