(* ===== verification/Frames.thy ===== *)
theory Frames
  imports ByteIO OrdMaps
begin

text \<open>
  \<^verbatim>\<open>src/runtime/frame.cpp\<close>, \<^verbatim>\<open>src/runtime/packet.cpp\<close> and their headers: pixel formats,
  raw frames with the size computation in \<open>std::size_t\<close> (64-bit, wrapping), and coded
  packets. A timestamp is the 64-bit count of a \<open>std::chrono::microseconds\<close>.
\<close>

subsection \<open>Frames\<close>

datatype pixel_format = yuv420p8 | rgb24 | rgba32 | gray8

type_synonym timestamp = i64

record frame =
  fr_width :: u32
  fr_height :: u32
  fr_format :: pixel_format
  fr_timestamp :: timestamp
  fr_data :: "byte list"

definition empty_frame :: frame where
  "empty_frame = \<lparr>fr_width = 0, fr_height = 0, fr_format = yuv420p8, fr_timestamp = 0, fr_data = []\<rparr>"

definition checked_pixels :: "u32 \<Rightarrow> u32 \<Rightarrow> u64 result" where
  "checked_pixels width height =
     (if width = 0 \<or> height = 0 then
        Inl (Error invalid_argument ''frame dimensions must be non-zero'' ''frame'')
      else
        let w = ucast width; h = ucast height in
        if w > (- 1) div h then
          Inl (Error resource_exhausted ''frame dimensions overflow'' ''frame'')
        else Inr (w * h))"

definition frame_size_bytes :: "u32 \<Rightarrow> u32 \<Rightarrow> pixel_format \<Rightarrow> u64 result" where
  "frame_size_bytes width height format =
     res_bind (checked_pixels width height) (\<lambda>count.
     case format of
       yuv420p8 \<Rightarrow>
         if width mod 2 \<noteq> 0 \<or> height mod 2 \<noteq> 0 then
           Inl (Error invalid_argument ''YUV420 dimensions must both be even'' ''frame'')
         else Inr (count + count div 2)
     | rgb24 \<Rightarrow>
         if count > (- 1) div 3 then
           Inl (Error resource_exhausted ''frame size overflow'' ''frame'')
         else Inr (count * 3)
     | rgba32 \<Rightarrow>
         if count > (- 1) div 4 then
           Inl (Error resource_exhausted ''frame size overflow'' ''frame'')
         else Inr (count * 4)
     | gray8 \<Rightarrow> Inr count)"

definition frame_create ::
  "(nat \<Rightarrow> bool) \<Rightarrow> u32 \<Rightarrow> u32 \<Rightarrow> pixel_format \<Rightarrow> timestamp \<Rightarrow> frame result" where
  "frame_create alloc width height format ts =
     res_bind (frame_size_bytes width height format) (\<lambda>size.
     if alloc (unat size) then
       Inr \<lparr>fr_width = width, fr_height = height, fr_format = format,
            fr_timestamp = ts, fr_data = replicate (unat size) 0\<rparr>
     else Inl (Error resource_exhausted ''unable to allocate frame'' ''frame''))"

definition frame_copy_from ::
  "(nat \<Rightarrow> bool) \<Rightarrow> u32 \<Rightarrow> u32 \<Rightarrow> pixel_format \<Rightarrow> byte list \<Rightarrow> timestamp \<Rightarrow> frame result" where
  "frame_copy_from alloc width height format bytes ts =
     res_bind (frame_size_bytes width height format) (\<lambda>expected_size.
     if length bytes \<noteq> unat expected_size then
       Inl (Error invalid_argument ''input buffer has the wrong size'' ''frame'')
     else if alloc (length bytes) then
       Inr \<lparr>fr_width = width, fr_height = height, fr_format = format,
            fr_timestamp = ts, fr_data = bytes\<rparr>
     else Inl (Error resource_exhausted ''unable to allocate frame'' ''frame''))"

definition size_bytes :: "frame \<Rightarrow> nat" where
  "size_bytes f = length (fr_data f)"

text \<open>What identifies a frame apart from its samples.\<close>

definition picture_of :: "frame \<Rightarrow> u32 \<times> u32 \<times> pixel_format \<times> timestamp" where
  "picture_of f = (fr_width f, fr_height f, fr_format f, fr_timestamp f)"

subsection \<open>Packets\<close>

datatype frame_type = intra | predicted

definition frame_type_u8 :: "frame_type \<Rightarrow> u8" where
  "frame_type_u8 t = (case t of intra \<Rightarrow> 0 | predicted \<Rightarrow> 1)"

text \<open>The cast \<open>static_cast<FrameType>(value)\<close>, used behind the check \<open>value \<le> 1\<close>.\<close>

definition frame_type_of_u8 :: "u8 \<Rightarrow> frame_type" where
  "frame_type_of_u8 v = (if v = 0 then intra else predicted)"

type_synonym packet_metadata = "(string, string) omap"

record packet =
  pk_bytes :: "byte list"
  pk_timestamp :: timestamp
  pk_frame_type :: frame_type
  pk_metadata :: packet_metadata

definition make_packet ::
  "byte list \<Rightarrow> timestamp \<Rightarrow> frame_type \<Rightarrow> packet_metadata \<Rightarrow> packet" where
  "make_packet bytes ts type metadata =
     \<lparr>pk_bytes = bytes, pk_timestamp = ts, pk_frame_type = type, pk_metadata = metadata\<rparr>"

lemma frame_type_of_u8_inverse [simp]: "frame_type_of_u8 (frame_type_u8 t) = t"
  by (cases t) (simp_all add: frame_type_u8_def frame_type_of_u8_def)

lemma frame_type_u8_le: "frame_type_u8 t \<le> 1"
  by (cases t) (simp_all add: frame_type_u8_def)

lemma frame_type_u8_of: "v \<le> 1 \<Longrightarrow> frame_type_u8 (frame_type_of_u8 v) = v"
proof -
  assume "v \<le> 1"
  then have "v = 0 \<or> v = 1" by (auto simp: word_le_nat_alt unat_arith_simps)
  then show ?thesis by (auto simp: frame_type_u8_def frame_type_of_u8_def)
qed

subsection \<open>Sizes\<close>

text \<open>The byte count the pixel format really needs, over the unbounded integers.\<close>

definition exact_frame_bytes :: "nat \<Rightarrow> nat \<Rightarrow> pixel_format \<Rightarrow> nat" where
  "exact_frame_bytes w h format = (case format of
       yuv420p8 \<Rightarrow> w * h + w * h div 2
     | rgb24 \<Rightarrow> w * h * 3
     | rgba32 \<Rightarrow> w * h * 4
     | gray8 \<Rightarrow> w * h)"

lemma unat_mult_u32:
  fixes a b :: u32
  shows "unat a * unat b < 2 ^ 64" "unat a * unat b \<le> (2 ^ 32 - 1) * (2 ^ 32 - 1)"
proof -
  have "unat a \<le> 2 ^ 32 - 1" "unat b \<le> 2 ^ 32 - 1"
    using unsigned_less [of a, where ?'a = nat] unsigned_less [of b, where ?'a = nat] by auto
  then show *: "unat a * unat b \<le> (2 ^ 32 - 1) * (2 ^ 32 - 1)" by (rule mult_le_mono)
  then show "unat a * unat b < 2 ^ 64" by (rule le_less_trans) simp
qed

lemma ucast_mult_u32:
  fixes a b :: u32
  shows "unat (ucast a * ucast b :: u64) = unat a * unat b"
  using unat_mult_u32 [of a b] by (simp add: unat_word_ariths unat_ucast_up)

lemma checked_pixels_ok:
  assumes "checked_pixels w h = Inr count"
  shows "w \<noteq> 0" "h \<noteq> 0" "unat count = unat w * unat h"
  using assms ucast_mult_u32 [of w h]
  by (auto simp: checked_pixels_def Let_def split: if_splits)

lemma checked_pixels_nonzero:
  assumes "w \<noteq> 0" "h \<noteq> 0"
  shows "checked_pixels w h = Inr (ucast w * ucast h)"
proof -
  let ?h = "ucast h :: u64"
  have "0 < unat h" using assms(2) by (simp add: unat_gt_0)
  moreover have "unat w * unat h \<le> 2 ^ 64 - 1"
    using unat_mult_u32(1) [of w h] by linarith
  ultimately have "unat w \<le> (2 ^ 64 - 1) div unat h"
    by (simp add: less_eq_div_iff_mult_less_eq)
  then have "ucast w \<le> (- 1 :: u64) div ?h"
    by (simp add: word_le_nat_alt unat_div unat_ucast_up unat_max_u64)
  then show ?thesis
    using assms by (simp add: checked_pixels_def Let_def not_less)
qed

lemma u64_gt_max_div:
  fixes c :: u64
  assumes "0 < k" "k < 2 ^ 64"
  shows "c > (- 1) div word_of_nat k \<longleftrightarrow> 2 ^ 64 \<le> unat c * k"
proof -
  have k: "unat (word_of_nat k :: u64) = k"
    using assms(2) by (simp add: unat_of_nat take_bit_nat_eq_self)
  have "c > (- 1) div word_of_nat k \<longleftrightarrow> (2 ^ 64 - 1) div k < unat c"
    by (simp add: word_less_nat_alt unat_div unat_max_u64 k)
  also have "\<dots> \<longleftrightarrow> \<not> unat c * k \<le> 2 ^ 64 - 1"
    by (simp only: less_eq_div_iff_mult_less_eq [OF assms(1)] flip: not_le)
  also have "\<dots> \<longleftrightarrow> 2 ^ 64 \<le> unat c * k" by auto
  finally show ?thesis .
qed

lemma u64_of_nat_eqI: "unat c = n mod 2 ^ 64 \<Longrightarrow> c = (word_of_nat n :: u64)"
  by (simp add: word_unat_eq_iff unat_of_nat take_bit_eq_mod)

lemma even_u32_iff: "(w :: u32) mod 2 = 0 \<longleftrightarrow> even (unat w)"
proof -
  have "unat (w mod 2) = unat w mod 2" by (simp add: unat_mod)
  then show ?thesis by (metis even_iff_mod_2_eq_zero unat_eq_zero)
qed

text \<open>
  \<open>frame_size_bytes\<close> on every branch, for non-zero dimensions: odd YUV420
  dimensions are refused; a size beyond \<open>std::size_t\<close> is refused for the packed formats;
  otherwise the result is the exact byte count modulo \<open>2 ^ 64\<close>. YUV420 has no overflow
  check, so there the reduction can really happen.
\<close>

lemma frame_size_bytes_cases:
  assumes "w \<noteq> 0" and "h \<noteq> 0"
  shows "frame_size_bytes w h format =
    (if format = yuv420p8 \<and> (odd (unat w) \<or> odd (unat h)) then
       Inl (Error invalid_argument ''YUV420 dimensions must both be even'' ''frame'')
     else if format \<noteq> yuv420p8 \<and> 2 ^ 64 \<le> exact_frame_bytes (unat w) (unat h) format then
       Inl (Error resource_exhausted ''frame size overflow'' ''frame'')
     else Inr (word_of_nat (exact_frame_bytes (unat w) (unat h) format)))"
proof -
  let ?c = "ucast w * ucast h :: u64"
  have c: "unat ?c = unat w * unat h" by (rule ucast_mult_u32)
  have eq: "checked_pixels w h = Inr ?c" by (rule checked_pixels_nonzero [OF assms])
  have "d + d div 2 = word_of_nat (unat d + unat d div 2)" "d * 3 = word_of_nat (unat d * 3)"
      "d * 4 = word_of_nat (unat d * 4)" "d = word_of_nat (unat d)" for d :: u64
    by (simp_all add: word_arith_nat_div)
  note words = this [of ?c, unfolded c]
  note defs = frame_size_bytes_def eq res_bind_simps exact_frame_bytes_def
    even_iff_mod_2_eq_zero even_u32_iff
  show ?thesis
  proof (cases format)
    case yuv420p8
    show ?thesis using words(1) by (simp add: yuv420p8 defs)
  next
    case rgb24
    show ?thesis
      using u64_gt_max_div [of 3 ?c] c by (simp add: rgb24 defs flip: words(2))
  next
    case rgba32
    show ?thesis
      using u64_gt_max_div [of 4 ?c] c by (simp add: rgba32 defs flip: words(3))
  next
    case gray8
    show ?thesis
      using unat_mult_u32(1) [of w h] by (simp add: gray8 defs flip: words(4))
  qed
qed

lemma frame_size_bytes_cases_witness:
  "frame_size_bytes 176 144 yuv420p8 = Inr 38016"
  using frame_size_bytes_cases [of 176 144 yuv420p8]
  by (simp add: exact_frame_bytes_def)

lemma frame_copy_from_ok:
  assumes "frame_copy_from alloc w h format bytes ts = Inr f"
  shows "fr_data f = bytes" "fr_width f = w" "fr_height f = h" "fr_format f = format"
    "fr_timestamp f = ts" "frame_size_bytes w h format = Inr (word_of_nat (length bytes))"
  using assms by (auto simp: frame_copy_from_def result_simps split: if_splits)


end
