(* ===== verification/Versions.thy ===== *)
theory Versions
  imports Prelude
begin

text \<open>
  \<^verbatim>\<open>include/nvcr/common/versions.hpp.in\<close>: the version structures. Those with a major number
  only are \<open>version1\<close>, those with a major and a minor number \<open>version2\<close>.
\<close>

record version1 =
  v1_major :: u16

record version2 =
  v2_major :: u16
  v2_minor :: u16

type_synonym codec_api_version = version1
type_synonym provider_api_version = version1
type_synonym payload_syntax_version = version1
type_synonym stream_format_version = version2
type_synonym model_set_version = version2
type_synonym manifest_schema_version = version2

end
