(* ===== verification/AccessUnits.thy ===== *)
theory AccessUnits
  imports Frames Versions
begin

text \<open>
  \<^verbatim>\<open>include/nvcr/bitstream/access_unit.hpp\<close>, \<^verbatim>\<open>src/bitstream/access_unit.cpp\<close>: the \<open>NVAU\<close>
  access unit in its two wire versions. \<open>au_serialize\<close>, \<open>au_serialize_sectioned\<close> and
  \<open>au_deserialize\<close> are the functions of \<open>AccessUnitIO\<close>; the helpers keep the names of
  the source. \<open>std::uint64_t\<close> sums are \<^typ>\<open>u64\<close> and wrap where the code's do. The
  allocator parameter \<open>alloc\<close> decides the \<open>std::bad_alloc\<close> branches the code catches.
  An \<open>AccessUnitPixelFormat\<close> is its underlying \<^typ>\<open>u8\<close>.
\<close>

subsection \<open>Data\<close>

record access_unit_section =
  sec_type :: u16
  sec_version :: u16
  sec_flags :: u32
  sec_payload :: "byte list"

record access_unit =
  au_model_id :: string
  au_width :: u32
  au_height :: u32
  au_qp :: u32
  au_frame_type :: frame_type
  au_reset_state :: bool
  au_payload :: "byte list"
  au_codec_id :: string
  au_codec_profile_id :: string
  au_stream_format_version :: stream_format_version
  au_payload_syntax_version :: payload_syntax_version
  au_model_set_version :: model_set_version
  au_pixel_format :: u8
  au_bit_depth :: u8
  au_random_access :: bool
  au_discontinuity :: bool
  au_decode_order_index :: u64
  au_presentation_order_index :: u64
  au_dependencies :: "u64 list"
  au_sections :: "access_unit_section list"

definition yuv420p8_code :: u8 where
  "yuv420p8_code = 1"

text \<open>The seven-argument constructor; the other members take their default initializers.\<close>

definition make_access_unit ::
  "string \<Rightarrow> u32 \<Rightarrow> u32 \<Rightarrow> u32 \<Rightarrow> frame_type \<Rightarrow> bool \<Rightarrow> byte list \<Rightarrow> access_unit" where
  "make_access_unit model_identity visible_width visible_height effective_qp type resets_state
     codec_payload =
     \<lparr>au_model_id = model_identity, au_width = visible_width, au_height = visible_height,
      au_qp = effective_qp, au_frame_type = type, au_reset_state = resets_state,
      au_payload = codec_payload, au_codec_id = [], au_codec_profile_id = [],
      au_stream_format_version = \<lparr>v2_major = 1, v2_minor = 0\<rparr>,
      au_payload_syntax_version = \<lparr>v1_major = 1\<rparr>,
      au_model_set_version = \<lparr>v2_major = 1, v2_minor = 0\<rparr>,
      au_pixel_format = yuv420p8_code, au_bit_depth = 8,
      au_random_access = False, au_discontinuity = False,
      au_decode_order_index = 0, au_presentation_order_index = 0,
      au_dependencies = [], au_sections = []\<rparr>"

record section_header =
  sh_type :: u16
  sh_version :: u16
  sh_flags :: u32
  sh_size :: u64

subsection \<open>Constants\<close>

definition au_magic :: "byte list" where
  "au_magic = [0x4e, 0x56, 0x41, 0x55]"

definition reset_state_flag :: u8 where "reset_state_flag = 1"
definition supported_v1_flags :: u8 where "supported_v1_flags = reset_state_flag"
definition v2_reset_state_flag :: u32 where "v2_reset_state_flag = 1"
definition v2_random_access_flag :: u32 where "v2_random_access_flag = 2"
definition v2_discontinuity_flag :: u32 where "v2_discontinuity_flag = 4"
definition supported_v2_flags :: u32 where
  "supported_v2_flags = v2_reset_state_flag OR v2_random_access_flag OR v2_discontinuity_flag"
definition fixed_header_bytes_v1 :: nat where "fixed_header_bytes_v1 = 32"
definition fixed_header_bytes_v2 :: nat where "fixed_header_bytes_v2 = 64"
definition section_table_entry_bytes_v2 :: nat where "section_table_entry_bytes_v2 = 16"
definition codec_payload_section_type :: u16 where "codec_payload_section_type = 1"
definition au_format_version :: u16 where "au_format_version = 1"
definition sectioned_format_version :: u16 where "sectioned_format_version = 2"
definition maximum_model_id_bytes :: nat where "maximum_model_id_bytes = 128"
definition maximum_codec_id_bytes :: nat where "maximum_codec_id_bytes = 128"
definition maximum_codec_profile_id_bytes :: nat where "maximum_codec_profile_id_bytes = 128"
definition maximum_dependencies :: nat where "maximum_dependencies = 32"
definition maximum_sections :: nat where "maximum_sections = 64"
definition required_section_flag :: u32 where "required_section_flag = 1"
definition maximum_dimension :: u32 where "maximum_dimension = 16384"
definition maximum_pixels :: u64 where "maximum_pixels = 256 * 1024 * 1024"

lemmas au_constants =
  reset_state_flag_def supported_v1_flags_def v2_reset_state_flag_def v2_random_access_flag_def
  v2_discontinuity_flag_def supported_v2_flags_def fixed_header_bytes_v1_def
  fixed_header_bytes_v2_def section_table_entry_bytes_v2_def codec_payload_section_type_def
  au_format_version_def sectioned_format_version_def maximum_model_id_bytes_def
  maximum_codec_id_bytes_def maximum_codec_profile_id_bytes_def maximum_dependencies_def
  maximum_sections_def required_section_flag_def maximum_dimension_def maximum_pixels_def

subsection \<open>Validation\<close>

definition malformed :: "string \<Rightarrow> error" where
  "malformed msg = Error malformed_bitstream msg ''access-unit''"

definition au_invalid :: "string \<Rightarrow> error" where
  "au_invalid msg = Error invalid_argument msg ''access-unit''"

definition au_over_limit :: error where
  "au_over_limit = Error resource_exhausted ''access unit exceeds configured limit'' ''access-unit''"

definition valid_identifier :: "string \<Rightarrow> nat \<Rightarrow> bool" where
  "valid_identifier value maximum_size =
     (if value = [] \<or> length value > maximum_size then False
      else list_all identifier_char value)"

definition valid_model_id :: "string \<Rightarrow> bool" where
  "valid_model_id model_id = valid_identifier model_id maximum_model_id_bytes"

definition validate_common_fields :: "access_unit \<Rightarrow> unit result" where
  "validate_common_fields au =
     (if \<not> valid_model_id (au_model_id au) then
        Inl (au_invalid (''model_id must contain 1-128 ASCII letters, digits, '' @
          [CHR 0x27] @ ''.'' @ [CHR 0x27] @ '', '' @ [CHR 0x27] @ ''_'' @ [CHR 0x27] @
          '' or '' @ [CHR 0x27] @ ''-'' @ [CHR 0x27]))
      else if au_width au = 0 \<or> au_height au = 0
          \<or> au_width au > maximum_dimension \<or> au_height au > maximum_dimension
          \<or> au_width au AND 1 \<noteq> 0 \<or> au_height au AND 1 \<noteq> 0
          \<or> ucast (au_width au) * ucast (au_height au) > maximum_pixels then
        Inl (au_invalid ''access-unit dimensions are out of range'')
      else if au_qp au > (if au_frame_type au = intra then 63 else 71) then
        Inl (au_invalid ''access-unit QP is out of range'')
      else if au_reset_state au \<noteq> (au_frame_type au = intra) then
        Inl (au_invalid ''intra access units must carry reset_state and predicted access units must not'')
      else if au_payload au = [] then
        Inl (au_invalid ''access-unit payload is empty'')
      else Inr ())"

definition validate_v1_fields :: "access_unit \<Rightarrow> unit result" where
  "validate_v1_fields au = validate_common_fields au"

definition known_section_type :: "u16 \<Rightarrow> bool" where
  "known_section_type type \<longleftrightarrow>
     type = 1 \<or> type = 2 \<or> type = 3 \<or> type = 4 \<or> type = 5 \<or> type = 6 \<or> type = 0x8000"

fun find_codec_payload :: "access_unit_section list \<Rightarrow> nat \<Rightarrow> nat option \<Rightarrow> nat option result" where
  "find_codec_payload [] index found = Inr found"
| "find_codec_payload (section # rest) index found =
     (if sec_payload section = [] then
        Inl (au_invalid ''access-unit section payload is empty'')
      else if sec_type section = codec_payload_section_type then
        (if found \<noteq> None then
           Inl (au_invalid ''access-unit has multiple codec payload sections'')
         else find_codec_payload rest (Suc index) (Some index))
      else find_codec_payload rest (Suc index) found)"

definition normalized_sections :: "access_unit \<Rightarrow> access_unit_section list result" where
  "normalized_sections au =
     (let sections =
        (if au_sections au = [] then
           [\<lparr>sec_type = codec_payload_section_type, sec_version = 1,
             sec_flags = required_section_flag, sec_payload = au_payload au\<rparr>]
         else au_sections au) in
      res_bind (find_codec_payload sections 0 None) (\<lambda>codec_payload_index.
      case codec_payload_index of
        None \<Rightarrow> Inl (au_invalid ''access-unit has no codec payload section'')
      | Some index \<Rightarrow>
          if sec_payload (sections ! index) \<noteq> au_payload au then
            Inl (au_invalid ''access-unit payload must match the codec payload section'')
          else Inr sections))"

definition validate_v2_fields :: "access_unit \<Rightarrow> access_unit_section list result" where
  "validate_v2_fields au =
     res_bind (validate_common_fields au) (\<lambda>_.
     if \<not> valid_identifier (au_codec_id au) maximum_codec_id_bytes then
       Inl (au_invalid ''access-unit codec_id is invalid'')
     else if \<not> valid_identifier (au_codec_profile_id au) maximum_codec_profile_id_bytes then
       Inl (au_invalid ''access-unit codec_profile_id is invalid'')
     else if au_pixel_format au \<noteq> yuv420p8_code \<or> au_bit_depth au \<noteq> 8 then
       Inl (au_invalid ''access-unit v2 currently supports only YUV420P8'')
     else if length (au_dependencies au) > maximum_dependencies then
       Inl (au_invalid ''access-unit has too many dependencies'')
     else if length (au_sections au) > maximum_sections then
       Inl (au_invalid ''access-unit has too many sections'')
     else normalized_sections au)"

subsection \<open>Writing\<close>

definition has_magic :: "byte list \<Rightarrow> bool" where
  "has_magic bytes \<longleftrightarrow> length bytes \<ge> length au_magic \<and> take (length au_magic) bytes = au_magic"

definition au_serialize :: "(nat \<Rightarrow> bool) \<Rightarrow> access_unit \<Rightarrow> nat \<Rightarrow> byte list result" where
  "au_serialize alloc au maximum_access_unit_bytes =
     res_bind (validate_v1_fields au) (\<lambda>_.
     if length (au_model_id au) > 65535 \<or> length (au_payload au) > 2 ^ 64 - 1
        \<or> fixed_header_bytes_v1 > maximum_access_unit_bytes
        \<or> length (au_model_id au) > maximum_access_unit_bytes - fixed_header_bytes_v1
        \<or> length (au_payload au) >
            maximum_access_unit_bytes - fixed_header_bytes_v1 - length (au_model_id au) then
       Inl au_over_limit
     else if \<not> alloc (fixed_header_bytes_v1 + length (au_model_id au) + length (au_payload au)) then
       Inl (Error resource_exhausted ''access-unit allocation failed'' ''access-unit'')
     else
       let w = write_bytes au_magic [];
           w = write_u16 au_format_version w;
           w = write_u8 (frame_type_u8 (au_frame_type au)) w;
           w = write_u8 (if au_reset_state au then reset_state_flag else 0) w;
           w = write_u16 (word_of_nat (length (au_model_id au))) w;
           w = write_u16 0 w;
           w = write_u32 (au_width au) w;
           w = write_u32 (au_height au) w;
           w = write_u32 (au_qp au) w;
           w = write_u64 (word_of_nat (length (au_payload au))) w;
           w = write_string (au_model_id au) w;
           w = write_bytes (au_payload au) w
       in Inr w)"

fun section_payload_total :: "access_unit_section list \<Rightarrow> u64 \<Rightarrow> u64 result" where
  "section_payload_total [] acc = Inr acc"
| "section_payload_total (section # rest) acc =
     (if length (sec_payload section) > unat (- 1 - acc) then
        Inl (Error resource_exhausted ''access-unit section size overflow'' ''access-unit'')
      else section_payload_total rest (acc + word_of_nat (length (sec_payload section))))"

definition write_section_header :: "access_unit_section \<Rightarrow> byte_writer \<Rightarrow> byte_writer" where
  "write_section_header section w =
     write_u64 (word_of_nat (length (sec_payload section)))
       (write_u32 (sec_flags section)
         (write_u16 (sec_version section)
           (write_u16 (sec_type section) w)))"

definition v2_total_size :: "access_unit \<Rightarrow> access_unit_section list \<Rightarrow> u64 \<Rightarrow> u64" where
  "v2_total_size au sections section_payload_bytes =
     (let dependency_bytes = word_of_nat (length (au_dependencies au) * 8);
          section_table_bytes = word_of_nat (length sections * section_table_entry_bytes_v2)
      in word_of_nat fixed_header_bytes_v2 + word_of_nat (length (au_codec_id au)) +
         word_of_nat (length (au_codec_profile_id au)) + word_of_nat (length (au_model_id au)) +
         dependency_bytes + section_table_bytes + section_payload_bytes)"

definition v2_flags :: "access_unit \<Rightarrow> u32" where
  "v2_flags au =
     (let flags = (if au_reset_state au then v2_reset_state_flag else 0);
          flags = (if au_random_access au then flags OR v2_random_access_flag else flags);
          flags = (if au_discontinuity au then flags OR v2_discontinuity_flag else flags)
      in flags)"

definition au_serialize_sectioned :: "(nat \<Rightarrow> bool) \<Rightarrow> access_unit \<Rightarrow> nat \<Rightarrow> byte list result" where
  "au_serialize_sectioned alloc au maximum_access_unit_bytes =
     res_bind (validate_v2_fields au) (\<lambda>sections.
     res_bind (section_payload_total sections 0) (\<lambda>section_payload_bytes.
     let total_size = v2_total_size au sections section_payload_bytes in
     if unat total_size > maximum_access_unit_bytes \<or> unat total_size > size_max then
       Inl au_over_limit
     else if \<not> alloc (unat total_size) then
       Inl (Error resource_exhausted ''access-unit allocation failed'' ''access-unit'')
     else
       let w = write_bytes au_magic [];
           w = write_u16 sectioned_format_version w;
           w = write_u16 (word_of_nat fixed_header_bytes_v2) w;
           w = write_u32 (v2_flags au) w;
           w = write_u8 (frame_type_u8 (au_frame_type au)) w;
           w = write_u8 (au_pixel_format au) w;
           w = write_u8 (au_bit_depth au) w;
           w = write_u8 0 w;
           w = write_u32 (au_width au) w;
           w = write_u32 (au_height au) w;
           w = write_u32 (au_qp au) w;
           w = write_u64 (au_decode_order_index au) w;
           w = write_u64 (au_presentation_order_index au) w;
           w = write_u16 (word_of_nat (length (au_dependencies au))) w;
           w = write_u16 (word_of_nat (length sections)) w;
           w = write_u16 (word_of_nat (length (au_codec_id au))) w;
           w = write_u16 (word_of_nat (length (au_codec_profile_id au))) w;
           w = write_u16 (word_of_nat (length (au_model_id au))) w;
           w = write_u16 0 w;
           w = write_u64 total_size w;
           w = write_string (au_codec_id au) w;
           w = write_string (au_codec_profile_id au) w;
           w = write_string (au_model_id au) w;
           w = fold write_u64 (au_dependencies au) w;
           w = fold write_section_header sections w;
           w = fold (\<lambda>section. write_bytes (sec_payload section)) sections w
       in Inr w))"

subsection \<open>Reading\<close>

text \<open>
  The source performs the header reads first and then returns the first error among them in
  reading order; every read error is \<^const>\<open>truncated_error\<close> and nothing else happens in
  between, so the sequence below returns the same results.
\<close>

definition deserialize_v1 ::
  "(nat \<Rightarrow> bool) \<Rightarrow> byte_reader \<Rightarrow> byte list \<Rightarrow> nat \<Rightarrow> access_unit result" where
  "deserialize_v1 alloc r bytes maximum_access_unit_bytes =
     res_bind (read_u8 r) (\<lambda>(type, r).
     res_bind (read_u8 r) (\<lambda>(flags, r).
     res_bind (read_u16 r) (\<lambda>(model_id_size, r).
     res_bind (read_u16 r) (\<lambda>(reserved, r).
     res_bind (read_u32 r) (\<lambda>(width, r).
     res_bind (read_u32 r) (\<lambda>(height, r).
     res_bind (read_u32 r) (\<lambda>(qp, r).
     res_bind (read_u64 r) (\<lambda>(payload_size, r).
     if type > frame_type_u8 predicted then
       Inl (malformed ''invalid access-unit frame type'')
     else if flags AND NOT supported_v1_flags \<noteq> 0 \<or> reserved \<noteq> 0 then
       Inl (malformed ''unsupported access-unit flags or reserved fields'')
     else if model_id_size = 0 \<or> unat model_id_size > maximum_model_id_bytes then
       Inl (malformed ''access-unit model identity is out of range'')
     else if payload_size = 0 \<or> unat payload_size > remaining r
         \<or> unat payload_size > size_max then
       Inl (malformed ''access-unit payload length is invalid'')
     else if length bytes > maximum_access_unit_bytes then
       Inl au_over_limit
     else
       res_bind (read_string alloc (unat model_id_size) r) (\<lambda>(model_id, r).
       res_bind (read_bytes (unat payload_size) r) (\<lambda>(payload, r).
       if remaining r \<noteq> 0 then Inl (malformed ''trailing access-unit data'')
       else
         let output = make_access_unit model_id width height qp (frame_type_of_u8 type)
               (flags AND reset_state_flag \<noteq> 0) payload in
         case validate_v1_fields output of
           Inl e \<Rightarrow> Inl (malformed (message e))
         | Inr _ \<Rightarrow> Inr output))))))))))"

fun read_section_headers ::
  "nat \<Rightarrow> u64 \<Rightarrow> byte_reader \<Rightarrow> (section_header list \<times> u64 \<times> byte_reader) result" where
  "read_section_headers 0 aggregate r = Inr ([], aggregate, r)"
| "read_section_headers (Suc n) aggregate r =
     res_bind (read_u16 r) (\<lambda>(type, r).
     res_bind (read_u16 r) (\<lambda>(version, r).
     res_bind (read_u32 r) (\<lambda>(flags, r).
     res_bind (read_u64 r) (\<lambda>(size, r).
     if size = 0 \<or> unat size > size_max then
       Inl (malformed ''NVAU v2 section length is invalid'')
     else if \<not> known_section_type type \<and> flags AND required_section_flag \<noteq> 0 then
       Inl (malformed ''unknown required NVAU v2 section'')
     else if aggregate > - 1 - size then
       Inl (malformed ''NVAU v2 aggregate section length overflow'')
     else
       res_bind (read_section_headers n (aggregate + size) r) (\<lambda>(headers, total, r).
       Inr (\<lparr>sh_type = type, sh_version = version, sh_flags = flags, sh_size = size\<rparr> # headers,
            total, r))))))"

fun read_sections :: "section_header list \<Rightarrow> bool \<Rightarrow> byte list \<Rightarrow> byte_reader
    \<Rightarrow> (access_unit_section list \<times> bool \<times> byte list \<times> byte_reader) result" where
  "read_sections [] saw codec_payload r = Inr ([], saw, codec_payload, r)"
| "read_sections (header # headers) saw codec_payload r =
     res_bind (read_bytes (unat (sh_size header)) r) (\<lambda>(payload, r).
     if sh_type header = codec_payload_section_type \<and> saw then
       Inl (malformed ''multiple NVAU v2 codec payload sections'')
     else
       let is_codec = (sh_type header = codec_payload_section_type) in
       res_bind (read_sections headers (saw \<or> is_codec)
           (if is_codec then payload else codec_payload) r) (\<lambda>(sections, saw', codec_payload', r).
       Inr (\<lparr>sec_type = sh_type header, sec_version = sh_version header,
             sec_flags = sh_flags header, sec_payload = payload\<rparr> # sections,
            saw', codec_payload', r)))"

definition deserialize_v2 ::
  "(nat \<Rightarrow> bool) \<Rightarrow> byte_reader \<Rightarrow> byte list \<Rightarrow> nat \<Rightarrow> access_unit result" where
  "deserialize_v2 alloc r bytes maximum_access_unit_bytes =
     res_bind (read_u16 r) (\<lambda>(header_size, r).
     res_bind (read_u32 r) (\<lambda>(flags, r).
     res_bind (read_u8 r) (\<lambda>(type, r).
     res_bind (read_u8 r) (\<lambda>(pixel_format, r).
     res_bind (read_u8 r) (\<lambda>(bit_depth, r).
     res_bind (read_u8 r) (\<lambda>(reserved8, r).
     res_bind (read_u32 r) (\<lambda>(width, r).
     res_bind (read_u32 r) (\<lambda>(height, r).
     res_bind (read_u32 r) (\<lambda>(qp, r).
     res_bind (read_u64 r) (\<lambda>(decode_order_index, r).
     res_bind (read_u64 r) (\<lambda>(presentation_order_index, r).
     res_bind (read_u16 r) (\<lambda>(dependency_count, r).
     res_bind (read_u16 r) (\<lambda>(section_count, r).
     res_bind (read_u16 r) (\<lambda>(codec_id_size, r).
     res_bind (read_u16 r) (\<lambda>(codec_profile_id_size, r).
     res_bind (read_u16 r) (\<lambda>(model_id_size, r).
     res_bind (read_u16 r) (\<lambda>(reserved16, r).
     res_bind (read_u64 r) (\<lambda>(total_size, r).
     if unat header_size \<noteq> fixed_header_bytes_v2 then
       Inl (malformed ''invalid NVAU v2 header size'')
     else if unat total_size \<noteq> length bytes \<or> unat total_size > maximum_access_unit_bytes then
       Inl au_over_limit
     else if flags AND NOT supported_v2_flags \<noteq> 0 \<or> reserved8 \<noteq> 0 \<or> reserved16 \<noteq> 0 then
       Inl (malformed ''unsupported NVAU v2 flags or reserved fields'')
     else if type > frame_type_u8 predicted then
       Inl (malformed ''invalid access-unit frame type'')
     else if pixel_format \<noteq> yuv420p8_code \<or> bit_depth \<noteq> 8 then
       Inl (malformed ''unsupported NVAU v2 pixel format'')
     else if unat dependency_count > maximum_dependencies
         \<or> section_count = 0 \<or> unat section_count > maximum_sections then
       Inl (malformed ''NVAU v2 dependency or section count is out of range'')
     else if codec_id_size = 0 \<or> unat codec_id_size > maximum_codec_id_bytes
         \<or> codec_profile_id_size = 0 \<or> unat codec_profile_id_size > maximum_codec_profile_id_bytes
         \<or> model_id_size = 0 \<or> unat model_id_size > maximum_model_id_bytes then
       Inl (malformed ''NVAU v2 identity length is out of range'')
     else
       res_bind (read_string alloc (unat codec_id_size) r) (\<lambda>(codec_id, r).
       res_bind (read_string alloc (unat codec_profile_id_size) r) (\<lambda>(codec_profile_id, r).
       res_bind (read_string alloc (unat model_id_size) r) (\<lambda>(model_id, r).
       if \<not> alloc (unat dependency_count * 8) then
         Inl (Error resource_exhausted ''dependency allocation failed'' ''access-unit'')
       else
       res_bind (read_many read_u64 (unat dependency_count) r) (\<lambda>(dependencies, r).
       if \<not> alloc (unat section_count * 16) then
         Inl (Error resource_exhausted ''section allocation failed'' ''access-unit'')
       else
       res_bind (read_section_headers (unat section_count) 0 r) (\<lambda>(section_headers, aggregate, r).
       if unat aggregate \<noteq> remaining r then
         Inl (malformed ''NVAU v2 section table and payload sizes are inconsistent'')
       else if \<not> alloc (length section_headers * 32) then
         Inl (Error resource_exhausted ''section allocation failed'' ''access-unit'')
       else
       res_bind (read_sections section_headers False [] r)
         (\<lambda>(sections, saw_codec_payload, codec_payload, r).
       if remaining r \<noteq> 0 then
         Inl (malformed ''trailing NVAU v2 section payload data'')
       else if \<not> saw_codec_payload then
         Inl (malformed ''NVAU v2 has no codec payload section'')
       else
         let output = (make_access_unit model_id width height qp (frame_type_of_u8 type)
               (flags AND v2_reset_state_flag \<noteq> 0) codec_payload)
             \<lparr>au_codec_id := codec_id,
              au_codec_profile_id := codec_profile_id,
              au_pixel_format := pixel_format,
              au_bit_depth := bit_depth,
              au_random_access := (flags AND v2_random_access_flag \<noteq> 0),
              au_discontinuity := (flags AND v2_discontinuity_flag \<noteq> 0),
              au_decode_order_index := decode_order_index,
              au_presentation_order_index := presentation_order_index,
              au_dependencies := dependencies,
              au_sections := sections\<rparr> in
         case validate_v2_fields output of
           Inl e \<Rightarrow> Inl (malformed (message e))
         | Inr _ \<Rightarrow> Inr output))))))))))))))))))))))))"

definition au_deserialize :: "(nat \<Rightarrow> bool) \<Rightarrow> byte list \<Rightarrow> nat \<Rightarrow> access_unit result" where
  "au_deserialize alloc bytes maximum_access_unit_bytes =
     (if length bytes > maximum_access_unit_bytes then Inl au_over_limit
      else if \<not> has_magic bytes then Inl (malformed ''invalid access-unit magic'')
      else
        res_bind (read_bytes (length au_magic) (make_reader bytes)) (\<lambda>(wire_magic, r).
        res_bind (read_u16 r) (\<lambda>(version, r).
        if version = au_format_version then
          deserialize_v1 alloc r bytes maximum_access_unit_bytes
        else if version = sectioned_format_version then
          deserialize_v2 alloc r bytes maximum_access_unit_bytes
        else Inl (malformed ''unsupported access-unit version''))))"

subsection \<open>Version 1: layout and round trips\<close>

definition v1_core :: "access_unit \<Rightarrow> access_unit" where
  "v1_core au = make_access_unit (au_model_id au) (au_width au) (au_height au) (au_qp au)
     (au_frame_type au) (au_reset_state au) (au_payload au)"

lemma validate_v1_core [simp]: "validate_v1_fields (v1_core au) = validate_v1_fields au"
  by (simp add: validate_v1_fields_def validate_common_fields_def v1_core_def make_access_unit_def)

lemma length_au_magic [simp]: "length au_magic = 4"
  by (simp add: au_magic_def)

lemma has_magic_append [simp]: "has_magic (au_magic @ bs)"
  by (simp add: has_magic_def)

lemma has_magic_iff: "has_magic bs \<longleftrightarrow> (\<exists>rest. bs = au_magic @ rest)"
  by (metis has_magic_append has_magic_def append_take_drop_id)

definition v1_layout :: "access_unit \<Rightarrow> byte list" where
  "v1_layout au = au_magic @ le16 au_format_version @ [frame_type_u8 (au_frame_type au)] @
     [if au_reset_state au then reset_state_flag else 0] @
     le16 (word_of_nat (length (au_model_id au))) @ le16 0 @
     le32 (au_width au) @ le32 (au_height au) @ le32 (au_qp au) @
     le64 (word_of_nat (length (au_payload au))) @ as_bytes (au_model_id au) @ au_payload au"

lemma validate_common_ok:
  assumes "validate_common_fields au = Inr ()"
  shows "length (au_model_id au) \<le> 128" "au_model_id au \<noteq> []" "au_payload au \<noteq> []"
    "au_reset_state au = (au_frame_type au = intra)"
  using assms
  by (auto simp: validate_common_fields_def valid_model_id_def valid_identifier_def
        maximum_model_id_bytes_def split: if_splits)

lemma au_serialize_iff:
  "au_serialize alloc au m = Inr bs \<longleftrightarrow>
     validate_v1_fields au = Inr () \<and> bs = v1_layout au \<and> length bs \<le> m
     \<and> length (au_payload au) < 2 ^ 64
     \<and> alloc (32 + length (au_model_id au) + length (au_payload au))"
  (is "?L \<longleftrightarrow> ?R")
proof (cases "validate_v1_fields au")
  case (Inl e)
  then show ?thesis by (simp add: au_serialize_def)
next
  case (Inr u)
  then have valid: "validate_v1_fields au = Inr ()" by simp
  then have id: "length (au_model_id au) \<le> 128"
    by (simp add: validate_v1_fields_def validate_common_ok)
  have len: "length (v1_layout au) = 32 + length (au_model_id au) + length (au_payload au)"
    by (simp add: v1_layout_def)
  have "au_serialize alloc au m =
      (if 32 + length (au_model_id au) + length (au_payload au) > m
          \<or> length (au_payload au) \<ge> 2 ^ 64 then Inl au_over_limit
       else if \<not> alloc (32 + length (au_model_id au) + length (au_payload au)) then
         Inl (Error resource_exhausted ''access-unit allocation failed'' ''access-unit'')
       else Inr (v1_layout au))"
    using id by (auto simp: au_serialize_def valid fixed_header_bytes_v1_def write_simps v1_layout_def)
  then have "?L \<longleftrightarrow> bs = v1_layout au \<and> length (v1_layout au) \<le> m
      \<and> length (au_payload au) < 2 ^ 64
      \<and> alloc (32 + length (au_model_id au) + length (au_payload au))"
    unfolding len by auto
  then show ?thesis
    using valid by blast
qed

lemma v1_flags_supported [simp]:
  "(if b then reset_state_flag else 0) AND NOT supported_v1_flags = 0"
  "(if b then reset_state_flag else 0) AND reset_state_flag \<noteq> 0 \<longleftrightarrow> b"
  by (simp_all add: au_constants)

lemma unat_small_u16: "n \<le> 128 \<Longrightarrow> unat (word_of_nat n :: u16) = n"
  by (simp add: unat_of_nat take_bit_nat_eq_self)

lemma unat_small_u64: "n < 2 ^ 64 \<Longrightarrow> unat (word_of_nat n :: u64) = n"
  by (simp add: unat_of_nat take_bit_nat_eq_self)

lemma word_of_nat_nonzero:
  "unat (word_of_nat n :: 'a::len word) = n \<Longrightarrow> 0 < n \<Longrightarrow> word_of_nat n \<noteq> (0 :: 'a word)"
  by auto

lemma v1_layout_read:
  assumes valid: "validate_v1_fields au = Inr ()" and limit: "length (v1_layout au) \<le> m"
    and payload: "length (au_payload au) < 2 ^ 64"
    and alloc: "\<And>n. alloc n"
  shows "au_deserialize alloc (v1_layout au) m = Inr (v1_core au)"
proof -
  note fields = validate_common_ok [OF valid [unfolded validate_v1_fields_def]]
  have id: "unat (word_of_nat (length (au_model_id au)) :: u16) = length (au_model_id au)"
    using fields by (simp add: unat_small_u16)
  have pl: "unat (word_of_nat (length (au_payload au)) :: u64) = length (au_payload au)"
    using payload by (rule unat_small_u64)
  have nonzero: "word_of_nat (length (au_model_id au)) \<noteq> (0 :: u16)"
    "word_of_nat (length (au_payload au)) \<noteq> (0 :: u64)"
    using fields id pl by (auto intro!: word_of_nat_nonzero)
  have v1: "deserialize_v1 alloc (reader_at (au_magic @ le16 au_format_version)
      (drop 6 (v1_layout au))) bs m = Inr (v1_core au)" if "length bs \<le> m" for bs
    using fields(1-3) that frame_type_u8_le [of "au_frame_type au"] payload
    by (simp add: deserialize_v1_def v1_layout_def wire_simps id pl nonzero alloc
          maximum_model_id_bytes_def frame_type_u8_def [of predicted] valid not_less Let_def
          flip: v1_core_def)
  show ?thesis
    using limit v1 [OF limit]
    by (simp add: au_deserialize_def v1_layout_def wire_simps)
qed

text \<open>
  Property C16. Version 1 access units survive the wire: whatever \<open>AccessUnitIO::serialize\<close>
  writes, \<open>AccessUnitIO::deserialize\<close> reads back with the same limit, up to the members
  version 1 does not carry, which take their defaults.
\<close>

theorem au_v1_roundtrip:
  assumes "au_serialize alloc au m = Inr bs"
    and "\<And>n. alloc n"
  shows "au_deserialize alloc bs m = Inr (v1_core au)"
  using assms v1_layout_read [of au m alloc] by (auto simp: au_serialize_iff)

definition sample_access_unit :: access_unit where
  "sample_access_unit = (make_access_unit ''m1'' 16 8 63 intra True [7, 9])
     \<lparr>au_codec_id := ''dcvcrt'', au_codec_profile_id := ''p-1'', au_random_access := True,
      au_decode_order_index := 5, au_presentation_order_index := 6, au_dependencies := [3, 4],
      au_sections :=
        [\<lparr>sec_type = 2, sec_version = 1, sec_flags = 0, sec_payload = [1]\<rparr>,
         \<lparr>sec_type = 1, sec_version = 1, sec_flags = 1, sec_payload = [7, 9]\<rparr>]\<rparr>"

lemmas sample_au_simps =
  sample_access_unit_def make_access_unit_def validate_v1_fields_def validate_common_fields_def
  valid_model_id_def valid_identifier_def identifier_char_def isalnum_def isdigit_def
  isupper_def islower_def char_code_def au_constants yuv420p8_code_def

lemma sample_valid: "validate_v1_fields sample_access_unit = Inr ()"
  by (simp add: sample_au_simps)

theorem au_v1_roundtrip_witness:
  "\<exists>bs. au_serialize (\<lambda>_. True) sample_access_unit 64 = Inr bs
     \<and> au_deserialize (\<lambda>_. True) bs 64 = Inr (v1_core sample_access_unit)"
proof -
  have "au_serialize (\<lambda>_. True) sample_access_unit 64 = Inr (v1_layout sample_access_unit)"
    by (simp add: au_serialize_iff sample_valid)
      (simp add: v1_layout_def sample_access_unit_def make_access_unit_def)
  with au_v1_roundtrip [of "\<lambda>_. True"] show ?thesis by blast
qed

lemma v1_core_make [simp]: "v1_core (make_access_unit m w h q t b payload) = make_access_unit m w h q t b payload"
  by (simp add: v1_core_def make_access_unit_def)

lemma serialized_unit:
  assumes "au_serialize alloc (make_access_unit m w h q t b payload) limit = Inr bytes" "\<And>n. alloc' n" "limit \<le> limit'"
  shows "au_deserialize alloc' bytes limit' = Inr (make_access_unit m w h q t b payload)" "has_magic bytes"
    "length bytes \<le> limit'" "q \<le> 71" "w \<le> 16384" "h \<le> 16384" "b = (t = intra)"
proof -
  let ?u = "make_access_unit m w h q t b payload"
  have v: "validate_v1_fields ?u = Inr ()" "bytes = v1_layout ?u" "length bytes \<le> limit'" "length (au_payload ?u) < 2 ^ 64"
    using assms(1,3) by (auto simp: au_serialize_iff)
  show "au_deserialize alloc' bytes limit' = Inr ?u"
    using v1_layout_read [OF v(1) _ v(4) assms(2), of limit'] v(2,3) by simp
  show "has_magic bytes" "length bytes \<le> limit'" using v(2,3) by (simp_all add: v1_layout_def)
  have c: "validate_common_fields ?u = Inr ()" using v(1) by (simp add: validate_v1_fields_def)
  show "b = (t = intra)" using validate_common_ok(4) [OF c] by (simp add: make_access_unit_def)
  show "q \<le> 71" "w \<le> 16384" "h \<le> 16384"
    using c by (auto simp: validate_common_fields_def make_access_unit_def maximum_dimension_def not_less split: if_splits
      intro: order.trans [of q 63 71])
qed

end
