(* ===== verification/SectionedUnits.thy ===== *)
theory SectionedUnits
  imports AccessUnits
begin

text \<open>
  The wire layout of the sectioned (version 2) access unit of \<^verbatim>\<open>access_unit.cpp\<close>, the
  section table and payload area as the encoder writes them and the decoder walks them, and the
  theorems about both versions: what one side writes the other reads, and the decoder accepts
  only what the encoder would write.
\<close>

subsection \<open>The section table and the payload area\<close>

definition header_of :: "access_unit_section \<Rightarrow> section_header" where
  "header_of s = \<lparr>sh_type = sec_type s, sh_version = sec_version s, sh_flags = sec_flags s,
     sh_size = word_of_nat (length (sec_payload s))\<rparr>"

definition table_entry :: "section_header \<Rightarrow> byte list" where
  "table_entry h = le16 (sh_type h) @ le16 (sh_version h) @ le32 (sh_flags h) @ le64 (sh_size h)"

definition payload_bytes :: "access_unit_section list \<Rightarrow> nat" where
  "payload_bytes ss = sum_list (map (length \<circ> sec_payload) ss)"

definition decodable_section :: "access_unit_section \<Rightarrow> bool" where
  "decodable_section s \<longleftrightarrow>
     known_section_type (sec_type s) \<or> sec_flags s AND required_section_flag = 0"

lemma payload_bytes_simps [simp]:
  "payload_bytes [] = 0"
  "payload_bytes (s # ss) = length (sec_payload s) + payload_bytes ss"
  by (simp_all add: payload_bytes_def)

lemma length_table_entry [simp]: "length (table_entry h) = 16"
  by (simp add: table_entry_def)

lemma length_concat_payloads: "length (concat (map sec_payload ss)) = payload_bytes ss"
  by (induction ss) simp_all

lemma length_concat_entries: "length (concat (map table_entry hs)) = 16 * length hs"
  by (induction hs) simp_all

lemma fold_section_headers:
  "fold write_section_header ss w = w @ concat (map (table_entry \<circ> header_of) ss)"
  by (induction ss arbitrary: w)
     (simp_all add: write_section_header_def write_simps table_entry_def header_of_def)

lemma fold_section_payloads:
  "fold (\<lambda>s. write_bytes (sec_payload s)) ss w = w @ concat (map sec_payload ss)"
  by (induction ss arbitrary: w) (simp_all add: write_simps)

lemma unat_complement: "unat (- 1 - w :: u64) = 2 ^ 64 - 1 - unat w"
  by (simp add: unat_sub word_order.extremum unat_max_u64)

lemma section_payload_total_iff:
  "section_payload_total ss acc = Inr t \<longleftrightarrow>
     unat acc + payload_bytes ss < 2 ^ 64 \<and> t = acc + word_of_nat (payload_bytes ss)"
proof (induction ss arbitrary: acc)
  case Nil
  then show ?case using unsigned_less [of acc, where ?'a = nat] by auto
next
  case (Cons s ss)
  let ?n = "length (sec_payload s)"
  have fits: "unat (acc + word_of_nat ?n) = unat acc + ?n" if "?n \<le> 2 ^ 64 - 1 - unat acc"
  proof -
    have "unat acc + ?n < 2 ^ 64"
      using that unsigned_less [of acc, where ?'a = nat] by simp
    then show ?thesis
      by (simp add: unat_word_ariths unat_of_nat take_bit_nat_eq_self)
  qed
  have acc: "unat acc < 2 ^ 64" using unsigned_less [of acc, where ?'a = nat] by simp
  show ?case
  proof (cases "?n \<le> 2 ^ 64 - 1 - unat acc")
    case True
    then show ?thesis
      using Cons.IH [of "acc + word_of_nat ?n"]
      by (simp add: fits unat_complement add.assoc)
  next
    case False
    then have "\<not> unat acc + payload_bytes (s # ss) < 2 ^ 64" using acc by simp
    then show ?thesis
      using False by (simp add: unat_complement)
  qed
qed

lemma read_section_headers_table:
  assumes "\<And>h. h \<in> set hs \<Longrightarrow> sh_size h \<noteq> 0
      \<and> (known_section_type (sh_type h) \<or> sh_flags h AND required_section_flag = 0)"
    and "unat acc + sum_list (map (unat \<circ> sh_size) hs) < 2 ^ 64"
  shows "read_section_headers (length hs) acc
       (reader_at pre (concat (map table_entry hs) @ post)) =
     Inr (hs, acc + sum_list (map sh_size hs),
       reader_at (pre @ concat (map table_entry hs)) post)"
  using assms
proof (induction hs arbitrary: acc pre)
  case Nil
  then show ?case by simp
next
  case (Cons h hs)
  have size: "unat (sh_size h) \<le> size_max"
    using unsigned_less [of "sh_size h", where ?'a = nat] by simp
  have fits: "unat acc + unat (sh_size h) < 2 ^ 64" using Cons.prems(2) by simp
  then have acc: "acc \<le> - 1 - sh_size h"
    by (simp add: word_le_nat_alt unat_complement)
  have sum: "unat (acc + sh_size h) = unat acc + unat (sh_size h)"
    using fits by (simp add: unat_word_ariths)
  from Cons.prems have "read_section_headers (length hs) (acc + sh_size h)
       (reader_at (pre @ table_entry h) (concat (map table_entry hs) @ post)) =
     Inr (hs, acc + sh_size h + sum_list (map sh_size hs),
       reader_at ((pre @ table_entry h) @ concat (map table_entry hs)) post)"
    by (intro Cons.IH) (auto simp: sum ac_simps)
  then show ?case
    using Cons.prems(1) [of h] acc size
    by (simp add: table_entry_def [of h] wire_simps not_less not_le ac_simps)
qed

lemma read_section_headers_inv:
  "read_section_headers n acc (reader_at pre post) = Inr (hs, aggregate, r') \<Longrightarrow>
     \<exists>post'. post = concat (map table_entry hs) @ post' \<and> length hs = n
       \<and> r' = reader_at (pre @ concat (map table_entry hs)) post'
       \<and> aggregate = acc + sum_list (map sh_size hs)
       \<and> (\<forall>h\<in>set hs. sh_size h \<noteq> 0)"
proof (induction n arbitrary: acc pre post hs)
  case 0
  then show ?case by simp
next
  case (Suc n)
  then obtain type version flags size hs' r1 r2 r3 r4 where
      "read_u16 (reader_at pre post) = Inr (type, r1)" "read_u16 r1 = Inr (version, r2)"
      "read_u32 r2 = Inr (flags, r3)" "read_u64 r3 = Inr (size, r4)"
    and tl: "read_section_headers n (acc + size) r4 = Inr (hs', aggregate, r')"
    and hs: "hs = \<lparr>sh_type = type, sh_version = version, sh_flags = flags, sh_size = size\<rparr> # hs'"
    and size: "size \<noteq> 0"
    by (auto simp: result_simps)
  then obtain post4 where post: "post = table_entry (hd hs) @ post4"
    and r4: "r4 = reader_at (pre @ table_entry (hd hs)) post4"
    by (fastforce simp: table_entry_def dest!: read_invs)
  from Suc.IH [OF tl [unfolded r4]] show ?case
    using post hs size by (auto simp: add.assoc)
qed

definition is_codec_payload :: "access_unit_section \<Rightarrow> bool" where
  "is_codec_payload s \<longleftrightarrow> sec_type s = codec_payload_section_type"

lemma find_codec_payload_found:
  "find_codec_payload ss i (Some j) = Inr res \<longleftrightarrow>
     (\<forall>s\<in>set ss. sec_payload s \<noteq> [] \<and> \<not> is_codec_payload s) \<and> res = Some j"
  by (induction ss arbitrary: i) (auto simp: is_codec_payload_def)

lemma find_codec_payload_ge:
  "find_codec_payload ss i None = Inr (Some j) \<Longrightarrow> i \<le> j"
  by (induction ss arbitrary: i)
     (auto simp: find_codec_payload_found is_codec_payload_def split: if_splits dest: Suc_leD)

lemma find_codec_payload_iff:
  "(\<exists>j. find_codec_payload ss i None = Inr (Some j) \<and> ss ! (j - i) = s) \<longleftrightarrow>
     (\<forall>t\<in>set ss. sec_payload t \<noteq> []) \<and> filter is_codec_payload ss = [s]"
proof (induction ss arbitrary: i)
  case Nil
  then show ?case by simp
next
  case (Cons t ss)
  show ?case
  proof (cases "is_codec_payload t")
    case True
    then show ?thesis
      by (auto simp: find_codec_payload_found is_codec_payload_def filter_empty_conv)
  next
    case False
    have "(t # ss) ! (j - i) = ss ! (j - Suc i)"
      if "find_codec_payload ss (Suc i) None = Inr (Some j)" for j
      using find_codec_payload_ge [OF that] by (simp add: nth_Cons')
    with False Cons.IH [of "Suc i"] show ?thesis
      by (auto simp: is_codec_payload_def)
  qed
qed

lemma read_sections_payloads:
  assumes "length (filter is_codec_payload ss) \<le> (if saw then 0 else 1)"
    and "payload_bytes ss < 2 ^ 64"
  shows "read_sections (map header_of ss) saw cp
       (reader_at pre (concat (map sec_payload ss) @ post)) =
     Inr (ss, saw \<or> filter is_codec_payload ss \<noteq> [],
       (case filter is_codec_payload ss of [] \<Rightarrow> cp | s # _ \<Rightarrow> sec_payload s),
       reader_at (pre @ concat (map sec_payload ss)) post)"
  using assms
proof (induction ss arbitrary: saw cp pre)
  case Nil
  then show ?case by simp
next
  case (Cons s ss)
  have size: "unat (word_of_nat (length (sec_payload s)) :: u64) = length (sec_payload s)"
    using Cons.prems(2) by (intro unat_small_u64) simp
  have no_more: "filter is_codec_payload ss = []" if "is_codec_payload s"
    using Cons.prems(1) that by (simp split: if_splits)
  show ?case
    using Cons.IH [of "saw \<or> is_codec_payload s" "if is_codec_payload s then sec_payload s else cp"
        "pre @ sec_payload s"] Cons.prems no_more
    by (auto simp: header_of_def [of s] wire_simps size Let_def is_codec_payload_def [of s]
          split: if_splits)
qed

text \<open>The sections an access unit is written with.\<close>

definition wire_sections :: "access_unit \<Rightarrow> access_unit_section list" where
  "wire_sections au =
     (if au_sections au = [] then
        [\<lparr>sec_type = codec_payload_section_type, sec_version = 1,
          sec_flags = required_section_flag, sec_payload = au_payload au\<rparr>]
      else au_sections au)"

lemma normalized_sections_iff:
  "normalized_sections au = Inr ss \<longleftrightarrow>
     ss = wire_sections au \<and> (\<forall>t\<in>set ss. sec_payload t \<noteq> [])
     \<and> (\<exists>s. filter is_codec_payload ss = [s] \<and> sec_payload s = au_payload au)"
  (is "_ \<longleftrightarrow> ?R")
proof -
  have "normalized_sections au = Inr ss \<longleftrightarrow> ss = wire_sections au \<and>
      (\<exists>j. find_codec_payload ss 0 None = Inr (Some j) \<and> sec_payload (ss ! j) = au_payload au)"
    unfolding normalized_sections_def Let_def wire_sections_def [symmetric]
    by (auto simp: result_simps split: option.splits if_splits)
  also have "\<dots> \<longleftrightarrow> ?R"
    using find_codec_payload_iff [of ss 0, unfolded diff_zero] by metis
  finally show ?thesis .
qed

definition v2_bytes ::
  "u32 \<Rightarrow> u64 \<Rightarrow> access_unit \<Rightarrow> access_unit_section list \<Rightarrow> byte list" where
  "v2_bytes flags total_size au ss = au_magic @ le16 sectioned_format_version @ le16 64 @ le32 flags @
     [frame_type_u8 (au_frame_type au)] @ [au_pixel_format au] @ [au_bit_depth au] @ [0] @
     le32 (au_width au) @ le32 (au_height au) @ le32 (au_qp au) @
     le64 (au_decode_order_index au) @ le64 (au_presentation_order_index au) @
     le16 (word_of_nat (length (au_dependencies au))) @ le16 (word_of_nat (length ss)) @
     le16 (word_of_nat (length (au_codec_id au))) @
     le16 (word_of_nat (length (au_codec_profile_id au))) @
     le16 (word_of_nat (length (au_model_id au))) @ le16 0 @
     le64 total_size @
     as_bytes (au_codec_id au) @ as_bytes (au_codec_profile_id au) @ as_bytes (au_model_id au) @
     concat (map le64 (au_dependencies au)) @
     concat (map (table_entry \<circ> header_of) ss) @ concat (map sec_payload ss)"

definition v2_layout :: "access_unit \<Rightarrow> access_unit_section list \<Rightarrow> byte list" where
  "v2_layout au ss =
     v2_bytes (v2_flags au) (v2_total_size au ss (word_of_nat (payload_bytes ss))) au ss"

lemma length_v2_layout:
  "length (v2_layout au ss) = 64 + length (au_codec_id au) + length (au_codec_profile_id au) +
     length (au_model_id au) + 8 * length (au_dependencies au) + 16 * length ss + payload_bytes ss"
  using length_concat_entries [of "map header_of ss"]
  by (simp add: v2_layout_def v2_bytes_def f64.length_concat_enc length_concat_payloads)

lemma v2_total_size_layout:
  "v2_total_size au ss (word_of_nat (payload_bytes ss)) = word_of_nat (length (v2_layout au ss))"
  by (simp add: v2_total_size_def length_v2_layout au_constants mult.commute)

lemma au_serialize_sectioned_iff:
  "au_serialize_sectioned alloc au m = Inr bs \<longleftrightarrow>
     validate_v2_fields au = Inr (wire_sections au)
     \<and> payload_bytes (wire_sections au) < 2 ^ 64
     \<and> length bs mod 2 ^ 64 \<le> m \<and> alloc (length bs mod 2 ^ 64)
     \<and> bs = v2_layout au (wire_sections au)"
  (is "?L \<longleftrightarrow> ?R")
proof -
  have sections: "ss = wire_sections au" if "validate_v2_fields au = Inr ss" for ss
    using that by (auto simp: validate_v2_fields_def result_simps normalized_sections_iff)
  let ?ss = "wire_sections au"
  have "au_serialize_sectioned alloc au m = Inr bs \<longleftrightarrow>
     validate_v2_fields au = Inr ?ss \<and> payload_bytes ?ss < 2 ^ 64
     \<and> unat (v2_total_size au ?ss (word_of_nat (payload_bytes ?ss))) \<le> m
     \<and> alloc (unat (v2_total_size au ?ss (word_of_nat (payload_bytes ?ss))))
     \<and> bs = v2_layout au ?ss"
  proof (cases "validate_v2_fields au")
    case (Inl e)
    then show ?thesis by (simp add: au_serialize_sectioned_def)
  next
    case (Inr ss)
    then have valid: "validate_v2_fields au = Inr ?ss" using sections by simp
    have "\<not> unat (v2_total_size au ?ss t) > size_max" for t
      using unsigned_less [of "v2_total_size au ?ss t", where ?'a = nat] by simp
    then show ?thesis
      by (auto simp: au_serialize_sectioned_def valid result_simps section_payload_total_iff
            Let_def write_simps f64.fold_write fold_section_headers fold_section_payloads
            v2_layout_def v2_bytes_def fixed_header_bytes_v2_def not_less)
  qed
  then show ?thesis
    unfolding v2_total_size_layout by (auto simp: unat_of_nat take_bit_eq_mod)
qed

subsection \<open>Version 2: round trips\<close>

lemma frame_type_bound: "\<not> frame_type_u8 t > frame_type_u8 predicted"
  using frame_type_u8_le [of t] by (simp add: frame_type_u8_def [of predicted] not_less)

lemma format_versions_differ [simp]: "sectioned_format_version \<noteq> au_format_version"
  by (simp add: au_constants)

definition v2_core :: "access_unit \<Rightarrow> access_unit" where
  "v2_core au = (v1_core au)
     \<lparr>au_codec_id := au_codec_id au, au_codec_profile_id := au_codec_profile_id au,
      au_pixel_format := au_pixel_format au, au_bit_depth := au_bit_depth au,
      au_random_access := au_random_access au, au_discontinuity := au_discontinuity au,
      au_decode_order_index := au_decode_order_index au,
      au_presentation_order_index := au_presentation_order_index au,
      au_dependencies := au_dependencies au, au_sections := wire_sections au\<rparr>"

lemma v2_flags_bits [simp]:
  "v2_flags au AND NOT supported_v2_flags = 0"
  "v2_flags au AND v2_reset_state_flag \<noteq> 0 \<longleftrightarrow> au_reset_state au"
  "v2_flags au AND v2_random_access_flag \<noteq> 0 \<longleftrightarrow> au_random_access au"
  "v2_flags au AND v2_discontinuity_flag \<noteq> 0 \<longleftrightarrow> au_discontinuity au"
  by (simp_all add: v2_flags_def au_constants Let_def)

lemma v2_core_sel [simp]:
  "au_codec_id (v2_core au) = au_codec_id au"
  "au_codec_profile_id (v2_core au) = au_codec_profile_id au"
  "au_pixel_format (v2_core au) = au_pixel_format au"
  "au_bit_depth (v2_core au) = au_bit_depth au"
  "au_dependencies (v2_core au) = au_dependencies au"
  "au_sections (v2_core au) = wire_sections au"
  "au_payload (v2_core au) = au_payload au"
  by (simp_all add: v2_core_def v1_core_def make_access_unit_def)

lemma wire_sections_idem [simp]: "wire_sections (v2_core au) = wire_sections au"
  by (simp add: wire_sections_def v2_core_def v1_core_def)

lemma validate_common_v2_core [simp]:
  "validate_common_fields (v2_core au) = validate_common_fields au"
  by (simp add: validate_common_fields_def v2_core_def v1_core_def make_access_unit_def)

lemma validate_v2_iff:
  "validate_v2_fields au = Inr ss \<longleftrightarrow>
     validate_common_fields au = Inr ()
     \<and> valid_identifier (au_codec_id au) 128 \<and> valid_identifier (au_codec_profile_id au) 128
     \<and> au_pixel_format au = yuv420p8_code \<and> au_bit_depth au = 8
     \<and> length (au_dependencies au) \<le> 32 \<and> length (au_sections au) \<le> 64
     \<and> normalized_sections au = Inr ss"
  by (auto simp: validate_v2_fields_def result_simps au_constants not_less)

lemma valid_identifier_length:
  "valid_identifier s n \<Longrightarrow> s \<noteq> [] \<and> length s \<le> n"
  by (auto simp: valid_identifier_def split: if_splits)

lemma wire_sections_length:
  "length (au_sections au) \<le> 64 \<Longrightarrow> 0 < length (wire_sections au) \<and> length (wire_sections au) \<le> 64"
  by (simp add: wire_sections_def)

lemma validate_v2_core:
  "validate_v2_fields au = Inr ss \<Longrightarrow> validate_v2_fields (v2_core au) = Inr ss"
  using wire_sections_length [of au]
  by (auto simp: validate_v2_iff normalized_sections_iff)

lemma small_u16_nonzero: "0 < n \<Longrightarrow> n \<le> 128 \<Longrightarrow> word_of_nat n \<noteq> (0 :: u16)"
  by (rule word_of_nat_nonzero) (simp_all add: unat_small_u16)

lemma header_sizes:
  assumes "payload_bytes ss < 2 ^ 64"
  shows "sum_list (map (unat \<circ> sh_size \<circ> header_of) ss) = payload_bytes ss"
  using assms
  by (induction ss) (simp_all add: header_of_def unat_small_u64)

lemma header_size_sum:
  "sum_list (map (sh_size \<circ> header_of) ss) = (word_of_nat (payload_bytes ss) :: u64)"
  by (induction ss) (simp_all add: header_of_def)

lemma read_section_table:
  assumes "\<And>s. s \<in> set ss \<Longrightarrow> sec_payload s \<noteq> [] \<and> decodable_section s"
    and small: "payload_bytes ss < 2 ^ 64"
  shows "read_section_headers (length ss) 0
       (reader_at pre (concat (map (table_entry \<circ> header_of) ss) @ post)) =
     Inr (map header_of ss, word_of_nat (payload_bytes ss),
       reader_at (pre @ concat (map (table_entry \<circ> header_of) ss)) post)"
proof -
  have "sh_size (header_of s) \<noteq> 0" if "s \<in> set ss" for s
  proof -
    have "length (sec_payload s) \<le> payload_bytes ss"
      using that by (auto simp: payload_bytes_def intro: member_le_sum_list)
    then have "unat (word_of_nat (length (sec_payload s)) :: u64) = length (sec_payload s)"
      using small by (intro unat_small_u64) simp
    then show ?thesis
      using assms(1) [OF that] by (auto simp: header_of_def)
  qed
  then show ?thesis
    using read_section_headers_table [of "map header_of ss" 0 pre post] assms header_sizes [OF small]
    by (fastforce simp: header_size_sum comp_assoc decodable_section_def header_of_def)
qed

lemma read_section_table_unknown:
  assumes "\<And>s. s \<in> set ss \<Longrightarrow> sec_payload s \<noteq> []"
    and "\<exists>s\<in>set ss. \<not> decodable_section s"
    and "unat acc + payload_bytes ss < 2 ^ 64"
  shows "read_section_headers (length ss) acc
       (reader_at pre (concat (map (table_entry \<circ> header_of) ss) @ post)) =
     Inl (malformed ''unknown required NVAU v2 section'')"
  using assms
proof (induction ss arbitrary: acc pre)
  case Nil
  then show ?case by simp
next
  case (Cons s ss)
  let ?n = "length (sec_payload s)"
  have size: "unat (word_of_nat ?n :: u64) = ?n" and fits: "unat acc + ?n < 2 ^ 64"
    using Cons.prems(3) by (simp_all add: unat_small_u64)
  have nonzero: "word_of_nat ?n \<noteq> (0 :: u64)"
    using Cons.prems(1) [of s] size by (intro word_of_nat_nonzero) auto
  have acc: "acc \<le> - 1 - word_of_nat ?n"
    using fits size by (simp add: word_le_nat_alt unat_complement)
  have sum: "unat (acc + word_of_nat ?n) = unat acc + ?n"
    using fits size by (simp add: unat_word_ariths)
  have entry: "table_entry (header_of s) =
      le16 (sec_type s) @ le16 (sec_version s) @ le32 (sec_flags s) @ le64 (word_of_nat ?n)"
    by (simp add: table_entry_def header_of_def)
  show ?case
  proof (cases "decodable_section s")
    case True
    have tl: "read_section_headers (length ss) (acc + word_of_nat ?n)
        (reader_at (pre @ table_entry (header_of s))
          (concat (map (table_entry \<circ> header_of) ss) @ post)) =
      Inl (malformed ''unknown required NVAU v2 section'')"
      using Cons.prems True sum by (intro Cons.IH) auto
    with True show ?thesis
      using acc fits size
      by (auto simp: entry wire_simps nonzero decodable_section_def not_less o_def)
  next
    case False
    then show ?thesis
      using fits size by (simp add: entry wire_simps nonzero decodable_section_def)
  qed
qed

lemma v2_layout_read:
  assumes valid: "validate_v2_fields au = Inr (wire_sections au)"
    and alloc: "\<And>n. alloc n"
    and limit: "length (v2_layout au (wire_sections au)) \<le> m"
    and small: "length (v2_layout au (wire_sections au)) < 2 ^ 64"
  shows "au_deserialize alloc (v2_layout au (wire_sections au)) m =
     (if list_all decodable_section (wire_sections au) then Inr (v2_core au)
      else Inl (malformed ''unknown required NVAU v2 section''))"
proof -
  let ?ss = "wire_sections au" and ?bs = "v2_layout au (wire_sections au)"
  have fits: "payload_bytes ?ss < 2 ^ 64"
    using small by (simp add: length_v2_layout)
  note v = valid [unfolded validate_v2_iff normalized_sections_iff]
  then have common: "validate_common_fields au = Inr ()" by blast
  note ids = validate_common_ok [OF common]
  from v obtain s where codec: "filter is_codec_payload ?ss = [s]" "sec_payload s = au_payload au"
    by blast
  have bounds: "0 < length (au_codec_id au)" "length (au_codec_id au) \<le> 128"
    "0 < length (au_codec_profile_id au)" "length (au_codec_profile_id au) \<le> 128"
    "0 < length (au_model_id au)" "length (au_model_id au) \<le> 128"
    "length (au_dependencies au) \<le> 32" "0 < length ?ss" "length ?ss \<le> 64"
    using v ids wire_sections_length [of au]
    by (auto dest!: valid_identifier_length)
  note lens = bounds(2,4,6) [THEN unat_small_u16]
    unat_small_u16 [OF le_trans [OF bounds(7)]] unat_small_u16 [OF le_trans [OF bounds(9)]]
  note nonzero = small_u16_nonzero [OF bounds(1,2)] small_u16_nonzero [OF bounds(3,4)]
    small_u16_nonzero [OF bounds(5,6)] small_u16_nonzero [OF bounds(8) le_trans [OF bounds(9)]]
  have pix: "au_pixel_format au = yuv420p8_code" "au_bit_depth au = 8" using v by blast+
  note core = v2_core_def [of au, unfolded v1_core_def pix]
  note core_valid = validate_v2_core [OF valid, unfolded core]
  have size: "unat (v2_total_size au ?ss (word_of_nat (payload_bytes ?ss))) = length ?bs"
    using small by (simp add: v2_total_size_layout unat_small_u64)
  have agg: "unat (word_of_nat (payload_bytes ?ss) :: u64) = payload_bytes ?ss"
    using fits by (rule unat_small_u64)
  have table: "read_section_headers (length ?ss) 0
       (reader_at pre (concat (map (table_entry \<circ> header_of) ?ss) @ post)) =
     (if list_all decodable_section ?ss then
        Inr (map header_of ?ss, word_of_nat (payload_bytes ?ss),
          reader_at (pre @ concat (map (table_entry \<circ> header_of) ?ss)) post)
      else Inl (malformed ''unknown required NVAU v2 section''))" for pre post
    using v fits read_section_table [of ?ss] read_section_table_unknown [of ?ss 0]
    by (auto simp: list_all_iff)
  have payloads: "read_sections (map header_of ?ss) False [] (reader_at pre (concat (map sec_payload ?ss))) =
     Inr (?ss, True, au_payload au, reader_at (pre @ concat (map sec_payload ?ss)) [])" for pre
    using read_sections_payloads [of ?ss False "[]" pre "[]"] codec fits by simp
  have "deserialize_v2 alloc (reader_at (au_magic @ le16 sectioned_format_version)
      (drop 6 ?bs)) ?bs m =
     (if list_all decodable_section ?ss then Inr (v2_core au)
      else Inl (malformed ''unknown required NVAU v2 section''))"
    using bounds limit size
    unfolding deserialize_v2_def
    by (simp add: v2_layout_def v2_bytes_def wire_simps lens nonzero alloc pix
          f64.read_many_enc table payloads agg length_concat_payloads
          fixed_header_bytes_v2_def maximum_dependencies_def maximum_sections_def
          maximum_codec_id_bytes_def maximum_codec_profile_id_bytes_def maximum_model_id_bytes_def
          frame_type_bound not_less Let_def core core_valid)
  then show ?thesis
    using limit
    by (simp add: au_deserialize_def v2_layout_def v2_bytes_def wire_simps)
qed

text \<open>
  Property C9. Sectioned access units survive the wire: if the bytes \<open>serialize_sectioned\<close>
  wrote fit a 64-bit address space, \<open>deserialize\<close> returns the access unit it was given,
  with the implicit codec payload section made explicit, and refuses the access unit exactly
  when one of its sections is marked required and has an unknown type.
\<close>

theorem au_v2_roundtrip:
  assumes "au_serialize_sectioned alloc au m = Inr bs"
    and "\<And>n. alloc n"
    and "length bs < 2 ^ 64"
  shows "au_deserialize alloc bs m =
     (if list_all decodable_section (wire_sections au) then Inr (v2_core au)
      else Inl (malformed ''unknown required NVAU v2 section''))"
  using assms v2_layout_read [of au alloc m] by (auto simp: au_serialize_sectioned_iff)

subsection \<open>The decoder accepts canonical bytes only\<close>

lemma and_one_bit: "w AND 2 ^ n = (if w AND 2 ^ n = 0 then 0 else (2 :: 'a::len word) ^ n)"
  by (auto intro!: bit_word_eqI simp: bit_simps and_exp_eq_0_iff_not_bit)

lemma masked_bits: "w AND NOT m = 0 \<Longrightarrow> w AND m = (w :: 'a::len word)"
  by (metis bit.conj_disj_distrib bit.disj_cancel_right or.right_neutral and.right_neutral)

lemma v1_flags_canonical:
  assumes "flags AND NOT supported_v1_flags = 0"
  shows "flags = 0 \<or> flags = reset_state_flag"
  using masked_bits [OF assms] and_one_bit [of flags 0]
  by (auto simp: au_constants split: if_splits)

lemma v2_flags_canonical:
  assumes "flags AND NOT supported_v2_flags = 0"
    and "au_reset_state au \<longleftrightarrow> flags AND v2_reset_state_flag \<noteq> 0"
    and "au_random_access au \<longleftrightarrow> flags AND v2_random_access_flag \<noteq> 0"
    and "au_discontinuity au \<longleftrightarrow> flags AND v2_discontinuity_flag \<noteq> 0"
  shows "v2_flags au = flags"
proof -
  have "flags = (flags AND 1) OR (flags AND 2) OR (flags AND 4)"
    using masked_bits [OF assms(1)] by (simp add: supported_v2_flags_def v2_reset_state_flag_def
      v2_random_access_flag_def v2_discontinuity_flag_def flip: bit.conj_disj_distrib)
  then show ?thesis
    using and_one_bit [of flags 0] and_one_bit [of flags 1] and_one_bit [of flags 2] assms(2-4)
    by (auto simp: v2_flags_def v2_reset_state_flag_def
      v2_random_access_flag_def v2_discontinuity_flag_def Let_def split: if_splits)
qed

lemma deserialize_v1_inv:
  assumes "deserialize_v1 alloc (reader_at (au_magic @ le16 au_format_version) post) bs m = Inr au"
  shows "v1_layout au = au_magic @ le16 au_format_version @ post
     \<and> validate_v1_fields au = Inr () \<and> length bs \<le> m \<and> length (au_payload au) < 2 ^ 64
     \<and> v1_core au = au"
  using assms
  by (auto simp: deserialize_v1_def result_simps Let_def v1_layout_def make_access_unit_def
        v1_core_def frame_type_u8_of frame_type_u8_def [of predicted] not_less
        wire_simps dest!: read_invs v1_flags_canonical)

lemma read_sections_inv:
  "read_sections hs saw cp (reader_at pre post) = Inr (ss, saw', cp', r') \<Longrightarrow>
     \<exists>post'. post = concat (map sec_payload ss) @ post' \<and> map header_of ss = hs
       \<and> r' = reader_at (pre @ concat (map sec_payload ss)) post'"
proof (induction hs arbitrary: saw cp pre post ss)
  case Nil
  then show ?case by simp
next
  case (Cons h hs)
  then obtain payload r1 ss1 where
      payload: "read_bytes (unat (sh_size h)) (reader_at pre post) = Inr (payload, r1)"
    and tl: "read_sections hs (saw \<or> sh_type h = codec_payload_section_type)
        (if sh_type h = codec_payload_section_type then payload else cp) r1 = Inr (ss1, saw', cp', r')"
    and ss: "ss = \<lparr>sec_type = sh_type h, sec_version = sh_version h, sec_flags = sh_flags h,
        sec_payload = payload\<rparr> # ss1"
    by (auto simp: result_simps Let_def)
  from read_bytes_inv [OF payload] obtain post1 where post1: "post = payload @ post1"
      "length payload = unat (sh_size h)" and r1: "r1 = reader_at (pre @ payload) post1"
    by blast
  from Cons.IH [OF tl [unfolded r1]] show ?case
    using post1 ss by (auto simp: header_of_def)
qed

lemma deserialize_v2_fields:
  assumes "deserialize_v2 alloc (reader_at (au_magic @ le16 sectioned_format_version) post) bs m = Inr au"
    and "bs = au_magic @ le16 sectioned_format_version @ post"
  shows "\<exists>total_size. bs = v2_bytes (v2_flags au) total_size au (au_sections au)
     \<and> unat total_size = length bs \<and> length bs \<le> m
     \<and> au_sections au \<noteq> [] \<and> (\<exists>ss. validate_v2_fields au = Inr ss) \<and> v2_core au = au"
proof -
  have header: "a = 64" if "unat (a :: u16) = fixed_header_bytes_v2" for a
    using that by (simp add: fixed_header_bytes_v2_def word_unat_eq_iff)
  have zero: "unat w = 0 \<longleftrightarrow> w = 0" for w :: u16
    by (simp add: word_unat_eq_iff)
  have le64_eq: "le64 v = le64 w \<longleftrightarrow> v = w" for v w
    using f64.enc_inject by blast
  show ?thesis
    using assms
    by (auto simp: deserialize_v2_def result_simps Let_def make_access_unit_def le64_eq zero
          frame_type_u8_def [of predicted] not_less v2_bytes_def frame_type_u8_of v2_flags_canonical
          v2_core_def v1_core_def wire_sections_def
          wire_simps dest!: header read_invs f64.read_many_inv read_section_headers_inv
            read_sections_inv)
qed

lemma deserialize_v2_canonical:
  assumes d: "deserialize_v2 alloc (reader_at (au_magic @ le16 sectioned_format_version) post) bs m
      = Inr au"
    and bs: "bs = au_magic @ le16 sectioned_format_version @ post"
  shows "au_serialize_sectioned (\<lambda>_. True) au m = Inr bs \<and> v2_core au = au"
proof -
  from deserialize_v2_fields [OF d bs] obtain total_size ss where
      layout: "bs = v2_bytes (v2_flags au) total_size au (au_sections au)"
    and size: "unat total_size = length bs" "length bs \<le> m"
    and sections: "au_sections au \<noteq> []" and valid: "validate_v2_fields au = Inr ss"
    and core: "v2_core au = au"
    by blast
  have wire: "wire_sections au = au_sections au"
    using sections by (simp add: wire_sections_def)
  have ss: "ss = au_sections au"
    using valid by (simp add: validate_v2_iff normalized_sections_iff wire)
  have small: "length bs < 2 ^ 64"
    using size unsigned_less [of total_size, where ?'a = nat] by simp
  have len: "length (v2_layout au (au_sections au)) = length bs"
    unfolding layout by (simp add: v2_layout_def v2_bytes_def)
  have "total_size = word_of_nat (length bs)"
    using size(1) by (simp add: word_unat_eq_iff unat_small_u64 [OF small])
  then have total: "v2_total_size au (au_sections au) (word_of_nat (payload_bytes (au_sections au)))
      = total_size"
    by (simp only: v2_total_size_layout len)
  have bs_layout: "bs = v2_layout au (au_sections au)"
    unfolding v2_layout_def total by (rule layout)
  have "payload_bytes (au_sections au) < 2 ^ 64"
    using small len by (simp add: length_v2_layout)
  then show ?thesis
    using valid bs_layout small size(2) core
    by (simp add: au_serialize_sectioned_iff wire ss)
qed

text \<open>
  Property C10. \<open>AccessUnitIO::deserialize\<close> accepts canonical bytes only: whatever it accepts
  is exactly what one of the two encoders writes for the access unit it returns, with the
  same limit, so that two different byte strings never decode to the same access unit of
  one version.
\<close>

theorem au_deserialize_canonical:
  assumes "au_deserialize alloc bs m = Inr au"
  shows "au_serialize (\<lambda>_. True) au m = Inr bs \<and> v1_core au = au
     \<or> au_serialize_sectioned (\<lambda>_. True) au m = Inr bs \<and> v2_core au = au"
proof -
  from assms obtain rest where bs: "bs = au_magic @ rest"
    by (auto simp: au_deserialize_def result_simps has_magic_iff)
  with assms obtain version post where rest: "rest = le16 version @ post"
    and cases: "version = au_format_version \<and>
        deserialize_v1 alloc (reader_at (au_magic @ le16 au_format_version) post) bs m = Inr au
      \<or> version = sectioned_format_version \<and>
        deserialize_v2 alloc (reader_at (au_magic @ le16 sectioned_format_version) post) bs m = Inr au"
    by (auto simp: au_deserialize_def result_simps wire_simps dest!: read_invs split: if_splits)
  from cases show ?thesis
  proof (elim disjE conjE)
    assume v: "version = au_format_version"
      and d: "deserialize_v1 alloc (reader_at (au_magic @ le16 au_format_version) post) bs m = Inr au"
    from deserialize_v1_inv [OF d] show ?thesis
      by (simp add: au_serialize_iff bs rest v)
  next
    assume "version = sectioned_format_version"
      and "deserialize_v2 alloc (reader_at (au_magic @ le16 sectioned_format_version) post) bs m
        = Inr au"
    then show ?thesis
      using deserialize_v2_canonical bs rest by blast
  qed
qed

lemma sample_sections: "wire_sections sample_access_unit =
    [\<lparr>sec_type = 2, sec_version = 1, sec_flags = 0, sec_payload = [1]\<rparr>,
     \<lparr>sec_type = 1, sec_version = 1, sec_flags = 1, sec_payload = [7, 9]\<rparr>]"
  by (simp add: wire_sections_def sample_access_unit_def)

lemma sample_valid_v2:
  "validate_v2_fields sample_access_unit = Inr (wire_sections sample_access_unit)"
  using sample_valid
  by (simp add: validate_v2_iff normalized_sections_iff validate_v1_fields_def sample_sections
        is_codec_payload_def codec_payload_section_type_def)
     (simp add: sample_au_simps)

lemma sample_v2_length:
  "length (v2_layout sample_access_unit (wire_sections sample_access_unit)) = 126"
  by (simp add: length_v2_layout sample_sections)
     (simp add: sample_access_unit_def make_access_unit_def)

theorem au_v2_roundtrip_witness:
  "\<exists>bs. au_serialize_sectioned (\<lambda>_. True) sample_access_unit 200 = Inr bs
     \<and> au_deserialize (\<lambda>_. True) bs 200 = Inr (v2_core sample_access_unit)"
proof -
  let ?bs = "v2_layout sample_access_unit (wire_sections sample_access_unit)"
  have ser: "au_serialize_sectioned (\<lambda>_. True) sample_access_unit 200 = Inr ?bs"
    by (simp add: au_serialize_sectioned_iff sample_valid_v2 sample_v2_length)
       (simp add: sample_sections)
  have "list_all decodable_section (wire_sections sample_access_unit)"
    by (simp add: sample_sections decodable_section_def known_section_type_def)
  with ser au_v2_roundtrip [OF ser] show ?thesis by (simp add: sample_v2_length)
qed

theorem au_deserialize_canonical_witness:
  "\<exists>bs. au_deserialize (\<lambda>_. True) bs 64 = Inr (v1_core sample_access_unit)
     \<and> (au_serialize (\<lambda>_. True) (v1_core sample_access_unit) 64 = Inr bs
       \<or> au_serialize_sectioned (\<lambda>_. True) (v1_core sample_access_unit) 64 = Inr bs)"
proof -
  have "length (v1_layout sample_access_unit) \<le> 64" "length (au_payload sample_access_unit) < 2 ^ 64"
    by (simp_all add: v1_layout_def sample_access_unit_def make_access_unit_def)
  with v1_layout_read [OF sample_valid, of 64 "\<lambda>_. True"]
  have "au_deserialize (\<lambda>_. True) (v1_layout sample_access_unit) 64 =
      Inr (v1_core sample_access_unit)" by simp
  then show ?thesis using au_deserialize_canonical by blast
qed

end
