(* ===== verification/PacketFormat.thy ===== *)
theory PacketFormat
  imports Frames
begin

text \<open>
  \<^verbatim>\<open>src/bitstream/packet_io.cpp\<close>: the \<open>NVCR\<close> packet container. \<open>packet_serialize\<close>
  and \<open>packet_deserialize\<close> are \<open>PacketIO::serialize\<close> and \<open>PacketIO::deserialize\<close>; the
  allocator is the parameter \<open>alloc\<close>, as in \<open>ByteIO\<close>.
\<close>

definition packet_magic :: "byte list" where
  "packet_magic = [0x4e, 0x56, 0x43, 0x52]"

definition packet_format_version :: u16 where
  "packet_format_version = 1"

definition maximum_metadata_entries :: nat where
  "maximum_metadata_entries = 1024"

definition maximum_metadata_bytes :: nat where
  "maximum_metadata_bytes = 1024 * 1024"

definition bitstream_error :: "error_code \<Rightarrow> string \<Rightarrow> error" where
  "bitstream_error c msg = Error c msg ''bitstream''"

subsection \<open>serialize\<close>

fun metadata_size :: "packet_metadata \<Rightarrow> nat \<Rightarrow> nat result" where
  "metadata_size [] metadata_bytes = Inr metadata_bytes"
| "metadata_size ((key, value) # rest) metadata_bytes =
     (if length key > 65535 \<or> length value > 65535 then
        Inl (bitstream_error invalid_argument ''metadata entry is too large'')
      else if length key > maximum_metadata_bytes - 4
          \<or> length value > maximum_metadata_bytes - 4 - length key
          \<or> metadata_bytes > maximum_metadata_bytes - 4 - length key - length value then
        Inl (bitstream_error invalid_argument ''aggregate metadata exceeds configured format limit'')
      else metadata_size rest (metadata_bytes + (4 + length key + length value)))"

definition write_metadata :: "packet_metadata \<Rightarrow> byte_writer \<Rightarrow> byte_writer" where
  "write_metadata md w = fold (\<lambda>(key, value) w.
     write_string value (write_string key
       (write_u16 (word_of_nat (length value)) (write_u16 (word_of_nat (length key)) w)))) md w"

definition packet_serialize :: "(nat \<Rightarrow> bool) \<Rightarrow> packet \<Rightarrow> byte list result" where
  "packet_serialize alloc p =
     (if length (pk_metadata p) > maximum_metadata_entries then
        Inl (bitstream_error invalid_argument ''too many metadata entries'')
      else
        res_bind (metadata_size (pk_metadata p) 0) (\<lambda>metadata_bytes.
        if length (pk_bytes p) > size_max - metadata_bytes - 32 then
          Inl (bitstream_error resource_exhausted ''packet size overflow'')
        else if \<not> alloc (length (pk_bytes p) + metadata_bytes + 32) then
          Inl (bitstream_error resource_exhausted ''packet allocation failed'')
        else
          let w = write_bytes packet_magic [];
              w = write_u16 packet_format_version w;
              w = write_u8 (frame_type_u8 (pk_frame_type p)) w;
              w = write_u8 0 w;
              w = write_u64 (pk_timestamp p) w;
              w = write_u16 (word_of_nat (length (pk_metadata p))) w;
              w = write_metadata (pk_metadata p) w;
              w = write_u64 (word_of_nat (length (pk_bytes p))) w;
              w = write_bytes (pk_bytes p) w
          in Inr w))"

subsection \<open>deserialize\<close>

fun read_metadata :: "(nat \<Rightarrow> bool) \<Rightarrow> nat \<Rightarrow> packet_metadata \<Rightarrow> nat \<Rightarrow> byte_reader
    \<Rightarrow> (packet_metadata \<times> byte_reader) result" where
  "read_metadata alloc 0 metadata metadata_bytes r = Inr (metadata, r)"
| "read_metadata alloc (Suc count) metadata metadata_bytes r =
     res_bind (read_u16 r) (\<lambda>(key_size, r).
     res_bind (read_u16 r) (\<lambda>(value_size, r).
     let entry_bytes = 4 + unat key_size + unat value_size in
     if entry_bytes > maximum_metadata_bytes
        \<or> metadata_bytes > maximum_metadata_bytes - entry_bytes then
       Inl (bitstream_error resource_exhausted ''aggregate metadata exceeds configured format limit'')
     else
       res_bind (read_string alloc (unat key_size) r) (\<lambda>(key, r).
       res_bind (read_string alloc (unat value_size) r) (\<lambda>(value, r).
       let emplaced = omap_emplace key value metadata in
       if \<not> snd emplaced then
         Inl (bitstream_error malformed_bitstream ''duplicate metadata key'')
       else read_metadata alloc count (fst emplaced) (metadata_bytes + entry_bytes) r))))"

definition packet_deserialize :: "(nat \<Rightarrow> bool) \<Rightarrow> byte list \<Rightarrow> nat \<Rightarrow> packet result" where
  "packet_deserialize alloc bytes maximum_packet_bytes =
     (if length bytes > maximum_packet_bytes then
        Inl (bitstream_error resource_exhausted ''packet exceeds configured limit'')
      else
        res_bind (read_bytes (length packet_magic) (make_reader bytes)) (\<lambda>(wire_magic, r).
        if wire_magic \<noteq> packet_magic then
          Inl (bitstream_error malformed_bitstream ''invalid packet magic'')
        else
        res_bind (read_u16 r) (\<lambda>(version, r).
        if version \<noteq> packet_format_version then
          Inl (bitstream_error malformed_bitstream ''unsupported packet version'')
        else
        res_bind (read_u8 r) (\<lambda>(type, r).
        if type > frame_type_u8 predicted then
          Inl (bitstream_error malformed_bitstream ''invalid frame type'')
        else
        res_bind (read_u8 r) (\<lambda>(flags, r).
        if flags \<noteq> 0 then
          Inl (bitstream_error malformed_bitstream ''unsupported packet flags'')
        else
        res_bind (read_u64 r) (\<lambda>(ts, r).
        res_bind (read_u16 r) (\<lambda>(metadata_count, r).
        if unat metadata_count > maximum_metadata_entries then
          Inl (bitstream_error resource_exhausted ''too many metadata entries'')
        else
        res_bind (read_metadata alloc (unat metadata_count) [] 0 r) (\<lambda>(metadata, r).
        res_bind (read_u64 r) (\<lambda>(payload_size, r).
        if unat payload_size > maximum_packet_bytes \<or> unat payload_size > size_max then
          Inl (bitstream_error resource_exhausted ''packet exceeds configured limit'')
        else
        res_bind (read_bytes (unat payload_size) r) (\<lambda>(payload, r).
        if remaining r \<noteq> 0 then
          Inl (bitstream_error malformed_bitstream ''trailing packet data'')
        else if \<not> alloc (length payload) then
          Inl (bitstream_error resource_exhausted ''packet allocation failed'')
        else
          Inr (make_packet payload ts (frame_type_of_u8 type) metadata)))))))))))"

subsection \<open>The layout of a serialized packet\<close>

definition metadata_entry_bytes :: "string \<times> string \<Rightarrow> byte list" where
  "metadata_entry_bytes kv = le16 (word_of_nat (length (fst kv))) @
     le16 (word_of_nat (length (snd kv))) @ as_bytes (fst kv) @ as_bytes (snd kv)"

lemma write_metadata_layout:
  "write_metadata md w = w @ concat (map metadata_entry_bytes md)"
  by (induction md arbitrary: w)
     (auto simp: write_metadata_def write_simps metadata_entry_bytes_def)

lemma packet_serialize_layout:
  assumes "packet_serialize alloc p = Inr bs"
  shows "bs = packet_magic @ le16 packet_format_version @ [frame_type_u8 (pk_frame_type p)] @ [0] @
     le64 (pk_timestamp p) @ le16 (word_of_nat (length (pk_metadata p))) @
     concat (map metadata_entry_bytes (pk_metadata p)) @
     le64 (word_of_nat (length (pk_bytes p))) @ pk_bytes p"
  using assms
  by (auto simp: packet_serialize_def Let_def result_simps write_simps write_metadata_layout
        split: if_splits)

lemma unat_of_nat_u16: "n \<le> 65535 \<Longrightarrow> unat (word_of_nat n :: u16) = n"
  by (simp add: unat_of_nat take_bit_nat_eq_self)

lemma unat_of_nat_u64: "n < 2 ^ 64 \<Longrightarrow> unat (word_of_nat n :: u64) = n"
  by (simp add: unat_of_nat take_bit_nat_eq_self)

lemma read_metadata_entries:
  assumes "metadata_size kvs mb = Inr mb'"
    and "sorted_wrt (<) (map fst (md @ kvs))"
    and "\<And>n. alloc n"
  shows "read_metadata alloc (length kvs) md mb
           (reader_at pre (concat (map metadata_entry_bytes kvs) @ post)) =
         Inr (md @ kvs, reader_at (pre @ concat (map metadata_entry_bytes kvs)) post)"
  using assms(1,2)
proof (induction kvs arbitrary: md mb pre)
  case Nil
  then show ?case by simp
next
  case (Cons kv kvs)
  obtain k v where kv: "kv = (k, v)" by force
  from Cons.prems(1) have
      sizes: "length k \<le> 65535" "length v \<le> 65535"
    and fits: "4 + length k + length v \<le> maximum_metadata_bytes"
      "mb \<le> maximum_metadata_bytes - (4 + length k + length v)"
    and rest: "metadata_size kvs (mb + (4 + length k + length v)) = Inr mb'"
    by (auto simp: kv maximum_metadata_bytes_def split: if_splits)
  have last: "\<forall>k' \<in> set (map fst md). k' < k"
    using Cons.prems(2) by (auto simp: kv sorted_wrt_append)
  have "sorted_wrt (<) (map fst ((md @ [(k, v)]) @ kvs))"
    using Cons.prems(2) by (simp add: kv)
  from Cons.IH [OF rest this] show ?case
    using sizes fits assms(3)
    by (simp add: kv metadata_entry_bytes_def wire_simps unat_of_nat_u16 Let_def not_less
          omap_emplace_last [OF last])
qed

lemma packet_read_back:
  assumes "packet_serialize alloc p = Inr bs"
    and "omap_ok (pk_metadata p)"
    and "\<And>n. alloc n"
    and "length bs \<le> maximum_packet_bytes"
  shows "packet_deserialize alloc bs maximum_packet_bytes = Inr p"
proof -
  from assms(1) obtain mb where
      entries: "length (pk_metadata p) \<le> 1024"
    and mb: "metadata_size (pk_metadata p) 0 = Inr mb"
    and payload: "length (pk_bytes p) \<le> size_max"
    by (auto simp: packet_serialize_def result_simps Let_def maximum_metadata_entries_def
          split: if_splits)
  note layout = packet_serialize_layout [OF assms(1)]
  have sizes: "unat (word_of_nat (length (pk_metadata p)) :: u16) = length (pk_metadata p)"
    "unat (word_of_nat (length (pk_bytes p)) :: u64) = length (pk_bytes p)"
    using entries payload by (auto intro!: unat_of_nat_u16 unat_of_nat_u64)
  have fits: "length (pk_bytes p) \<le> maximum_packet_bytes"
    using assms(4) by (simp add: layout)
  have "sorted_wrt (<) (map fst ([] @ pk_metadata p))"
    using assms(2) by (simp add: omap_ok_def)
  note meta = read_metadata_entries [OF mb this assms(3)]
  show ?thesis
    using assms(4) fits entries payload frame_type_u8_le [of "pk_frame_type p"]
    by (simp add: packet_deserialize_def layout wire_simps sizes meta assms(3) make_packet_def
          maximum_metadata_entries_def frame_type_u8_def [of predicted] not_less)
qed

text \<open>
  Property C15. Every packet the writer accepts is read back unchanged, whatever limit the
  reader uses, as long as it admits the written bytes: frame type, timestamp, metadata in
  key order and payload.
\<close>

theorem packet_roundtrip:
  assumes "packet_serialize alloc p = Inr bs"
    and "omap_ok (pk_metadata p)"
    and "\<And>n. alloc n"
    and "length bs \<le> maximum_packet_bytes"
  shows "packet_deserialize alloc bs maximum_packet_bytes = Inr p"
  using assms by (rule packet_read_back)

definition sample_packet :: packet where
  "sample_packet = \<lparr>pk_bytes = [1, 2, 3], pk_timestamp = 5, pk_frame_type = predicted,
     pk_metadata = [(''a'', ''b'')]\<rparr>"

lemma sample_packet_serialized:
  "packet_serialize (\<lambda>_. True) sample_packet = Inr
     [0x4e, 0x56, 0x43, 0x52, 1, 0, 1, 0, 5, 0, 0, 0, 0, 0, 0, 0, 1, 0,
      1, 0, 1, 0, 0x61, 0x62, 3, 0, 0, 0, 0, 0, 0, 0, 1, 2, 3]"
  by (simp add: packet_serialize_def sample_packet_def write_simps write_metadata_layout
        metadata_entry_bytes_def maximum_metadata_entries_def maximum_metadata_bytes_def
        packet_magic_def packet_format_version_def frame_type_u8_def as_bytes_def
        byte_of_char_def char_code_def le_bytes_numeral)

theorem packet_roundtrip_witness:
  "packet_deserialize (\<lambda>_. True)
     [0x4e, 0x56, 0x43, 0x52, 1, 0, 1, 0, 5, 0, 0, 0, 0, 0, 0, 0, 1, 0,
      1, 0, 1, 0, 0x61, 0x62, 3, 0, 0, 0, 0, 0, 0, 0, 1, 2, 3] 64 = Inr sample_packet"
  by (rule packet_roundtrip [OF sample_packet_serialized])
     (simp_all add: sample_packet_def omap_ok_def)

lemma read_metadata_ok:
  "read_metadata alloc n md mb r = Inr (md', r') \<Longrightarrow> omap_ok md \<Longrightarrow>
     omap_ok md' \<and> length md' = length md + n"
proof (induction alloc n md mb r arbitrary: md' rule: read_metadata.induct)
  case (2 alloc n md mb r)
  have grow: "length (fst (omap_emplace k v m)) = Suc (length m)"
    if "snd (omap_emplace k v m)" for k v and m :: packet_metadata
  proof -
    have "length (omap_assign k v m) = Suc (length m)" if "map_of m k = None"
      using that by (induction m) (auto split: if_splits)
    then show ?thesis using that by (auto simp: omap_emplace_def split: option.splits)
  qed
  from "2.prems"(1) obtain ks r1 vs r2 key r3 val r4 where
      steps: "read_u16 r = Inr (ks, r1)" "read_u16 r1 = Inr (vs, r2)"
        "read_string alloc (unat ks) r2 = Inr (key, r3)"
        "read_string alloc (unat vs) r3 = Inr (val, r4)"
    and ins: "snd (omap_emplace key val md)"
    and rec: "read_metadata alloc n (fst (omap_emplace key val md))
        (mb + (4 + unat ks + unat vs)) r4 = Inr (md', r')"
    and fits: "\<not> (4 + unat ks + unat vs > maximum_metadata_bytes
        \<or> mb > maximum_metadata_bytes - (4 + unat ks + unat vs))"
    by (auto simp: result_simps Let_def split: if_splits prod.split_asm)
  have "omap_ok (fst (omap_emplace key val md))"
    using "2.prems"(2) by (rule om.ok_emplace)
  with "2.IH" [OF steps(1) refl steps(2) refl refl fits steps(3) refl steps(4) refl refl _ rec]
    ins grow [OF ins] show ?case by simp
qed simp

text \<open>
  A packet the reader accepts respects the format's limits: at most 1024
  metadata entries with pairwise distinct keys in map order, and no more payload than the
  caller's limit.
\<close>

lemma packet_deserialize_limits:
  assumes "packet_deserialize alloc bs maximum_packet_bytes = Inr p"
  shows "omap_ok (pk_metadata p) \<and> length (pk_metadata p) \<le> 1024
     \<and> length (pk_bytes p) \<le> maximum_packet_bytes \<and> length bs \<le> maximum_packet_bytes"
  using assms
  by (auto simp: packet_deserialize_def result_simps make_packet_def maximum_metadata_entries_def
        not_less om.ok_empty read_bytes_def split: if_splits
        dest!: read_metadata_ok)

lemma packet_deserialize_limits_witness:
  "\<exists>bs. packet_deserialize (\<lambda>_. True) bs 64 = Inr sample_packet
     \<and> omap_ok (pk_metadata sample_packet) \<and> length (pk_metadata sample_packet) \<le> 1024
     \<and> length (pk_bytes sample_packet) \<le> 64 \<and> length bs \<le> 64"
proof -
  have "\<exists>bs. packet_deserialize (\<lambda>_. True) bs 64 = Inr sample_packet"
    using packet_read_back [OF sample_packet_serialized, of 64]
    by (auto simp: sample_packet_def omap_ok_def)
  then show ?thesis using packet_deserialize_limits by blast
qed

end
