(* ===== verification/SequenceStates.thy ===== *)
theory SequenceStates
  imports Frames
begin

text \<open>
  \<^verbatim>\<open>include/nvcr/codec/sequence_state.hpp\<close>, \<^verbatim>\<open>src/codec/sequence_state.cpp\<close>: the reference state
  one coding direction keeps between frames. \<open>SequenceState\<close> is the record
  \<open>sequence_state\<close>; \<open>commit\<close> and \<open>reset\<close> are the steps of the relation
  \<open>seq_step\<close>, over which the state invariant is proved by rule induction.
\<close>

subsection \<open>State and operations\<close>

record sequence_state =
  ss_gop_size :: u32
  ss_reference_frame :: "frame option"
  ss_latent_state :: "byte list"
  ss_frame_index :: u64
  ss_generation :: u64
  ss_has_reference :: bool

record sequence_state_view =
  vw_reference_frame :: "frame option"
  vw_latent_state :: "byte list"
  vw_frame_index :: u64
  vw_gop_position :: u32
  vw_generation :: u64

definition make_sequence_state :: "u32 \<Rightarrow> sequence_state" where
  "make_sequence_state gop_size =
     \<lparr>ss_gop_size = gop_size, ss_reference_frame = None, ss_latent_state = [],
      ss_frame_index = 0, ss_generation = 0, ss_has_reference = False\<rparr>"

definition state_error :: "error_code \<Rightarrow> string \<Rightarrow> error" where
  "state_error c msg = Error c msg ''codec.state''"

definition next_frame_type :: "sequence_state \<Rightarrow> frame_type result" where
  "next_frame_type st =
     (if ss_gop_size st = 0 then Inl (state_error invalid_state ''GOP size is zero'')
      else if \<not> ss_has_reference st \<or> ss_frame_index st mod ucast (ss_gop_size st) = 0 then
        Inr intra
      else Inr predicted)"

definition validate_packet :: "frame_type \<Rightarrow> sequence_state \<Rightarrow> unit result" where
  "validate_packet frame_type st =
     (if frame_type = predicted \<and> \<not> ss_has_reference st then
        Inl (state_error invalid_state ''predicted frame received without a reference frame'')
      else Inr ())"

definition view :: "sequence_state \<Rightarrow> sequence_state_view" where
  "view st =
     \<lparr>vw_reference_frame = ss_reference_frame st,
      vw_latent_state = ss_latent_state st,
      vw_frame_index = ss_frame_index st,
      vw_gop_position = (if ss_gop_size st = 0 then 0
                         else ucast (ss_frame_index st mod ucast (ss_gop_size st))),
      vw_generation = ss_generation st\<rparr>"

definition commit :: "frame \<Rightarrow> byte list \<Rightarrow> frame_type \<Rightarrow> sequence_state \<Rightarrow> sequence_state result" where
  "commit reconstructed_frame latent_state frame_type st =
     (if size_bytes reconstructed_frame = 0 \<and> frame_type = intra then
        Inl (state_error backend_error ''backend returned an empty reference frame'')
      else if frame_type = predicted \<and> \<not> ss_has_reference st then
        Inl (state_error invalid_state ''cannot commit a predicted frame without a reference'')
      else
        let st = (if size_bytes reconstructed_frame \<noteq> 0
                  then st\<lparr>ss_reference_frame := Some reconstructed_frame\<rparr> else st) in
        Inr (st\<lparr>ss_latent_state := latent_state, ss_has_reference := True,
                ss_frame_index := ss_frame_index st + 1\<rparr>))"

definition reset_state :: "sequence_state \<Rightarrow> sequence_state" where
  "reset_state st =
     st\<lparr>ss_reference_frame := None, ss_latent_state := [], ss_frame_index := 0,
        ss_has_reference := False, ss_generation := ss_generation st + 1\<rparr>"

subsection \<open>Invariant\<close>

definition seq_ok :: "sequence_state \<Rightarrow> bool" where
  "seq_ok st \<longleftrightarrow>
     (ss_has_reference st \<longleftrightarrow> ss_reference_frame st \<noteq> None)
     \<and> (\<forall>f. ss_reference_frame st = Some f \<longrightarrow> size_bytes f \<noteq> 0)
     \<and> (\<not> ss_has_reference st \<longrightarrow> ss_frame_index st = 0 \<and> ss_latent_state st = [])"

inductive seq_step :: "sequence_state \<Rightarrow> sequence_state \<Rightarrow> bool" where
  seq_commit: "commit f latent t st = Inr st' \<Longrightarrow> seq_step st st'"
| seq_reset: "seq_step st (reset_state st)"

inductive seq_reachable :: "u32 \<Rightarrow> sequence_state \<Rightarrow> bool" for gop where
  seq_init: "seq_reachable gop (make_sequence_state gop)"
| seq_next: "seq_reachable gop st \<Longrightarrow> seq_step st st' \<Longrightarrow> seq_reachable gop st'"

inductive_cases seq_stepE: "seq_step st st'"

lemma commit_iff:
  "commit f latent t st = Inr st' \<longleftrightarrow>
     (t = intra \<and> size_bytes f \<noteq> 0 \<or> t = predicted \<and> ss_has_reference st)
     \<and> st' = st\<lparr>ss_reference_frame :=
           (if size_bytes f \<noteq> 0 then Some f else ss_reference_frame st),
         ss_latent_state := latent, ss_has_reference := True,
         ss_frame_index := ss_frame_index st + 1\<rparr>"
  by (cases t) (auto simp: commit_def Let_def)

lemma seq_ok_make [simp]: "seq_ok (make_sequence_state g)"
  by (simp add: seq_ok_def make_sequence_state_def)

lemma seq_ok_reset [simp]: "seq_ok (reset_state st)"
  by (simp add: seq_ok_def reset_state_def)

lemma seq_ok_commit: "commit f latent t st = Inr st' \<Longrightarrow> seq_ok st \<Longrightarrow> seq_ok st'"
  by (auto simp: commit_iff seq_ok_def)

lemma seq_ok_step: "seq_step st st' \<Longrightarrow> seq_ok st \<Longrightarrow> seq_ok st'"
  by (auto elim!: seq_stepE intro: seq_ok_commit)

lemma step_gop_size: "seq_step st st' \<Longrightarrow> ss_gop_size st' = ss_gop_size st"
  by (auto elim!: seq_stepE simp: commit_iff reset_state_def)

text \<open>
  Property C19. Every state the operations can reach has a reference frame exactly when
  \<open>has_reference\<close> says so, the reference is never empty, and without a reference the frame
  index and the latent state are those of a new sequence; the GOP size never changes.
\<close>

theorem sequence_state_invariant:
  assumes "seq_reachable gop st"
  shows "seq_ok st \<and> ss_gop_size st = gop"
  using assms
proof induction
  case seq_init
  then show ?case by (simp add: make_sequence_state_def) (simp add: seq_ok_def)
next
  case (seq_next st st')
  then show ?case by (simp add: seq_ok_step step_gop_size)
qed

theorem sequence_state_invariant_witness:
  "seq_reachable 4 (reset_state (make_sequence_state 4))
     \<and> seq_ok (reset_state (make_sequence_state 4))
     \<and> ss_gop_size (reset_state (make_sequence_state 4)) = 4"
proof -
  have reach: "seq_reachable 4 (reset_state (make_sequence_state 4))"
    by (rule seq_next [OF seq_init seq_reset])
  then show ?thesis using sequence_state_invariant [OF reach] by blast
qed

subsection \<open>GOP cadence\<close>

text \<open>
  An encoder asks \<open>next_frame_type\<close> and commits the reconstruction under the type it was
  given; \<open>encode_run\<close> is that loop over the reconstructions of a sequence and returns the
  types it used.
\<close>

fun encode_run :: "(frame \<times> byte list) list \<Rightarrow> sequence_state \<Rightarrow> (frame_type list \<times> sequence_state) result" where
  "encode_run [] st = Inr ([], st)"
| "encode_run ((f, latent) # fs) st =
     res_bind (next_frame_type st) (\<lambda>t.
     res_bind (commit f latent t st) (\<lambda>st'.
     res_bind (encode_run fs st') (\<lambda>(ts, st''). Inr (t # ts, st''))))"

definition cadence :: "nat \<Rightarrow> nat \<Rightarrow> frame_type" where
  "cadence gop i = (if i mod gop = 0 then intra else predicted)"

lemma unat_mod_gop:
  "unat (i :: u64) mod unat (g :: u32) = unat (i mod ucast g)"
  by (simp add: unat_mod_distrib unat_ucast_up)

lemma next_frame_type_cadence:
  assumes "ss_gop_size st = g" "g \<noteq> 0" "seq_ok st"
  shows "next_frame_type st = Inr (cadence (unat g) (unat (ss_frame_index st)))"
proof -
  have zero: "unat w = 0 \<longleftrightarrow> w = 0" for w :: u64
    by (simp add: word_unat_eq_iff)
  show ?thesis
    using assms
    by (auto simp: next_frame_type_def cadence_def unat_mod_gop seq_ok_def zero)
qed

lemma encode_run_cadence:
  assumes "ss_gop_size st = g" "g \<noteq> 0" "seq_ok st"
    and "\<And>f latent. (f, latent) \<in> set fs \<Longrightarrow> size_bytes f \<noteq> 0"
    and "unat (ss_frame_index st) + length fs < 2 ^ 64"
  shows "\<exists>st'. encode_run fs st =
     Inr (map (cadence (unat g)) [unat (ss_frame_index st) ..< unat (ss_frame_index st) + length fs],
       st') \<and> unat (ss_frame_index st') = unat (ss_frame_index st) + length fs"
  using assms
proof (induction fs arbitrary: st)
  case Nil
  then show ?case by simp
next
  case (Cons p fs)
  obtain f latent where p: "p = (f, latent)" by (cases p)
  define i where "i = unat (ss_frame_index st)"
  have nonempty: "size_bytes f \<noteq> 0" using Cons.prems(4) [of f latent] p by simp
  let ?t = "cadence (unat g) i"
  have ref: "ss_has_reference st" if "?t = predicted"
    using that Cons.prems(3) by (auto simp: cadence_def seq_ok_def i_def split: if_splits)
  have t: "?t = intra \<or> ?t = predicted" by (cases ?t) simp_all
  obtain st1 where st1: "commit f latent ?t st = Inr st1"
    using t nonempty ref by (auto simp: commit_iff)
  have idx: "unat (ss_frame_index st1) = Suc i"
    using st1 Cons.prems(5) by (auto simp: commit_iff unat_word_ariths i_def)
  have ok1: "seq_ok st1" and gop1: "ss_gop_size st1 = g"
    using seq_ok_commit [OF st1] st1 Cons.prems by (auto simp: commit_iff)
  have "\<exists>st'. encode_run fs st1 =
     Inr (map (cadence (unat g)) [unat (ss_frame_index st1) ..< unat (ss_frame_index st1) + length fs],
       st') \<and> unat (ss_frame_index st') = unat (ss_frame_index st1) + length fs"
    using ok1 gop1 idx Cons.prems(2,4,5) by (intro Cons.IH) (auto simp: i_def)
  moreover have "[i ..< i + length (p # fs)] = i # [Suc i ..< Suc i + length fs]"
    by (simp add: upt_conv_Cons del: upt_Suc)
  ultimately show ?case
    using st1 next_frame_type_cadence [OF Cons.prems(1-3)]
    unfolding i_def [symmetric] by (auto simp: p idx simp del: upt_Suc)
qed


definition one_pixel :: frame where
  "one_pixel = \<lparr>fr_width = 1, fr_height = 1, fr_format = gray8, fr_timestamp = 0, fr_data = [0]\<rparr>"


end
