(* ===== verification/Configuration.thy ===== *)
theory Configuration
  imports Errors Versions
begin

text \<open>
  \<^verbatim>\<open>include/nvcr/configuration/configuration.hpp\<close>, \<^verbatim>\<open>src/configuration/configuration.cpp\<close>:
  the runtime configuration with its flat 1.0 fields and its scoped groups, the key/value file
  loader, the reconciliation of the two field sets and the validation. A file system path is
  its native string (the code only assigns paths and compares them with the empty path), a
  \<open>std::size_t\<close> is a \<^typ>\<open>u64\<close>, and the input file is what \<open>std::ifstream\<close> delivers: its
  text and whether the stream went bad, or no stream at all.
\<close>

subsection \<open>Data\<close>

datatype log_level = trace | debug | info | warning | error_level | off

datatype tensorrt_execution_mode = automatic | low_memory | performance

record runtime_options =
  ro_memory_pool_bytes :: u64
  ro_max_packet_bytes :: u64
  ro_log_level :: log_level

record codec_configuration =
  cc_id :: string
  cc_intra_qp :: u32
  cc_gop_size :: u32
  cc_verify_encoder_reconstruction :: bool

record provider_configuration =
  pc_id :: string
  pc_device_id :: i32
  pc_device_arena_bytes :: u64
  pc_tensorrt_execution_mode :: tensorrt_execution_mode
  pc_enable_profiling :: bool

record artifact_selection =
  as_intra_engine_path :: string
  as_predicted_engine_path :: string
  as_entropy_model_path :: string
  as_model_id :: string
  as_codec_api_version :: codec_api_version
  as_provider_api_version :: provider_api_version
  as_model_set_version :: model_set_version
  as_manifest_schema_version :: manifest_schema_version

record stream_policy =
  sp_bitstream_model_id :: string
  sp_stream_format_version :: stream_format_version
  sp_payload_syntax_version :: payload_syntax_version
  sp_allow_legacy_access_units :: bool

record runtime_configuration =
  intra_engine_path :: string
  predicted_engine_path :: string
  entropy_model_path :: string
  model_id :: string
  bitstream_model_id :: string
  provider_id :: string
  codec_api_version :: codec_api_version
  provider_api_version :: provider_api_version
  stream_format_version :: stream_format_version
  payload_syntax_version :: payload_syntax_version
  model_set_version :: model_set_version
  manifest_schema_version :: manifest_schema_version
  device_id :: i32
  intra_qp :: u32
  gop_size :: u32
  memory_pool_bytes :: u64
  device_arena_bytes :: u64
  max_packet_bytes :: u64
  log_level_field :: log_level
  execution_mode :: tensorrt_execution_mode
  allow_legacy_access_units :: bool
  verify_encoder_reconstruction :: bool
  enable_profiling :: bool
  runtime :: runtime_options
  codec :: codec_configuration
  provider :: provider_configuration
  artifacts :: artifact_selection
  stream :: stream_policy

definition default_runtime_options :: runtime_options where
  "default_runtime_options =
     \<lparr>ro_memory_pool_bytes = 256 * 1024 * 1024, ro_max_packet_bytes = 64 * 1024 * 1024,
      ro_log_level = info\<rparr>"

definition default_codec_configuration :: codec_configuration where
  "default_codec_configuration =
     \<lparr>cc_id = ''dcvc-rt'', cc_intra_qp = 32, cc_gop_size = 32,
      cc_verify_encoder_reconstruction = False\<rparr>"

definition default_provider_configuration :: provider_configuration where
  "default_provider_configuration =
     \<lparr>pc_id = ''tensorrt'', pc_device_id = 0, pc_device_arena_bytes = 512 * 1024 * 1024,
      pc_tensorrt_execution_mode = automatic, pc_enable_profiling = False\<rparr>"

definition default_artifact_selection :: artifact_selection where
  "default_artifact_selection =
     \<lparr>as_intra_engine_path = [], as_predicted_engine_path = [], as_entropy_model_path = [],
      as_model_id = ''dcvcrt-cvpr2025'', as_codec_api_version = \<lparr>v1_major = 1\<rparr>,
      as_provider_api_version = \<lparr>v1_major = 1\<rparr>,
      as_model_set_version = \<lparr>v2_major = 1, v2_minor = 0\<rparr>,
      as_manifest_schema_version = \<lparr>v2_major = 2, v2_minor = 0\<rparr>\<rparr>"

definition default_stream_policy :: stream_policy where
  "default_stream_policy =
     \<lparr>sp_bitstream_model_id = ''dcvcrt'',
      sp_stream_format_version = \<lparr>v2_major = 1, v2_minor = 0\<rparr>,
      sp_payload_syntax_version = \<lparr>v1_major = 1\<rparr>, sp_allow_legacy_access_units = True\<rparr>"

definition default_configuration :: runtime_configuration where
  "default_configuration =
     \<lparr>intra_engine_path = [], predicted_engine_path = [], entropy_model_path = [],
      model_id = ''dcvcrt-cvpr2025'', bitstream_model_id = ''dcvcrt'', provider_id = ''tensorrt'',
      codec_api_version = \<lparr>v1_major = 1\<rparr>, provider_api_version = \<lparr>v1_major = 1\<rparr>,
      stream_format_version = \<lparr>v2_major = 1, v2_minor = 0\<rparr>,
      payload_syntax_version = \<lparr>v1_major = 1\<rparr>,
      model_set_version = \<lparr>v2_major = 1, v2_minor = 0\<rparr>,
      manifest_schema_version = \<lparr>v2_major = 2, v2_minor = 0\<rparr>,
      device_id = 0, intra_qp = 32, gop_size = 32,
      memory_pool_bytes = 256 * 1024 * 1024, device_arena_bytes = 512 * 1024 * 1024,
      max_packet_bytes = 64 * 1024 * 1024, log_level_field = info, execution_mode = automatic,
      allow_legacy_access_units = True, verify_encoder_reconstruction = False,
      enable_profiling = False,
      runtime = default_runtime_options, codec = default_codec_configuration,
      provider = default_provider_configuration, artifacts = default_artifact_selection,
      stream = default_stream_policy\<rparr>"

subsection \<open>Parsing of values\<close>

definition config_error :: "string \<Rightarrow> error" where
  "config_error msg = Error invalid_argument msg ''configuration''"

definition trim :: "string \<Rightarrow> string" where
  "trim value = rev (dropWhile isspace (rev (dropWhile isspace value)))"

text \<open>
  \<open>std::from_chars\<close> in base 10 reads the longest run of digits (after a minus sign for signed
  types only), fails on none and reports a value out of range; \<open>parse_integer\<close> also asks that
  it consumed everything.
\<close>

definition quote :: string where "quote = [CHR 0x27]"

definition integer_error :: "string \<Rightarrow> error" where
  "integer_error key = config_error (''invalid integer for key '' @ quote @ key @ quote)"

definition parse_unsigned :: "nat \<Rightarrow> string \<Rightarrow> string \<Rightarrow> nat result" where
  "parse_unsigned maximum value key =
     (case decimal_value value of
        Some n \<Rightarrow> if n \<le> maximum then Inr n else Inl (integer_error key)
      | None \<Rightarrow> Inl (integer_error key))"

definition parse_int32 :: "string \<Rightarrow> string \<Rightarrow> i32 result" where
  "parse_int32 value key =
     (case value of
        [] \<Rightarrow> Inl (integer_error key)
      | c # digits \<Rightarrow>
          if c = CHR ''-'' then
            (case decimal_value digits of
               Some n \<Rightarrow> if n \<le> 2 ^ 31 then Inr (- word_of_nat n) else Inl (integer_error key)
             | None \<Rightarrow> Inl (integer_error key))
          else
            (case decimal_value value of
               Some n \<Rightarrow> if n < 2 ^ 31 then Inr (word_of_nat n) else Inl (integer_error key)
             | None \<Rightarrow> Inl (integer_error key)))"

definition parse_u32 :: "string \<Rightarrow> string \<Rightarrow> u32 result" where
  "parse_u32 value key = res_bind (parse_unsigned (2 ^ 32 - 1) value key) (\<lambda>n. Inr (word_of_nat n))"

definition parse_size :: "string \<Rightarrow> string \<Rightarrow> u64 result" where
  "parse_size value key = res_bind (parse_unsigned (2 ^ 64 - 1) value key) (\<lambda>n. Inr (word_of_nat n))"

definition parse_bool :: "string \<Rightarrow> string \<Rightarrow> bool result" where
  "parse_bool value key =
     (if value = ''true'' \<or> value = ''1'' then Inr True
      else if value = ''false'' \<or> value = ''0'' then Inr False
      else Inl (config_error (''invalid boolean for key '' @ quote @ key @ quote)))"

definition parse_log_level :: "string \<Rightarrow> log_level result" where
  "parse_log_level value =
     (if value = ''trace'' then Inr trace
      else if value = ''debug'' then Inr debug
      else if value = ''info'' then Inr info
      else if value = ''warning'' \<or> value = ''warn'' then Inr warning
      else if value = ''error'' then Inr error_level
      else if value = ''off'' then Inr off
      else Inl (config_error ''invalid log_level''))"

definition parse_execution_mode :: "string \<Rightarrow> tensorrt_execution_mode result" where
  "parse_execution_mode value =
     (if value = ''automatic'' \<or> value = ''auto'' then Inr automatic
      else if value = ''low-memory'' \<or> value = ''low_memory'' then Inr low_memory
      else if value = ''performance'' then Inr performance
      else Inl (config_error ''invalid tensorrt_execution_mode''))"

definition config_identifier :: "string \<Rightarrow> bool" where
  "config_identifier value \<longleftrightarrow> value \<noteq> [] \<and> length value \<le> 128 \<and> list_all identifier_char value"

subsection \<open>Settings\<close>

definition apply_setting ::
  "runtime_configuration \<Rightarrow> string \<Rightarrow> string \<Rightarrow> runtime_configuration result" where
  "apply_setting c key value =
     (if key = ''intra_engine_path'' then
        Inr (c\<lparr>artifacts := (artifacts c)\<lparr>as_intra_engine_path := value\<rparr>\<rparr>)
      else if key = ''predicted_engine_path'' then
        Inr (c\<lparr>artifacts := (artifacts c)\<lparr>as_predicted_engine_path := value\<rparr>\<rparr>)
      else if key = ''entropy_model_path'' then
        Inr (c\<lparr>artifacts := (artifacts c)\<lparr>as_entropy_model_path := value\<rparr>\<rparr>)
      else if key = ''codec_id'' then
        Inr (c\<lparr>codec := (codec c)\<lparr>cc_id := value\<rparr>\<rparr>)
      else if key = ''model_id'' then
        Inr (c\<lparr>artifacts := (artifacts c)\<lparr>as_model_id := value\<rparr>\<rparr>)
      else if key = ''bitstream_model_id'' then
        Inr (c\<lparr>stream := (stream c)\<lparr>sp_bitstream_model_id := value\<rparr>\<rparr>)
      else if key = ''provider_id'' then
        Inr (c\<lparr>provider := (provider c)\<lparr>pc_id := value\<rparr>\<rparr>)
      else if key = ''device_id'' then
        res_bind (parse_int32 value key) (\<lambda>v. Inr (c\<lparr>provider := (provider c)\<lparr>pc_device_id := v\<rparr>\<rparr>))
      else if key = ''intra_qp'' then
        res_bind (parse_u32 value key) (\<lambda>v. Inr (c\<lparr>codec := (codec c)\<lparr>cc_intra_qp := v\<rparr>\<rparr>))
      else if key = ''gop_size'' then
        res_bind (parse_u32 value key) (\<lambda>v. Inr (c\<lparr>codec := (codec c)\<lparr>cc_gop_size := v\<rparr>\<rparr>))
      else if key = ''memory_pool_bytes'' then
        res_bind (parse_size value key) (\<lambda>v. Inr (c\<lparr>runtime := (runtime c)\<lparr>ro_memory_pool_bytes := v\<rparr>\<rparr>))
      else if key = ''device_arena_bytes'' then
        res_bind (parse_size value key) (\<lambda>v. Inr (c\<lparr>provider := (provider c)\<lparr>pc_device_arena_bytes := v\<rparr>\<rparr>))
      else if key = ''max_packet_bytes'' then
        res_bind (parse_size value key) (\<lambda>v. Inr (c\<lparr>runtime := (runtime c)\<lparr>ro_max_packet_bytes := v\<rparr>\<rparr>))
      else if key = ''enable_profiling'' then
        res_bind (parse_bool value key) (\<lambda>v. Inr (c\<lparr>provider := (provider c)\<lparr>pc_enable_profiling := v\<rparr>\<rparr>))
      else if key = ''allow_legacy_access_units'' then
        res_bind (parse_bool value key) (\<lambda>v. Inr (c\<lparr>stream := (stream c)\<lparr>sp_allow_legacy_access_units := v\<rparr>\<rparr>))
      else if key = ''verify_encoder_reconstruction'' then
        res_bind (parse_bool value key) (\<lambda>v. Inr (c\<lparr>codec := (codec c)\<lparr>cc_verify_encoder_reconstruction := v\<rparr>\<rparr>))
      else if key = ''tensorrt_execution_mode'' then
        res_bind (parse_execution_mode value) (\<lambda>v. Inr (c\<lparr>provider := (provider c)\<lparr>pc_tensorrt_execution_mode := v\<rparr>\<rparr>))
      else if key = ''log_level'' then
        res_bind (parse_log_level value) (\<lambda>v. Inr (c\<lparr>runtime := (runtime c)\<lparr>ro_log_level := v\<rparr>\<rparr>))
      else Inl (config_error (''unknown setting '' @ quote @ key @ quote)))"

subsection \<open>Reconciliation of the flat and the scoped fields\<close>

text \<open>
  The generic lambda \<open>reconcile\<close> leaves the same value in both fields; \<open>reconcile\<close> is
  that value. The version fields are compared member by member.
\<close>

definition reconcile :: "'a \<Rightarrow> 'a \<Rightarrow> 'a \<Rightarrow> 'a" where
  "reconcile scoped legacy default_value =
     (if scoped = default_value \<and> legacy \<noteq> default_value then legacy else scoped)"

definition reconcile_v1 :: "version1 \<Rightarrow> version1 \<Rightarrow> version1 \<Rightarrow> version1 \<Rightarrow> version1" where
  "reconcile_v1 scoped legacy scoped_default legacy_default =
     (if v1_major scoped = v1_major scoped_default \<and> v1_major legacy \<noteq> v1_major legacy_default
      then legacy else scoped)"

definition reconcile_v2 :: "version2 \<Rightarrow> version2 \<Rightarrow> version2 \<Rightarrow> version2 \<Rightarrow> version2" where
  "reconcile_v2 scoped legacy scoped_default legacy_default =
     (if v2_major scoped = v2_major scoped_default \<and> v2_minor scoped = v2_minor scoped_default
        \<and> (v2_major legacy \<noteq> v2_major legacy_default \<or> v2_minor legacy \<noteq> v2_minor legacy_default)
      then legacy else scoped)"

definition reconcile_legacy_fields :: "runtime_configuration \<Rightarrow> runtime_configuration" where
  "reconcile_legacy_fields c =
     (let defaults = default_configuration;
          intra_engine_path' = reconcile (as_intra_engine_path (artifacts c)) (intra_engine_path c) (as_intra_engine_path (artifacts defaults));
          predicted_engine_path' = reconcile (as_predicted_engine_path (artifacts c)) (predicted_engine_path c) (as_predicted_engine_path (artifacts defaults));
          entropy_model_path' = reconcile (as_entropy_model_path (artifacts c)) (entropy_model_path c) (as_entropy_model_path (artifacts defaults));
          model_id' = reconcile (as_model_id (artifacts c)) (model_id c) (as_model_id (artifacts defaults));
          bitstream_model_id' = reconcile (sp_bitstream_model_id (stream c)) (bitstream_model_id c) (sp_bitstream_model_id (stream defaults));
          provider_id' = reconcile (pc_id (provider c)) (provider_id c) (pc_id (provider defaults));
          device_id' = reconcile (pc_device_id (provider c)) (device_id c) (pc_device_id (provider defaults));
          intra_qp' = reconcile (cc_intra_qp (codec c)) (intra_qp c) (cc_intra_qp (codec defaults));
          gop_size' = reconcile (cc_gop_size (codec c)) (gop_size c) (cc_gop_size (codec defaults));
          memory_pool_bytes' = reconcile (ro_memory_pool_bytes (runtime c)) (memory_pool_bytes c) (ro_memory_pool_bytes (runtime defaults));
          device_arena_bytes' = reconcile (pc_device_arena_bytes (provider c)) (device_arena_bytes c) (pc_device_arena_bytes (provider defaults));
          max_packet_bytes' = reconcile (ro_max_packet_bytes (runtime c)) (max_packet_bytes c) (ro_max_packet_bytes (runtime defaults));
          log_level_field' = reconcile (ro_log_level (runtime c)) (log_level_field c) (ro_log_level (runtime defaults));
          execution_mode' = reconcile (pc_tensorrt_execution_mode (provider c)) (execution_mode c) (pc_tensorrt_execution_mode (provider defaults));
          allow_legacy_access_units' = reconcile (sp_allow_legacy_access_units (stream c)) (allow_legacy_access_units c) (sp_allow_legacy_access_units (stream defaults));
          verify_encoder_reconstruction' = reconcile (cc_verify_encoder_reconstruction (codec c)) (verify_encoder_reconstruction c) (cc_verify_encoder_reconstruction (codec defaults));
          enable_profiling' = reconcile (pc_enable_profiling (provider c)) (enable_profiling c) (pc_enable_profiling (provider defaults));
          codec_api_version' = reconcile_v1 (as_codec_api_version (artifacts c)) (codec_api_version c)
            (as_codec_api_version (artifacts defaults)) (codec_api_version defaults);
          provider_api_version' = reconcile_v1 (as_provider_api_version (artifacts c)) (provider_api_version c)
            (as_provider_api_version (artifacts defaults)) (provider_api_version defaults);
          stream_format_version' = reconcile_v2 (sp_stream_format_version (stream c)) (stream_format_version c)
            (sp_stream_format_version (stream defaults)) (stream_format_version defaults);
          payload_syntax_version' = reconcile_v1 (sp_payload_syntax_version (stream c)) (payload_syntax_version c)
            (sp_payload_syntax_version (stream defaults)) (payload_syntax_version defaults);
          model_set_version' = reconcile_v2 (as_model_set_version (artifacts c)) (model_set_version c)
            (as_model_set_version (artifacts defaults)) (model_set_version defaults);
          manifest_schema_version' = reconcile_v2 (as_manifest_schema_version (artifacts c)) (manifest_schema_version c)
            (as_manifest_schema_version (artifacts defaults)) (manifest_schema_version defaults)
      in c\<lparr>
        intra_engine_path := intra_engine_path',
        predicted_engine_path := predicted_engine_path',
        entropy_model_path := entropy_model_path',
        model_id := model_id',
        bitstream_model_id := bitstream_model_id',
        provider_id := provider_id',
        device_id := device_id',
        intra_qp := intra_qp',
        gop_size := gop_size',
        memory_pool_bytes := memory_pool_bytes',
        device_arena_bytes := device_arena_bytes',
        max_packet_bytes := max_packet_bytes',
        log_level_field := log_level_field',
        execution_mode := execution_mode',
        allow_legacy_access_units := allow_legacy_access_units',
        verify_encoder_reconstruction := verify_encoder_reconstruction',
        enable_profiling := enable_profiling',
        codec_api_version := codec_api_version',
        provider_api_version := provider_api_version',
        stream_format_version := stream_format_version',
        payload_syntax_version := payload_syntax_version',
        model_set_version := model_set_version',
        manifest_schema_version := manifest_schema_version',
        runtime := (runtime c)\<lparr>ro_memory_pool_bytes := memory_pool_bytes',
          ro_max_packet_bytes := max_packet_bytes',
          ro_log_level := log_level_field'\<rparr>,
        codec := (codec c)\<lparr>cc_intra_qp := intra_qp',
          cc_gop_size := gop_size',
          cc_verify_encoder_reconstruction := verify_encoder_reconstruction'\<rparr>,
        provider := (provider c)\<lparr>pc_id := provider_id',
          pc_device_id := device_id',
          pc_device_arena_bytes := device_arena_bytes',
          pc_tensorrt_execution_mode := execution_mode',
          pc_enable_profiling := enable_profiling'\<rparr>,
        artifacts := (artifacts c)\<lparr>as_intra_engine_path := intra_engine_path',
          as_predicted_engine_path := predicted_engine_path',
          as_entropy_model_path := entropy_model_path',
          as_model_id := model_id',
          as_codec_api_version := codec_api_version',
          as_provider_api_version := provider_api_version',
          as_model_set_version := model_set_version',
          as_manifest_schema_version := manifest_schema_version'\<rparr>,
        stream := (stream c)\<lparr>sp_bitstream_model_id := bitstream_model_id',
          sp_allow_legacy_access_units := allow_legacy_access_units',
          sp_stream_format_version := stream_format_version',
          sp_payload_syntax_version := payload_syntax_version'\<rparr>\<rparr>)"

subsection \<open>Validation and loading\<close>

definition validate :: "runtime_configuration \<Rightarrow> unit result" where
  "validate configuration =
     (let normalized = reconcile_legacy_fields configuration in
      if \<not> config_identifier (cc_id (codec normalized)) then
        Inl (config_error ''invalid codec_id'')
      else if \<not> config_identifier (as_model_id (artifacts normalized)) then
        Inl (config_error ''invalid model_id'')
      else if \<not> config_identifier (sp_bitstream_model_id (stream normalized)) then
        Inl (config_error ''invalid bitstream_model_id'')
      else if \<not> config_identifier (pc_id (provider normalized)) then
        Inl (config_error ''invalid provider_id'')
      else if sint (pc_device_id (provider normalized)) < 0 then
        Inl (config_error ''device_id cannot be negative'')
      else if cc_gop_size (codec normalized) = 0 then
        Inl (config_error ''gop_size must be greater than zero'')
      else if cc_intra_qp (codec normalized) \<ge> 64 then
        Inl (config_error ''intra_qp must be in [0, 63]'')
      else if ro_memory_pool_bytes (runtime normalized) = 0
          \<or> pc_device_arena_bytes (provider normalized) = 0
          \<or> ro_max_packet_bytes (runtime normalized) = 0 then
        Inl (config_error ''memory and packet limits must be greater than zero'')
      else Inr ())"

text \<open>
  \<open>std::getline\<close>: a line ends at a newline, which is dropped; what follows the last newline
  is a line only if it is not empty.
\<close>

fun getlines :: "string \<Rightarrow> string \<Rightarrow> string list" where
  "getlines [] line = (if line = [] then [] else [line])"
| "getlines (c # cs) line =
     (if c = CHR 0x0A then line # getlines cs [] else getlines cs (line @ [c]))"

fun apply_lines ::
  "string list \<Rightarrow> nat \<Rightarrow> runtime_configuration \<Rightarrow> runtime_configuration result" where
  "apply_lines [] line_number c = Inr c"
| "apply_lines (line # lines) line_number c =
     (let line_number = line_number + 1; line = trim line in
      if line = [] \<or> hd line = CHR ''#'' then apply_lines lines line_number c
      else if CHR ''='' \<notin> set line then
        Inl (config_error (''expected key=value at line '' @ decimal_string line_number))
      else
        let key = trim (takeWhile (\<lambda>ch. ch \<noteq> CHR ''='') line);
            value = trim (tl (dropWhile (\<lambda>ch. ch \<noteq> CHR ''='') line)) in
        res_bind (apply_setting c key value) (\<lambda>c. apply_lines lines line_number c))"

definition from_file :: "string \<Rightarrow> (string \<times> bool) option \<Rightarrow> runtime_configuration result" where
  "from_file path input =
     (case input of
        None \<Rightarrow> Inl (Error io_error (''cannot open configuration file: '' @ path) ''configuration'')
      | Some (text, bad) \<Rightarrow>
          res_bind (apply_lines (getlines text []) 0 default_configuration) (\<lambda>c.
          if bad then
            Inl (Error io_error ''failed while reading configuration'' ''configuration'')
          else
            let c = reconcile_legacy_fields c in
            res_bind (validate c) (\<lambda>_. Inr c)))"

definition log_level_to_string :: "log_level \<Rightarrow> string" where
  "log_level_to_string level = (case level of
     trace \<Rightarrow> ''trace'' | debug \<Rightarrow> ''debug'' | info \<Rightarrow> ''info'' | warning \<Rightarrow> ''warning''
   | error_level \<Rightarrow> ''error'' | off \<Rightarrow> ''off'')"

definition execution_mode_to_string :: "tensorrt_execution_mode \<Rightarrow> string" where
  "execution_mode_to_string mode = (case mode of
     automatic \<Rightarrow> ''automatic'' | low_memory \<Rightarrow> ''low-memory'' | performance \<Rightarrow> ''performance'')"

subsection \<open>Reconciled configurations\<close>

definition reconciled :: "runtime_configuration \<Rightarrow> bool" where
  "reconciled c \<longleftrightarrow>
     intra_engine_path c = as_intra_engine_path (artifacts c)
     \<and> predicted_engine_path c = as_predicted_engine_path (artifacts c)
     \<and> entropy_model_path c = as_entropy_model_path (artifacts c)
     \<and> model_id c = as_model_id (artifacts c)
     \<and> bitstream_model_id c = sp_bitstream_model_id (stream c)
     \<and> provider_id c = pc_id (provider c)
     \<and> device_id c = pc_device_id (provider c)
     \<and> intra_qp c = cc_intra_qp (codec c)
     \<and> gop_size c = cc_gop_size (codec c)
     \<and> memory_pool_bytes c = ro_memory_pool_bytes (runtime c)
     \<and> device_arena_bytes c = pc_device_arena_bytes (provider c)
     \<and> max_packet_bytes c = ro_max_packet_bytes (runtime c)
     \<and> log_level_field c = ro_log_level (runtime c)
     \<and> execution_mode c = pc_tensorrt_execution_mode (provider c)
     \<and> allow_legacy_access_units c = sp_allow_legacy_access_units (stream c)
     \<and> verify_encoder_reconstruction c = cc_verify_encoder_reconstruction (codec c)
     \<and> enable_profiling c = pc_enable_profiling (provider c)
     \<and> codec_api_version c = as_codec_api_version (artifacts c)
     \<and> provider_api_version c = as_provider_api_version (artifacts c)
     \<and> stream_format_version c = sp_stream_format_version (stream c)
     \<and> payload_syntax_version c = sp_payload_syntax_version (stream c)
     \<and> model_set_version c = as_model_set_version (artifacts c)
     \<and> manifest_schema_version c = as_manifest_schema_version (artifacts c)"

lemma reconcile_same [simp]:
  "reconcile x x d = x" "reconcile_v1 v v a a' = v" "reconcile_v2 u u e e' = u"
  by (simp_all add: reconcile_def reconcile_v1_def reconcile_v2_def)

lemma reconcile_establishes: "reconciled (reconcile_legacy_fields c)"
  by (simp add: reconciled_def reconcile_legacy_fields_def Let_def)

lemma reconcile_fixpoint: "reconciled c \<Longrightarrow> reconcile_legacy_fields c = c"
  by (rule runtime_configuration.equality)
     (simp_all add: reconciled_def reconcile_legacy_fields_def Let_def)

text \<open>
  After \<open>reconcile_legacy_fields\<close> every flat field agrees with the scoped field
  it mirrors, and reconciling again changes nothing, so that the runtime, the adapters and the
  loader may each reconcile the same configuration.
\<close>

lemma reconcile_idempotent:
  "reconciled (reconcile_legacy_fields c)
   \<and> reconcile_legacy_fields (reconcile_legacy_fields c) = reconcile_legacy_fields c"
  by (simp add: reconcile_establishes reconcile_fixpoint)

subsection \<open>Accepted configurations\<close>

lemma validate_iff:
  "validate c = Inr () \<longleftrightarrow>
     (let n = reconcile_legacy_fields c in
      config_identifier (cc_id (codec n)) \<and> config_identifier (as_model_id (artifacts n))
      \<and> config_identifier (sp_bitstream_model_id (stream n)) \<and> config_identifier (pc_id (provider n))
      \<and> 0 \<le> sint (pc_device_id (provider n)) \<and> cc_gop_size (codec n) \<noteq> 0
      \<and> cc_intra_qp (codec n) < 64 \<and> ro_memory_pool_bytes (runtime n) \<noteq> 0
      \<and> pc_device_arena_bytes (provider n) \<noteq> 0 \<and> ro_max_packet_bytes (runtime n) \<noteq> 0)"
  unfolding validate_def Let_def
  by (auto simp: not_less not_le)

text \<open>
  Property C20. A configuration \<open>from_file\<close> returns is reconciled and passed validation: its
  identifiers are well formed, the GOP size and the memory limits are not zero, the QP is
  within 0..63 and the device index is not negative.
\<close>

theorem from_file_valid:
  assumes "from_file path input = Inr c"
  shows "reconciled c \<and> validate c = Inr () \<and> cc_gop_size (codec c) \<noteq> 0
     \<and> cc_intra_qp (codec c) < 64 \<and> 0 \<le> sint (pc_device_id (provider c))
     \<and> ro_memory_pool_bytes (runtime c) \<noteq> 0 \<and> pc_device_arena_bytes (provider c) \<noteq> 0
     \<and> ro_max_packet_bytes (runtime c) \<noteq> 0
     \<and> list_all config_identifier [cc_id (codec c), as_model_id (artifacts c),
         sp_bitstream_model_id (stream c), pc_id (provider c)]"
proof -
  from assms have ok: "validate c = Inr ()" and rc: "reconciled c"
    by (auto simp: from_file_def result_simps Let_def reconcile_establishes
          split: option.splits prod.splits if_splits)
  then show ?thesis
    using validate_iff [of c] by (simp add: reconcile_fixpoint Let_def)
qed

lemma default_file_loads:
  "\<exists>c. from_file ''f'' (Some (''# empty'', False)) = Inr c"
proof -
  have rc: "reconcile_legacy_fields default_configuration = default_configuration"
    by (rule reconcile_fixpoint)
       (simp add: reconciled_def default_configuration_def default_runtime_options_def
          default_codec_configuration_def default_provider_configuration_def
          default_artifact_selection_def default_stream_policy_def)
  have "validate default_configuration = Inr ()"
    by (simp add: validate_iff rc)
       (simp add: default_configuration_def default_runtime_options_def
          default_codec_configuration_def default_provider_configuration_def
          default_artifact_selection_def default_stream_policy_def config_identifier_def
          identifier_char_def isalnum_def isdigit_def isupper_def islower_def char_code_def)
  then show ?thesis
    by (simp add: from_file_def rc trim_def isspace_def char_code_def)
qed

theorem from_file_valid_witness:
  "\<exists>c. from_file ''f'' (Some (''# empty'', False)) = Inr c
     \<and> reconciled c \<and> cc_gop_size (codec c) \<noteq> 0"
  using default_file_loads from_file_valid by blast

subsection \<open>Printing and parsing\<close>

lemma parse_unsigned_decimal:
  "n \<le> m \<Longrightarrow> parse_unsigned m (decimal_string n) key = Inr n"
  by (simp add: parse_unsigned_def)

text \<open>
  The values the loader reads are the values \<open>std::to_string\<close> and
  \<open>to_string\<close> print: 32-bit and 64-bit unsigned settings, log levels and execution modes
  are read back as they were, and an accepted unsigned setting is the number its digits
  denote, never a wrapped one.
\<close>

lemma settings_roundtrip:
  "parse_u32 (decimal_string (unat w)) key = Inr w
   \<and> parse_size (decimal_string (unat z)) key = Inr z
   \<and> parse_log_level (log_level_to_string level) = Inr level
   \<and> parse_execution_mode (execution_mode_to_string mode) = Inr mode
   \<and> (parse_u32 value key = Inr v \<longrightarrow> decimal_value value = Some (unat v))"
proof -
  have "unat w \<le> 2 ^ 32 - 1" using unsigned_less [of w, where ?'a = nat] by simp
  moreover have "unat z \<le> 2 ^ 64 - 1" using unsigned_less [of z, where ?'a = nat] by simp
  moreover have "parse_log_level (log_level_to_string level) = Inr level"
    by (cases level) (simp_all add: parse_log_level_def log_level_to_string_def)
  moreover have "parse_execution_mode (execution_mode_to_string mode) = Inr mode"
    by (cases mode) (simp_all add: parse_execution_mode_def execution_mode_to_string_def)
  moreover have "decimal_value value = Some (unat v)" if "parse_u32 value key = Inr v"
    using that
    by (auto simp: parse_u32_def parse_unsigned_def result_simps unat_of_nat take_bit_nat_eq_self
          split: option.splits if_splits)
  ultimately show ?thesis
    by (simp add: parse_u32_def parse_size_def parse_unsigned_decimal)
qed

lemma settings_roundtrip_witness:
  "parse_u32 ''15'' ''k'' = Inr 15 \<and> decimal_value ''15'' = Some (unat (15 :: u32))"
proof -
  have "parse_u32 ''15'' ''k'' = Inr 15"
    by (simp add: parse_u32_def parse_unsigned_def decimal_value_def digits_value_def
          digit_value_def isdigit_def char_code_def)
  then show ?thesis
    using settings_roundtrip [of 0 "''k''" 0 trace automatic "''15''" 15] by blast
qed

subsection \<open>Lines\<close>

definition blank :: "string \<Rightarrow> bool" where
  "blank s \<longleftrightarrow> list_all isspace s"

lemma dropWhile_blank: "blank l \<Longrightarrow> dropWhile isspace (l @ s) = dropWhile isspace s"
  by (induction l) (simp_all add: blank_def)

lemma trim_padded:
  assumes "blank l" "blank r" and "s \<noteq> []" "\<not> isspace (hd s)" "\<not> isspace (last s)"
  shows "trim (l @ s @ r) = s"
proof -
  have head: "dropWhile isspace (s @ r) = s @ r"
    using assms(3,4) by (cases s) simp_all
  have tail: "dropWhile isspace (rev s) = rev s"
    using assms(3,5) by (cases s rule: rev_cases) simp_all
  have "blank (rev r)" using assms(2) by (simp add: blank_def list_all_iff)
  then show ?thesis
    using assms(1) by (simp add: trim_def dropWhile_blank head tail)
qed

definition token :: "string \<Rightarrow> bool" where
  "token s \<longleftrightarrow> s \<noteq> [] \<and> \<not> isspace (hd s) \<and> \<not> isspace (last s)"

lemma isspace_equals [simp]: "\<not> isspace (CHR ''='')"
  by (simp add: isspace_def char_code_def)

lemma takeWhile_setting:
  assumes "CHR ''='' \<notin> set left"
  shows "takeWhile (\<lambda>ch. ch \<noteq> CHR ''='') (left @ CHR ''='' # right) = left"
    "dropWhile (\<lambda>ch. ch \<noteq> CHR ''='') (left @ CHR ''='' # right) = CHR ''='' # right"
  using assms by (induction left) auto

text \<open>
  A setting line means its key and value whatever white space surrounds them:
  the loader applies the setting and goes on with the next line, in the order of the file. The
  key is a token without \<open>=\<close> and not a comment; the value may contain \<open>=\<close>.
\<close>

lemma setting_line:
  assumes "token key" "CHR ''='' \<notin> set key" "hd key \<noteq> CHR ''#''" "token value"
    and "blank a" "blank b" "blank c" "blank d"
  shows "apply_lines ((a @ key @ b @ ''='' @ c @ value @ d) # lines) n cfg =
     res_bind (apply_setting cfg key value) (apply_lines lines (n + 1))"
proof -
  let ?line = "key @ b @ ''='' @ c @ value"
  have eq_b: "CHR ''='' \<notin> set b"
    using assms(6) isspace_equals unfolding blank_def list_all_iff by metis
  have line: "trim (a @ ?line @ d) = ?line"
    using assms by (intro trim_padded) (auto simp: token_def last_append)
  have key: "trim (key @ b) = key"
    using trim_padded [of "[]" b key] assms by (simp add: token_def blank_def)
  have val: "trim (c @ value) = value"
    using trim_padded [of c "[]" "value"] assms by (simp add: token_def blank_def)
  have parts: "takeWhile (\<lambda>ch. ch \<noteq> CHR ''='') ?line = key @ b"
    "dropWhile (\<lambda>ch. ch \<noteq> CHR ''='') ?line = CHR ''='' # c @ value"
    using takeWhile_setting [of "key @ b" "c @ value"] assms(2) eq_b by simp_all
  have nonempty: "key \<noteq> []" using assms(1) by (simp add: token_def)
  show ?thesis
    using assms(3) nonempty line
    by (simp add: Let_def key val parts [simplified])
qed

lemma setting_line_witness:
  "apply_lines ['' intra_qp = 7'', ''gop_size=4''] 0 default_configuration =
     res_bind (apply_setting default_configuration ''intra_qp'' ''7'') (apply_lines [''gop_size=4''] 1)"
  using setting_line [of "''intra_qp''" "''7''" "'' ''" "'' ''" "'' ''" "[]" "[''gop_size=4'']" 0
      default_configuration]
  by (simp add: token_def blank_def isspace_def char_code_def)

end
