(* ===== verification/Stats.thy ===== *)
theory Stats
  imports Prelude
begin

text \<open>
  \<^verbatim>\<open>include/nvcr/statistics/statistics.hpp\<close>, \<^verbatim>\<open>src/statistics/statistics.cpp\<close>: the counters. Each
  counter is one atomic that is only added to and read, so a sequence of calls is a sequence of
  additions; durations are the signed 64-bit nanosecond counts. The floating-point rates
  derived from a snapshot are not modelled.
\<close>

record statistics =
  st_frames_encoded :: u64
  st_frames_decoded :: u64
  st_bytes_encoded :: u64
  st_encode_nanoseconds :: i64
  st_decode_nanoseconds :: i64

definition make_statistics :: statistics where
  "make_statistics =
     \<lparr>st_frames_encoded = 0, st_frames_decoded = 0, st_bytes_encoded = 0,
      st_encode_nanoseconds = 0, st_decode_nanoseconds = 0\<rparr>"

definition record_encode :: "nat \<Rightarrow> i64 \<Rightarrow> statistics \<Rightarrow> statistics" where
  "record_encode packet_bytes duration s =
     s\<lparr>st_frames_encoded := st_frames_encoded s + 1,
       st_bytes_encoded := st_bytes_encoded s + word_of_nat packet_bytes,
       st_encode_nanoseconds := st_encode_nanoseconds s + duration\<rparr>"

definition record_decode :: "i64 \<Rightarrow> statistics \<Rightarrow> statistics" where
  "record_decode duration s =
     s\<lparr>st_frames_decoded := st_frames_decoded s + 1,
       st_decode_nanoseconds := st_decode_nanoseconds s + duration\<rparr>"

definition snapshot :: "statistics \<Rightarrow> statistics" where
  "snapshot s =
     \<lparr>st_frames_encoded = st_frames_encoded s, st_frames_decoded = st_frames_decoded s,
      st_bytes_encoded = st_bytes_encoded s, st_encode_nanoseconds = st_encode_nanoseconds s,
      st_decode_nanoseconds = st_decode_nanoseconds s\<rparr>"

definition reset_statistics :: "statistics \<Rightarrow> statistics" where
  "reset_statistics s =
     s\<lparr>st_frames_encoded := 0, st_frames_decoded := 0, st_bytes_encoded := 0,
       st_encode_nanoseconds := 0, st_decode_nanoseconds := 0\<rparr>"

lemma record_commute:
  "record_encode n d (record_decode d' s) = record_decode d' (record_encode n d s)"
  by (simp add: record_encode_def record_decode_def)

end
