(* ===== verification/CodecCore.thy ===== *)
theory CodecCore
  imports SequenceStates AccessUnits Configuration Stats
begin

text \<open>
  The codec core: \<^verbatim>\<open>include/nvcr/codec/backend.hpp\<close> and the encode and decode paths that
  \<open>codec::Runtime\<close> (\<^verbatim>\<open>src/codec/runtime.cpp\<close>) and \<open>dcvcrt::SessionCore\<close>
  (\<^verbatim>\<open>src/dcvcrt/session.cpp\<close>) both contain, from the choice of the frame type to the commit of the
  reference state. The abstract class \<open>CodecBackend\<close> is a parameter: a record of its virtual
  functions over a backend state. Its implementations drive TensorRT or ONNX Runtime. Durations
  measured by the steady clock are arguments, log lines are not modelled.
\<close>

subsection \<open>The backend interface\<close>

record codec_encode_result =
  er_payload :: "byte list"
  er_reconstructed_frame :: frame
  er_latent_state :: "byte list"
  er_effective_qp :: u32

record codec_decode_result =
  dr_frame :: frame
  dr_latent_state :: "byte list"

record 'b codec_backend =
  be_initialize :: "runtime_configuration \<Rightarrow> 'b \<Rightarrow> unit result \<times> 'b"
  be_encode :: "frame \<Rightarrow> frame_type \<Rightarrow> sequence_state_view \<Rightarrow> 'b \<Rightarrow> codec_encode_result result \<times> 'b"
  be_decode :: "byte list \<Rightarrow> frame_type \<Rightarrow> timestamp \<Rightarrow> sequence_state_view \<Rightarrow> 'b
    \<Rightarrow> codec_decode_result result \<times> 'b"
  be_flush :: "'b \<Rightarrow> unit result \<times> 'b"
  be_reset :: "'b \<Rightarrow> 'b"
  be_reset_encoder :: "'b \<Rightarrow> 'b"
  be_reset_decoder :: "'b \<Rightarrow> 'b"

subsection \<open>State\<close>

record 'b session_core =
  sc_configuration :: runtime_configuration
  sc_backend :: 'b
  sc_encoder_state :: sequence_state
  sc_decoder_state :: sequence_state
  sc_statistics :: statistics
  sc_initialized :: bool

definition make_session_core :: "runtime_configuration \<Rightarrow> 'b \<Rightarrow> 'b session_core" where
  "make_session_core configuration backend =
     \<lparr>sc_configuration = configuration, sc_backend = backend,
      sc_encoder_state = make_sequence_state (cc_gop_size (codec configuration)),
      sc_decoder_state = make_sequence_state (cc_gop_size (codec configuration)),
      sc_statistics = make_statistics, sc_initialized = False\<rparr>"

definition dcvcrt_error :: "error_code \<Rightarrow> string \<Rightarrow> error" where
  "dcvcrt_error c msg = Error c msg ''dcvcrt''"

definition packet_limit :: "'b session_core \<Rightarrow> nat" where
  "packet_limit core = unat (ro_max_packet_bytes (runtime (sc_configuration core)))"

definition stream_model_id :: "'b session_core \<Rightarrow> string" where
  "stream_model_id core = sp_bitstream_model_id (stream (sc_configuration core))"

subsection \<open>Encoding one frame\<close>

definition encode_frame ::
  "'b codec_backend \<Rightarrow> (nat \<Rightarrow> bool) \<Rightarrow> i64 \<Rightarrow> frame \<Rightarrow> 'b session_core \<Rightarrow> packet result \<times> 'b session_core"
  where
  "encode_frame be alloc elapsed frame core =
     (if size_bytes frame = 0 then
        (Inl (dcvcrt_error invalid_argument ''cannot encode an empty frame''), core)
      else
      case next_frame_type (sc_encoder_state core) of
        Inl e \<Rightarrow> (Inl e, core)
      | Inr frame_type \<Rightarrow>
        (let (result, backend) = be_encode be frame frame_type (view (sc_encoder_state core))
               (sc_backend core);
             core = core\<lparr>sc_backend := backend\<rparr> in
         case result of
           Inl e \<Rightarrow> (Inl e, core)
         | Inr encoded \<Rightarrow>
           (let access_unit = make_access_unit (stream_model_id core) (fr_width frame)
                  (fr_height frame) (er_effective_qp encoded) frame_type (frame_type = intra)
                  (er_payload encoded) in
            case au_serialize alloc access_unit (packet_limit core) of
              Inl e \<Rightarrow> (Inl e, core)
            | Inr serialized \<Rightarrow>
              (let packet = make_packet serialized (fr_timestamp frame) frame_type [] in
               case commit (er_reconstructed_frame encoded) (er_latent_state encoded) frame_type
                      (sc_encoder_state core) of
                 Inl e \<Rightarrow> (Inl e, core)
               | Inr state \<Rightarrow>
                 (Inr packet,
                  core\<lparr>sc_encoder_state := state,
                       sc_statistics := record_encode (length (pk_bytes packet)) elapsed
                         (sc_statistics core)\<rparr>)))))"

subsection \<open>Decoding one packet\<close>

text \<open>
  \<open>unwrap_packet\<close> is the part of \<open>decode\<close> that opens the access unit (or accepts a legacy
  payload) and resets the decoder state on a resetting unit; \<open>finish_decode\<close> is what follows
  the backend call.
\<close>

definition unwrap_packet ::
  "(nat \<Rightarrow> bool) \<Rightarrow> packet \<Rightarrow> 'b session_core
     \<Rightarrow> (access_unit option \<times> byte list) result \<times> 'b session_core" where
  "unwrap_packet alloc packet core =
     (if length (pk_bytes packet) > packet_limit core then
        (Inl (dcvcrt_error resource_exhausted ''packet exceeds configured limit''), core)
      else if has_magic (pk_bytes packet) then
        (case au_deserialize alloc (pk_bytes packet) (packet_limit core) of
           Inl e \<Rightarrow> (Inl e, core)
         | Inr parsed \<Rightarrow>
           if au_model_id parsed \<noteq> stream_model_id core then
             (Inl (dcvcrt_error malformed_bitstream
                ''access-unit model identity does not match the configured bundle''), core)
           else if au_frame_type parsed \<noteq> pk_frame_type packet then
             (Inl (dcvcrt_error malformed_bitstream
                ''packet and access-unit frame types disagree''), core)
           else
             (Inr (Some parsed, au_payload parsed),
              if au_reset_state parsed
              then core\<lparr>sc_decoder_state := reset_state (sc_decoder_state core)\<rparr>
              else core))
      else if \<not> sp_allow_legacy_access_units (stream (sc_configuration core)) then
        (Inl (dcvcrt_error malformed_bitstream ''legacy codec payload rejected by configuration''),
         core)
      else (Inr (None, pk_bytes packet), core))"

definition finish_decode ::
  "(nat \<Rightarrow> bool) \<Rightarrow> i64 \<Rightarrow> packet \<Rightarrow> access_unit option \<Rightarrow> codec_decode_result \<Rightarrow> 'b session_core
     \<Rightarrow> frame result \<times> 'b session_core" where
  "finish_decode alloc elapsed packet access_unit decoded core =
     (let output = dr_frame decoded in
      if (case access_unit of
            Some unit \<Rightarrow> fr_width output \<noteq> au_width unit \<or> fr_height output \<noteq> au_height unit
          | None \<Rightarrow> False) then
        (Inl (dcvcrt_error malformed_bitstream ''decoded dimensions do not match the access unit''),
         core)
      else
      case frame_copy_from alloc (fr_width output) (fr_height output) (fr_format output)
             (fr_data output) (fr_timestamp output) of
        Inl e \<Rightarrow> (Inl e, core)
      | Inr reference \<Rightarrow>
        (case commit reference (dr_latent_state decoded) (pk_frame_type packet)
                (sc_decoder_state core) of
           Inl e \<Rightarrow> (Inl e, core)
         | Inr state \<Rightarrow>
           (Inr output,
            core\<lparr>sc_decoder_state := state,
                 sc_statistics := record_decode elapsed (sc_statistics core)\<rparr>)))"

definition decode_packet ::
  "'b codec_backend \<Rightarrow> (nat \<Rightarrow> bool) \<Rightarrow> i64 \<Rightarrow> packet \<Rightarrow> 'b session_core \<Rightarrow> frame result \<times> 'b session_core"
  where
  "decode_packet be alloc elapsed packet core =
     (let (unwrapped, core) = unwrap_packet alloc packet core in
      case unwrapped of
        Inl e \<Rightarrow> (Inl e, core)
      | Inr (access_unit, codec_payload) \<Rightarrow>
        (case validate_packet (pk_frame_type packet) (sc_decoder_state core) of
           Inl e \<Rightarrow> (Inl e, core)
         | Inr _ \<Rightarrow>
           (let (result, backend) = be_decode be codec_payload (pk_frame_type packet)
                  (pk_timestamp packet) (view (sc_decoder_state core)) (sc_backend core);
                core = core\<lparr>sc_backend := backend\<rparr> in
            case result of
              Inl e \<Rightarrow> (Inl e, core)
            | Inr decoded \<Rightarrow> finish_decode alloc elapsed packet access_unit decoded core)))"

end
