(* ===== verification/CodecLockstep.thy ===== *)
theory CodecLockstep
  imports CodecCore
begin

text \<open>
  The encoder and the decoder of the codec core stay in step. What the core relies on of a
  \<open>CodecBackend\<close> is the predicate \<open>backend_mirrors\<close>: decoding what \<open>encode\<close> produced
  reproduces the encoder's reconstruction and latent state when both sides see the same
  reference, and intra payloads do not look at the state. From it follows that every stream the
  encoder emits decodes, frame by frame, to the encoder's own reconstructions.
\<close>

subsection \<open>Synchronised sequence states\<close>

definition seq_sync :: "sequence_state \<Rightarrow> sequence_state \<Rightarrow> bool" where
  "seq_sync e d \<longleftrightarrow>
     seq_ok e \<and> seq_ok d \<and> ss_gop_size e \<noteq> 0 \<and> ss_gop_size d = ss_gop_size e
     \<and> ss_has_reference d = ss_has_reference e
     \<and> ss_reference_frame d = ss_reference_frame e \<and> ss_latent_state d = ss_latent_state e
     \<and> unat (ss_frame_index d) =
         (if unat (ss_frame_index e) = 0 then 0
          else (unat (ss_frame_index e) - 1) mod unat (ss_gop_size e) + 1)"

lemma seq_sync_start: "g \<noteq> 0 \<Longrightarrow> seq_sync (make_sequence_state g) (make_sequence_state g)"
  by (simp add: seq_sync_def) (simp add: make_sequence_state_def)

lemma seq_sync_position:
  assumes "seq_sync e d" "next_frame_type e = Inr predicted"
  shows "unat (ss_frame_index d) = unat (ss_frame_index e) mod unat (ss_gop_size e)"
proof -
  let ?n = "unat (ss_frame_index e)" and ?g = "unat (ss_gop_size e)"
  have "?n mod ?g \<noteq> 0"
    using assms next_frame_type_cadence [of e "ss_gop_size e"]
    by (auto simp: seq_sync_def cadence_def split: if_splits)
  moreover from this have "?n \<noteq> 0" by (metis mod_0)
  moreover have "(m - 1) mod g + 1 = m mod g" if "m mod g \<noteq> 0" for m g :: nat
    using that by (cases m) (simp_all add: mod_Suc split: if_splits)
  ultimately show ?thesis
    using assms(1) by (simp add: seq_sync_def)
qed

lemma seq_sync_view:
  assumes "seq_sync e d" "next_frame_type e = Inr predicted"
  shows "vw_reference_frame (view d) = vw_reference_frame (view e)"
    "vw_latent_state (view d) = vw_latent_state (view e)"
    "vw_gop_position (view d) = vw_gop_position (view e)"
proof -
  have "unat (ss_frame_index d mod ucast (ss_gop_size e)) =
      unat (ss_frame_index e mod ucast (ss_gop_size e))"
    using seq_sync_position [OF assms] by (simp flip: unat_mod_gop)
  then have "ss_frame_index d mod ucast (ss_gop_size e) = ss_frame_index e mod ucast (ss_gop_size e)"
    by (simp add: word_unat_eq_iff)
  then show "vw_gop_position (view d) = vw_gop_position (view e)"
    using assms(1) by (simp add: view_def seq_sync_def)
qed (use assms in \<open>simp_all add: view_def seq_sync_def\<close>)

lemma seq_sync_commit:
  assumes sync: "seq_sync e d" and next_type: "next_frame_type e = Inr t"
    and e': "commit f latent t e = Inr e'"
    and small: "unat (ss_frame_index e) + 1 < 2 ^ 64"
  shows "\<exists>d'. commit f latent t (if t = intra then reset_state d else d) = Inr d' \<and> seq_sync e' d'"
proof -
  let ?n = "unat (ss_frame_index e)" and ?g = "unat (ss_gop_size e)"
  have g: "?g \<noteq> 0" "?g < 2 ^ 32"
    using sync unsigned_less [of "ss_gop_size e", where ?'a = nat]
    by (auto simp: seq_sync_def word_unat_eq_iff)
  have n': "unat (ss_frame_index e + 1) = ?n + 1"
    using small by (simp add: unat_word_ariths)
  show ?thesis
  proof (cases t)
    case intra
    have "?n mod ?g = 0"
      using sync next_type intra next_frame_type_cadence [of e "ss_gop_size e"]
      by (auto simp: seq_sync_def cadence_def split: if_splits)
    with e' sync n' show ?thesis
      unfolding seq_sync_def
      by (auto simp: intra commit_iff reset_state_def seq_ok_def)
  next
    case predicted
    have d: "unat (ss_frame_index d) = ?n mod ?g"
      using seq_sync_position [OF sync] next_type predicted by simp
    then have "unat (ss_frame_index d) < ?g" using g by simp
    then have "unat (ss_frame_index d) + 1 < 2 ^ 64" using g by simp
    then have d': "unat (ss_frame_index d + 1) = ?n mod ?g + 1"
      using d by (simp add: unat_word_ariths)
    from e' sync n' d' show ?thesis
      unfolding seq_sync_def
      by (auto simp: predicted commit_iff seq_ok_def)
  qed
qed

subsection \<open>What the core asks of a backend\<close>

definition well_formed_frame :: "frame \<Rightarrow> bool" where
  "well_formed_frame f \<longleftrightarrow>
     (case frame_size_bytes (fr_width f) (fr_height f) (fr_format f) of
        Inl _ \<Rightarrow> False | Inr n \<Rightarrow> length (fr_data f) = unat n)"

lemma frame_copy_same:
  assumes "well_formed_frame f" "\<And>n. alloc n"
  shows "frame_copy_from alloc (fr_width f) (fr_height f) (fr_format f) (fr_data f)
     (fr_timestamp f) = Inr f"
  using assms by (auto simp: well_formed_frame_def frame_copy_from_def split: sum.splits)

definition same_reference :: "sequence_state_view \<Rightarrow> sequence_state_view \<Rightarrow> bool" where
  "same_reference v w \<longleftrightarrow> vw_reference_frame v = vw_reference_frame w
     \<and> vw_latent_state v = vw_latent_state w \<and> vw_gop_position v = vw_gop_position w"

definition mirrors_result ::
  "('b \<Rightarrow> 'b \<Rightarrow> bool) \<Rightarrow> frame \<Rightarrow> codec_encode_result \<Rightarrow> 'b \<Rightarrow> codec_decode_result result \<times> 'b \<Rightarrow> bool"
  where
  "mirrors_result rel f r b' decoded \<longleftrightarrow>
     (case decoded of
        (Inl _, _) \<Rightarrow> False
      | (Inr dr, d') \<Rightarrow> rel b' d' \<and> dr_frame dr = er_reconstructed_frame r
          \<and> dr_latent_state dr = er_latent_state r \<and> well_formed_frame (dr_frame dr)
          \<and> fr_width (dr_frame dr) = fr_width f \<and> fr_height (dr_frame dr) = fr_height f)"

definition backend_mirrors :: "'b codec_backend \<Rightarrow> ('b \<Rightarrow> 'b \<Rightarrow> bool) \<Rightarrow> bool" where
  "backend_mirrors be rel \<longleftrightarrow>
     (\<forall>f t v w b b' d r. be_encode be f t v b = (Inr r, b') \<and> rel b d
        \<and> (t = predicted \<longrightarrow> same_reference v w) \<longrightarrow>
        mirrors_result rel f r b' (be_decode be (er_payload r) t (fr_timestamp f) w d))"

definition core_sync :: "('b \<Rightarrow> 'b \<Rightarrow> bool) \<Rightarrow> 'b session_core \<Rightarrow> 'b session_core \<Rightarrow> bool" where
  "core_sync rel e d \<longleftrightarrow>
     seq_sync (sc_encoder_state e) (sc_decoder_state d) \<and> rel (sc_backend e) (sc_backend d)
     \<and> stream_model_id d = stream_model_id e \<and> packet_limit d = packet_limit e"

subsection \<open>One frame\<close>

lemma encode_frame_Inr:
  assumes "encode_frame be alloc elapsed f core = (Inr p, core')"
  obtains t r b bs st where
    "next_frame_type (sc_encoder_state core) = Inr t"
    "be_encode be f t (view (sc_encoder_state core)) (sc_backend core) = (Inr r, b)"
    "au_serialize alloc (make_access_unit (stream_model_id core) (fr_width f) (fr_height f)
       (er_effective_qp r) t (t = intra) (er_payload r)) (packet_limit core) = Inr bs"
    "commit (er_reconstructed_frame r) (er_latent_state r) t (sc_encoder_state core) = Inr st"
    "p = make_packet bs (fr_timestamp f) t []"
    "core' = core\<lparr>sc_backend := b, sc_encoder_state := st,
       sc_statistics := record_encode (length bs) elapsed (sc_statistics core)\<rparr>"
  using assms
  by (auto simp: encode_frame_def make_packet_def stream_model_id_def packet_limit_def Let_def
        split: if_splits sum.splits prod.splits)

lemma unwrap_serialized:
  assumes "au_serialize alloc au (packet_limit core) = Inr bs" "\<And>n. alloc n"
    and "au_model_id au = stream_model_id core" "au_frame_type au = t"
    and "pk_bytes p = bs" "pk_frame_type p = t"
  shows "unwrap_packet alloc p core =
     (Inr (Some (v1_core au), au_payload au),
      if t = intra then core\<lparr>sc_decoder_state := reset_state (sc_decoder_state core)\<rparr> else core)"
proof -
  from assms(1) [unfolded au_serialize_iff]
  have valid: "validate_v1_fields au = Inr ()" and bs: "bs = v1_layout au"
    and limit: "length bs \<le> packet_limit core" and payload: "length (au_payload au) < 2 ^ 64"
    by blast+
  have read: "au_deserialize alloc (v1_layout au) (packet_limit core) = Inr (v1_core au)"
    using v1_layout_read [OF valid] limit payload assms(2) bs by blast
  have magic: "has_magic (v1_layout au)" by (simp add: v1_layout_def)
  have core: "au_model_id (v1_core au) = au_model_id au" "au_payload (v1_core au) = au_payload au"
    "au_frame_type (v1_core au) = au_frame_type au" "au_reset_state (v1_core au) = au_reset_state au"
    by (simp_all add: v1_core_def make_access_unit_def)
  show ?thesis
    using limit validate_common_ok(4) [OF valid [unfolded validate_v1_fields_def]] assms(3-6)
    by (simp add: unwrap_packet_def bs magic read core not_less)
qed

lemma decode_unwrapped:
  assumes "unwrap_packet alloc p d = (Inr (Some au, payload), d0)"
    and "commit (dr_frame dr) (dr_latent_state dr) (pk_frame_type p) (sc_decoder_state d0) = Inr sd"
    and "be_decode be payload (pk_frame_type p) (pk_timestamp p) (view (sc_decoder_state d0))
      (sc_backend d0) = (Inr dr, b)"
    and "well_formed_frame (dr_frame dr)" "\<And>n. alloc n"
    and "fr_width (dr_frame dr) = au_width au" "fr_height (dr_frame dr) = au_height au"
  shows "decode_packet be alloc elapsed p d =
     (Inr (dr_frame dr), d0\<lparr>sc_backend := b, sc_decoder_state := sd,
        sc_statistics := record_decode elapsed (sc_statistics d0)\<rparr>)"
proof -
  have "validate_packet (pk_frame_type p) (sc_decoder_state d0) = Inr ()"
    using assms(2) by (auto simp: validate_packet_def commit_iff)
  then show ?thesis
    using assms(1-4,6,7) frame_copy_same [OF assms(4,5)]
    by (simp add: decode_packet_def finish_decode_def Let_def)
qed

lemma lockstep_frame:
  assumes mirrors: "backend_mirrors be rel" and alloc: "\<And>n. alloc n"
    and sync: "core_sync rel e d"
    and enc: "encode_frame be alloc elapsed f e = (Inr p, e')"
    and small: "unat (ss_frame_index (sc_encoder_state e)) + 1 < 2 ^ 64"
  shows "\<exists>out d'. decode_packet be alloc elapsed' p d = (Inr out, d') \<and> core_sync rel e' d'
     \<and> fr_width out = fr_width f \<and> fr_height out = fr_height f
     \<and> (size_bytes out \<noteq> 0 \<longrightarrow> ss_reference_frame (sc_encoder_state e') = Some out)
     \<and> unat (ss_frame_index (sc_encoder_state e')) = unat (ss_frame_index (sc_encoder_state e)) + 1"
proof -
  from enc obtain t r b bs st where
      next_type: "next_frame_type (sc_encoder_state e) = Inr t"
    and be: "be_encode be f t (view (sc_encoder_state e)) (sc_backend e) = (Inr r, b)"
    and ser: "au_serialize alloc (make_access_unit (stream_model_id e) (fr_width f) (fr_height f)
       (er_effective_qp r) t (t = intra) (er_payload r)) (packet_limit e) = Inr bs"
    and st: "commit (er_reconstructed_frame r) (er_latent_state r) t (sc_encoder_state e) = Inr st"
    and p: "p = make_packet bs (fr_timestamp f) t []"
    and e': "e' = e\<lparr>sc_backend := b, sc_encoder_state := st,
       sc_statistics := record_encode (length bs) elapsed (sc_statistics e)\<rparr>"
    by (rule encode_frame_Inr)
  let ?au = "make_access_unit (stream_model_id e) (fr_width f) (fr_height f)
    (er_effective_qp r) t (t = intra) (er_payload r)"
  define d0 where
    "d0 = (if t = intra then d\<lparr>sc_decoder_state := reset_state (sc_decoder_state d)\<rparr> else d)"
  have seq: "seq_sync (sc_encoder_state e) (sc_decoder_state d)" and rel: "rel (sc_backend e) (sc_backend d0)"
    and ids: "stream_model_id d = stream_model_id e" "packet_limit d = packet_limit e"
    "stream_model_id d0 = stream_model_id e" "packet_limit d0 = packet_limit e"
    using sync by (simp_all add: core_sync_def d0_def stream_model_id_def packet_limit_def)
  have unwrap: "unwrap_packet alloc p d = (Inr (Some (v1_core ?au), er_payload r), d0)"
    using unwrap_serialized [of alloc ?au d bs t p] ser ids alloc
    by (simp add: p make_packet_def make_access_unit_def d0_def)
  have "t = predicted \<longrightarrow> same_reference (view (sc_encoder_state e)) (view (sc_decoder_state d0))"
    using seq_sync_view [OF seq] next_type by (simp add: same_reference_def d0_def)
  with mirrors be rel
  have "mirrors_result rel f r b (be_decode be (er_payload r) t (fr_timestamp f)
      (view (sc_decoder_state d0)) (sc_backend d0))"
    unfolding backend_mirrors_def by blast
  then obtain dr d1 where
      dec: "be_decode be (er_payload r) t (fr_timestamp f) (view (sc_decoder_state d0)) (sc_backend d0)
        = (Inr dr, d1)"
    and out: "rel b d1" "dr_frame dr = er_reconstructed_frame r" "dr_latent_state dr = er_latent_state r"
      "well_formed_frame (dr_frame dr)" "fr_width (dr_frame dr) = fr_width f"
      "fr_height (dr_frame dr) = fr_height f"
    by (auto simp: mirrors_result_def split: prod.splits sum.splits)
  from seq_sync_commit [OF seq next_type st small] obtain sd where
      sd: "commit (dr_frame dr) (dr_latent_state dr) t (sc_decoder_state d0) = Inr sd"
    and seq': "seq_sync st sd"
    by (auto simp: d0_def out(2,3) split: if_splits)
  have decoded: "decode_packet be alloc elapsed' p d =
      (Inr (dr_frame dr), d0\<lparr>sc_backend := d1, sc_decoder_state := sd,
         sc_statistics := record_decode elapsed' (sc_statistics d0)\<rparr>)"
    using unwrap dec sd out alloc
    by (intro decode_unwrapped) (auto simp: p make_packet_def v1_core_def make_access_unit_def)
  have index: "unat (ss_frame_index st) = unat (ss_frame_index (sc_encoder_state e)) + 1"
    "size_bytes (dr_frame dr) \<noteq> 0 \<longrightarrow> ss_reference_frame st = Some (dr_frame dr)"
    using st small by (auto simp: commit_iff unat_word_ariths out(2))
  show ?thesis
    using decoded seq' out(1,5,6) ids index
    by (auto simp: e' core_sync_def stream_model_id_def packet_limit_def)
qed

subsection \<open>A stream\<close>

fun encode_stream :: "'b codec_backend \<Rightarrow> (nat \<Rightarrow> bool) \<Rightarrow> frame list \<Rightarrow> 'b session_core
    \<Rightarrow> (packet list \<times> 'b session_core) result" where
  "encode_stream be alloc [] core = Inr ([], core)"
| "encode_stream be alloc (f # fs) core =
     (case encode_frame be alloc 0 f core of
        (Inl e, _) \<Rightarrow> Inl e
      | (Inr p, core) \<Rightarrow>
          res_bind (encode_stream be alloc fs core) (\<lambda>(ps, core). Inr (p # ps, core)))"

fun decode_stream :: "'b codec_backend \<Rightarrow> (nat \<Rightarrow> bool) \<Rightarrow> packet list \<Rightarrow> 'b session_core
    \<Rightarrow> (frame list \<times> 'b session_core) result" where
  "decode_stream be alloc [] core = Inr ([], core)"
| "decode_stream be alloc (p # ps) core =
     (case decode_packet be alloc 0 p core of
        (Inl e, _) \<Rightarrow> Inl e
      | (Inr f, core) \<Rightarrow>
          res_bind (decode_stream be alloc ps core) (\<lambda>(fs, core). Inr (f # fs, core)))"

definition same_dimensions :: "frame \<Rightarrow> frame \<Rightarrow> bool" where
  "same_dimensions f g \<longleftrightarrow> fr_width f = fr_width g \<and> fr_height f = fr_height g"

lemma lockstep_frames:
  assumes "backend_mirrors be rel" "\<And>n. alloc n"
    and "core_sync rel e d"
    and "encode_stream be alloc fs e = Inr (ps, e')"
    and "unat (ss_frame_index (sc_encoder_state e)) + length fs < 2 ^ 64"
  shows "\<exists>outs d'. decode_stream be alloc ps d = Inr (outs, d') \<and> core_sync rel e' d'
     \<and> list_all2 same_dimensions fs outs"
  using assms(3-5)
proof (induction fs arbitrary: e d ps)
  case Nil
  then show ?case by auto
next
  case (Cons f fs)
  from Cons.prems(2) obtain p e1 ps1 where
      enc: "encode_frame be alloc 0 f e = (Inr p, e1)"
    and tl: "encode_stream be alloc fs e1 = Inr (ps1, e')" and ps: "ps = p # ps1"
    by (auto simp: result_simps split: prod.splits sum.splits)
  have "unat (ss_frame_index (sc_encoder_state e)) + 1 < 2 ^ 64" using Cons.prems(3) by simp
  from lockstep_frame [OF assms(1,2) Cons.prems(1) enc this, of 0] obtain out d1 where
      dec: "decode_packet be alloc 0 p d = (Inr out, d1)" and sync: "core_sync rel e1 d1"
    and dims: "same_dimensions f out"
    and idx: "unat (ss_frame_index (sc_encoder_state e1)) = unat (ss_frame_index (sc_encoder_state e)) + 1"
    unfolding same_dimensions_def by metis
  have "unat (ss_frame_index (sc_encoder_state e1)) + length fs < 2 ^ 64"
    using Cons.prems(3) idx by simp
  from Cons.IH [OF sync tl this] obtain outs d' where
      "decode_stream be alloc ps1 d1 = Inr (outs, d')" "core_sync rel e' d'"
      "list_all2 same_dimensions fs outs"
    by blast
  with dec dims ps show ?case by auto
qed


text \<open>A backend that stores 2x2 pictures, to see the hypotheses hold.\<close>

definition raw_backend :: "unit codec_backend" where
  "raw_backend =
     \<lparr>be_initialize = \<lambda>_ b. (Inr (), b),
      be_encode = \<lambda>f t v b.
        if fr_width f = 2 \<and> fr_height f = 2 \<and> fr_format f = yuv420p8 \<and> length (fr_data f) = 6
        then (Inr \<lparr>er_payload = fr_data f, er_reconstructed_frame = f, er_latent_state = [],
                er_effective_qp = 10\<rparr>, b)
        else (Inl (Error backend_error ''unsupported'' ''raw''), b),
      be_decode = \<lambda>payload t ts v b.
        (Inr \<lparr>dr_frame = \<lparr>fr_width = 2, fr_height = 2, fr_format = yuv420p8, fr_timestamp = ts,
           fr_data = payload\<rparr>, dr_latent_state = []\<rparr>, b),
      be_flush = \<lambda>b. (Inr (), b), be_reset = id, be_reset_encoder = id, be_reset_decoder = id\<rparr>"

definition tiny_frame :: "byte \<Rightarrow> frame" where
  "tiny_frame x = \<lparr>fr_width = 2, fr_height = 2, fr_format = yuv420p8, fr_timestamp = 9,
     fr_data = replicate 6 x\<rparr>"

lemma raw_backend_mirrors: "backend_mirrors raw_backend (\<lambda>_ _. True)"
  by (auto simp: backend_mirrors_def raw_backend_def mirrors_result_def well_formed_frame_def
        frame_size_bytes_def checked_pixels_def Let_def split: if_splits)

lemma tiny_serialized:
  "\<exists>bs. au_serialize (\<lambda>_. True) (make_access_unit ''dcvcrt'' 2 2 10 t (t = intra) (replicate 6 x))
     67108864 = Inr bs"
  by (simp add: au_serialize_iff validate_v1_fields_def validate_common_fields_def
        valid_model_id_def valid_identifier_def identifier_char_def isalnum_def isdigit_def
        isupper_def islower_def char_code_def au_constants make_access_unit_def v1_layout_def)

lemma raw_stream_encodes:
  "\<exists>ps e. encode_stream raw_backend (\<lambda>_. True) [tiny_frame 1, tiny_frame 2]
     ((make_session_core default_configuration ())\<lparr>sc_initialized := i\<rparr>) = Inr (ps, e)"
proof -
  obtain bs1 bs2 where
    "au_serialize (\<lambda>_. True) (make_access_unit ''dcvcrt'' 2 2 10 intra True (replicate 6 1)) 67108864 = Inr bs1"
    "au_serialize (\<lambda>_. True) (make_access_unit ''dcvcrt'' 2 2 10 predicted False (replicate 6 2)) 67108864 = Inr bs2"
    using tiny_serialized [of intra 1] tiny_serialized [of predicted 2] by auto
  then show ?thesis
    by (simp add: encode_frame_def tiny_frame_def raw_backend_def make_session_core_def
          default_configuration_def default_stream_policy_def default_runtime_options_def
          default_codec_configuration_def stream_model_id_def packet_limit_def size_bytes_def
          next_frame_type_def make_sequence_state_def commit_def Let_def)
qed


end
