(* ===== verification/SessionApi.thy ===== *)
theory SessionApi
  imports Errors
begin

text \<open>
  The contract of \<^verbatim>\<open>include/nvcr/codec/session.hpp\<close>, shared by \<open>IEncoderSession\<close> and
  \<open>IDecoderSession\<close>: inputs are sent, outputs are received in order, \<open>flush\<close> ends the input
  and leaves the outputs to be drained up to \<open>end_of_stream\<close>, \<open>reset\<close> starts over. A session
  is its operations on a session state, with the queue of undelivered outputs and the flushed
  flag as observations.
\<close>

datatype 'i session_op = Send 'i | Receive | Flush

text \<open>Any sequence of calls, with the outputs it delivered.\<close>

fun run_session :: "('i \<Rightarrow> 's \<Rightarrow> unit result \<times> 's) \<Rightarrow> ('s \<Rightarrow> 'o result \<times> 's) \<Rightarrow> ('s \<Rightarrow> unit result \<times> 's)
    \<Rightarrow> 'i session_op list \<Rightarrow> 's \<Rightarrow> 'o list \<times> 's" where
  "run_session send receive flush [] s = ([], s)"
| "run_session send receive flush (Send i # ops) s =
     run_session send receive flush ops (snd (send i s))"
| "run_session send receive flush (Flush # ops) s =
     run_session send receive flush ops (snd (flush s))"
| "run_session send receive flush (Receive # ops) s =
     (case receive s of
        (Inl _, s) \<Rightarrow> run_session send receive flush ops s
      | (Inr x, s) \<Rightarrow> (let (xs, s) = run_session send receive flush ops s in (x # xs, s)))"

text \<open>Inputs sent one after another, up to the first that is refused.\<close>

fun send_all :: "('i \<Rightarrow> 's \<Rightarrow> unit result \<times> 's) \<Rightarrow> 'i list \<Rightarrow> 's \<Rightarrow> unit result \<times> 's" where
  "send_all send [] s = (Inr (), s)"
| "send_all send (i # is) s = and_then (send i) (\<lambda>_. send_all send is) s"

lemma send_all_append: "send_all send (is @ js) s = and_then (send_all send is) (\<lambda>_. send_all send js) s"
  by (induction "is" arbitrary: s) (auto simp: and_then_def split: prod.split sum.split)

lemma send_all_induct:
  assumes "send_all send is s = (Inr (), s')" "P [] s"
    and "\<And>js i s s'. P js s \<Longrightarrow> i \<in> set is \<Longrightarrow> length js < length is \<Longrightarrow> send i s = (Inr (), s') \<Longrightarrow> P (js @ [i]) s'"
  shows "P is s'"
proof -
  have "send_all send ks s = (Inr (), s') \<Longrightarrow> is = js @ ks \<Longrightarrow> P js s \<Longrightarrow> P is s'" for js ks s
  proof (induction ks arbitrary: js s)
    case (Cons k ks)
    from Cons.prems(1) obtain s1 where "send k s = (Inr (), s1)" "send_all send ks s1 = (Inr (), s')"
      by (auto simp: and_then_Inr)
    then show ?case using Cons.IH [of s1 "js @ [k]"] assms(3) [of js s k s1] Cons.prems(2,3) by simp
  qed simp
  then show ?thesis using assms(1,2) by (metis append_Nil)
qed

lemma run_session_keeps:
  assumes "\<And>i s. obs (snd (send i s)) = obs s" "\<And>s. obs (snd (receive s)) = obs s" "\<And>s. obs (snd (flush s)) = obs s"
  shows "obs (snd (run_session send receive flush ops s)) = obs s"
proof (induction ops arbitrary: s)
  case (Cons op ops)
  show ?case
  proof (cases op)
    case Receive
    then show ?thesis using assms(2) [of s] Cons.IH
      by (auto simp: Let_def case_prod_beta split: sum.split)
  qed (simp_all add: Cons.IH assms)
qed simp

locale ordered_session =
  fixes send :: "'i \<Rightarrow> 's \<Rightarrow> unit result \<times> 's"
    and receive :: "'s \<Rightarrow> 'o result \<times> 's"
    and flush :: "'s \<Rightarrow> unit result \<times> 's"
    and reset :: "'s \<Rightarrow> unit result \<times> 's"
    and outputs :: "'s \<Rightarrow> 'o list"
    and flushed :: "'s \<Rightarrow> bool"
  assumes receive_ready: "outputs s = x # xs \<Longrightarrow>
      \<exists>s'. receive s = (Inr x, s') \<and> outputs s' = xs \<and> flushed s' = flushed s"
    and receive_empty: "outputs s = [] \<Longrightarrow>
      \<exists>e. receive s = (Inl e, s) \<and> code e = (if flushed s then end_of_stream else try_again)"
    and send_appends: "send i s = (Inr (), s') \<Longrightarrow>
      \<not> flushed s \<and> flushed s' = flushed s \<and> (\<exists>new. outputs s' = outputs s @ new)"
    and send_error: "send i s = (Inl e, s') \<Longrightarrow> outputs s' = outputs s \<and> flushed s' = flushed s"
    and flush_keeps: "flush s = (Inr (), s') \<Longrightarrow>
      flushed s' \<and> (\<exists>new. outputs s' = outputs s @ new)"
    and flush_error: "flush s = (Inl e, s') \<Longrightarrow> outputs s' = outputs s \<and> flushed s' = flushed s"
    and reset_clears: "reset s = (Inr (), s') \<Longrightarrow> outputs s' = [] \<and> \<not> flushed s'"
begin

abbreviation run :: "'i session_op list \<Rightarrow> 's \<Rightarrow> 'o list \<times> 's" where
  "run \<equiv> run_session send receive flush"

lemma send_extends: "\<exists>new. outputs (snd (send i s)) = outputs s @ new"
proof (cases "send i s")
  case (Pair r s')
  show ?thesis
  proof (cases r)
    case (Inl e)
    then show ?thesis using send_error [of i s e s'] Pair by simp
  next
    case (Inr u)
    then show ?thesis using send_appends [of i s s'] Pair by simp
  qed
qed

lemma flush_extends: "\<exists>new. outputs (snd (flush s)) = outputs s @ new"
proof (cases "flush s")
  case (Pair r s')
  show ?thesis
  proof (cases r)
    case (Inl e)
    then show ?thesis using flush_error [of s e s'] Pair by simp
  next
    case (Inr u)
    then show ?thesis using flush_keeps [of s s'] Pair by simp
  qed
qed

lemma run_fifo:
  "\<exists>new. outputs s @ new = fst (run ops s) @ outputs (snd (run ops s))"
proof (induction ops arbitrary: s)
  case Nil
  then show ?case by simp
next
  case (Cons op ops)
  show ?case
  proof (cases op)
    case (Send i)
    obtain a where "outputs (snd (send i s)) = outputs s @ a" using send_extends by blast
    with Cons.IH [of "snd (send i s)"] show ?thesis using Send by (metis append_assoc run_session.simps(2))
  next
    case Flush
    obtain a where "outputs (snd (flush s)) = outputs s @ a" using flush_extends by blast
    with Cons.IH [of "snd (flush s)"] show ?thesis using Flush by (metis append_assoc run_session.simps(3))
  next
    case Receive
    show ?thesis
    proof (cases "outputs s")
      case Nil
      then obtain e where "receive s = (Inl e, s)" using receive_empty by blast
      then show ?thesis using Cons.IH [of s] Receive by simp
    next
      case (Cons x xs)
      then obtain s' where s': "receive s = (Inr x, s')" "outputs s' = xs"
        using receive_ready by blast
      obtain new where "xs @ new = fst (run ops s') @ outputs (snd (run ops s'))"
        using Cons.IH [of s'] s' by auto
      then show ?thesis
        using Receive s' Cons by (intro exI [of _ new]) (simp add: case_prod_beta Let_def)
    qed
  qed
qed

lemma drain:
  assumes "flushed s"
  shows "\<exists>s'. run (replicate (length (outputs s)) Receive) s = (outputs s, s')
     \<and> outputs s' = [] \<and> flushed s'
     \<and> (\<exists>e. receive s' = (Inl e, s') \<and> code e = end_of_stream)"
  using assms
proof (induction "outputs s" arbitrary: s)
  case Nil
  then show ?case using receive_empty [of s] by auto
next
  case (Cons x xs)
  then obtain s1 where s1: "receive s = (Inr x, s1)" "outputs s1 = xs" "flushed s1"
    using receive_ready [of s x xs] by auto
  from Cons.hyps(1) [of s1] s1 Cons.hyps(2) [symmetric] show ?case
    by (auto simp: Let_def)
qed

end

text \<open>A session that names its state when it refuses input after a flush.\<close>

locale output_session = ordered_session +
  assumes send_flushed: "flushed s \<Longrightarrow> \<exists>e. send i s = (Inl e, s) \<and> code e = invalid_state"
begin

lemma drain_refuses:
  assumes "flushed s"
  shows "\<exists>s'. run (replicate (length (outputs s)) Receive) s = (outputs s, s')
     \<and> (\<exists>e. receive s' = (Inl e, s') \<and> code e = end_of_stream)
     \<and> (\<exists>e. send i s' = (Inl e, s') \<and> code e = invalid_state)"
  using drain [OF assms] send_flushed by metis

end

end
