(* ===== verification/DcvcrtSession.thy ===== *)
theory DcvcrtSession
  imports CodecLockstep SessionApi
begin

text \<open>
  \<^verbatim>\<open>src/dcvcrt/session.cpp\<close>: \<open>SessionCore\<close> over the codec core and the two sessions that share
  it. \<open>EncoderSession\<close> and \<open>DecoderSession\<close> hold a \<open>shared_ptr\<close> to one core, so both act
  on one state \<open>sessions\<close>: the core, and the output deque and flushed flag of each side. Both
  sides meet the contract of \<open>output_session\<close>.
\<close>

subsection \<open>SessionCore\<close>

definition core_initialize :: "'b codec_backend \<Rightarrow> 'b session_core \<Rightarrow> unit result \<times> 'b session_core" where
  "core_initialize be core =
     (let (initialized, backend) = be_initialize be (sc_configuration core) (sc_backend core);
          core = core\<lparr>sc_backend := backend\<rparr> in
      case initialized of
        Inl e \<Rightarrow> (Inl e, core)
      | Inr _ \<Rightarrow> (Inr (), core\<lparr>sc_initialized := True\<rparr>))"

definition core_encode ::
  "'b codec_backend \<Rightarrow> (nat \<Rightarrow> bool) \<Rightarrow> i64 \<Rightarrow> frame \<Rightarrow> 'b session_core \<Rightarrow> packet result \<times> 'b session_core"
  where
  "core_encode be alloc elapsed frame core =
     (if \<not> sc_initialized core then
        (Inl (dcvcrt_error invalid_state ''session is not initialized''), core)
      else encode_frame be alloc elapsed frame core)"

definition core_decode ::
  "'b codec_backend \<Rightarrow> (nat \<Rightarrow> bool) \<Rightarrow> i64 \<Rightarrow> packet \<Rightarrow> 'b session_core \<Rightarrow> frame result \<times> 'b session_core"
  where
  "core_decode be alloc elapsed packet core =
     (if \<not> sc_initialized core then
        (Inl (dcvcrt_error invalid_state ''session is not initialized''), core)
      else decode_packet be alloc elapsed packet core)"

definition core_reset_encoder :: "'b codec_backend \<Rightarrow> 'b session_core \<Rightarrow> 'b session_core" where
  "core_reset_encoder be core =
     core\<lparr>sc_encoder_state := reset_state (sc_encoder_state core),
          sc_backend := be_reset_encoder be (sc_backend core)\<rparr>"

definition core_reset_decoder :: "'b codec_backend \<Rightarrow> 'b session_core \<Rightarrow> 'b session_core" where
  "core_reset_decoder be core =
     core\<lparr>sc_decoder_state := reset_state (sc_decoder_state core),
          sc_backend := be_reset_decoder be (sc_backend core)\<rparr>"

definition core_flush_encoder :: "'b codec_backend \<Rightarrow> 'b session_core \<Rightarrow> unit result \<times> 'b session_core" where
  "core_flush_encoder be core =
     (let (flushed, backend) = be_flush be (sc_backend core);
          core = core\<lparr>sc_backend := backend\<rparr> in
      case flushed of
        Inl e \<Rightarrow> (Inl e, core)
      | Inr _ \<Rightarrow> (Inr (), core_reset_encoder be core))"

definition core_flush_decoder :: "'b codec_backend \<Rightarrow> 'b session_core \<Rightarrow> unit result \<times> 'b session_core" where
  "core_flush_decoder be core =
     (let (flushed, backend) = be_flush be (sc_backend core);
          core = core\<lparr>sc_backend := backend\<rparr> in
      case flushed of
        Inl e \<Rightarrow> (Inl e, core)
      | Inr _ \<Rightarrow> (Inr (), core_reset_decoder be core))"

subsection \<open>Sessions\<close>

record 'b sessions =
  sn_core :: "'b session_core"
  enc_outputs :: "packet list"
  enc_flushed :: bool
  dec_outputs :: "frame list"
  dec_flushed :: bool

definition enc_send_frame ::
  "'b codec_backend \<Rightarrow> (nat \<Rightarrow> bool) \<Rightarrow> i64 \<Rightarrow> frame \<Rightarrow> 'b sessions \<Rightarrow> unit result \<times> 'b sessions" where
  "enc_send_frame be alloc elapsed frame s =
     (if enc_flushed s then (Inl (dcvcrt_error invalid_state ''encoder is flushed''), s)
      else
        let (packet, core) = core_encode be alloc elapsed frame (sn_core s);
            s = s\<lparr>sn_core := core\<rparr> in
        case packet of
          Inl e \<Rightarrow> (Inl e, s)
        | Inr packet \<Rightarrow> (Inr (), s\<lparr>enc_outputs := enc_outputs s @ [packet]\<rparr>))"

definition enc_receive_access_unit :: "'b sessions \<Rightarrow> packet result \<times> 'b sessions" where
  "enc_receive_access_unit s =
     (case enc_outputs s of
        output # rest \<Rightarrow> (Inr output, s\<lparr>enc_outputs := rest\<rparr>)
      | [] \<Rightarrow>
        if enc_flushed s then (Inl (dcvcrt_error end_of_stream ''encoder is drained''), s)
        else (Inl (dcvcrt_error try_again ''no encoded output available''), s))"

definition enc_flush :: "'b codec_backend \<Rightarrow> 'b sessions \<Rightarrow> unit result \<times> 'b sessions" where
  "enc_flush be s =
     (if enc_flushed s then (Inr (), s)
      else
        let (flushed, core) = core_flush_encoder be (sn_core s);
            s = s\<lparr>sn_core := core\<rparr> in
        case flushed of
          Inl e \<Rightarrow> (Inl e, s)
        | Inr _ \<Rightarrow> (Inr (), s\<lparr>enc_flushed := True\<rparr>))"

definition enc_reset :: "'b codec_backend \<Rightarrow> 'b sessions \<Rightarrow> unit result \<times> 'b sessions" where
  "enc_reset be s =
     (Inr (), s\<lparr>enc_outputs := [], sn_core := core_reset_encoder be (sn_core s),
                enc_flushed := False\<rparr>)"

definition dec_send_access_unit ::
  "'b codec_backend \<Rightarrow> (nat \<Rightarrow> bool) \<Rightarrow> i64 \<Rightarrow> packet \<Rightarrow> 'b sessions \<Rightarrow> unit result \<times> 'b sessions" where
  "dec_send_access_unit be alloc elapsed packet s =
     (if dec_flushed s then (Inl (dcvcrt_error invalid_state ''decoder is flushed''), s)
      else
        let (frame, core) = core_decode be alloc elapsed packet (sn_core s);
            s = s\<lparr>sn_core := core\<rparr> in
        case frame of
          Inl e \<Rightarrow> (Inl e, s)
        | Inr frame \<Rightarrow> (Inr (), s\<lparr>dec_outputs := dec_outputs s @ [frame]\<rparr>))"

definition dec_receive_frame :: "'b sessions \<Rightarrow> frame result \<times> 'b sessions" where
  "dec_receive_frame s =
     (case dec_outputs s of
        output # rest \<Rightarrow> (Inr output, s\<lparr>dec_outputs := rest\<rparr>)
      | [] \<Rightarrow>
        if dec_flushed s then (Inl (dcvcrt_error end_of_stream ''decoder is drained''), s)
        else (Inl (dcvcrt_error try_again ''no decoded output available''), s))"

definition dec_flush :: "'b codec_backend \<Rightarrow> 'b sessions \<Rightarrow> unit result \<times> 'b sessions" where
  "dec_flush be s =
     (if dec_flushed s then (Inr (), s)
      else
        let (flushed, core) = core_flush_decoder be (sn_core s);
            s = s\<lparr>sn_core := core\<rparr> in
        case flushed of
          Inl e \<Rightarrow> (Inl e, s)
        | Inr _ \<Rightarrow> (Inr (), s\<lparr>dec_flushed := True\<rparr>))"

definition dec_reset :: "'b codec_backend \<Rightarrow> 'b sessions \<Rightarrow> unit result \<times> 'b sessions" where
  "dec_reset be s =
     (Inr (), s\<lparr>dec_outputs := [], sn_core := core_reset_decoder be (sn_core s),
                dec_flushed := False\<rparr>)"

definition make_sessions ::
  "'b codec_backend \<Rightarrow> (nat \<Rightarrow> bool) \<Rightarrow> nat \<Rightarrow> runtime_configuration \<Rightarrow> 'b option \<Rightarrow> 'b sessions result" where
  "make_sessions be alloc session_bytes configuration backend =
     (case backend of
        None \<Rightarrow> Inl (dcvcrt_error dependency_unavailable ''DCVC-RT requires a codec backend'')
      | Some b \<Rightarrow>
        if \<not> alloc session_bytes then
          Inl (dcvcrt_error resource_exhausted ''unable to allocate DCVC-RT sessions'')
        else
          let (initialized, core) = core_initialize be (make_session_core configuration b) in
          case initialized of
            Inl e \<Rightarrow> Inl e
          | Inr _ \<Rightarrow> Inr \<lparr>sn_core = core, enc_outputs = [], enc_flushed = False,
              dec_outputs = [], dec_flushed = False\<rparr>)"

subsection \<open>Both sessions meet the contract\<close>

lemmas session_defs =
  enc_send_frame_def enc_receive_access_unit_def enc_flush_def enc_reset_def
  dec_send_access_unit_def dec_receive_frame_def dec_flush_def dec_reset_def dcvcrt_error_def

interpretation enc_session: output_session
  "enc_send_frame be alloc elapsed" enc_receive_access_unit "enc_flush be" "enc_reset be"
  enc_outputs enc_flushed
  by unfold_locales
     (auto simp: session_defs Let_def split: if_splits prod.splits sum.splits list.splits)

interpretation dec_session: output_session
  "dec_send_access_unit be alloc elapsed" dec_receive_frame "dec_flush be" "dec_reset be"
  dec_outputs dec_flushed
  by unfold_locales
     (auto simp: session_defs Let_def split: if_splits prod.splits sum.splits list.splits)

subsection \<open>Properties of the sessions\<close>


text \<open>
  Property C12. After a successful \<open>flush\<close> of the encoder, receiving as often as there were
  queued packets delivers exactly them in order, every further receive answers
  \<open>end_of_stream\<close>, and sending another frame is refused with \<open>invalid_state\<close> and changes
  nothing.
\<close>

theorem dcvcrt_encoder_drain:
  assumes "enc_flush be s = (Inr (), s1)"
  shows "\<exists>s2. run_session (enc_send_frame be alloc t) enc_receive_access_unit (enc_flush be)
       (replicate (length (enc_outputs s)) Receive) s1 = (enc_outputs s, s2)
     \<and> (\<exists>e. enc_receive_access_unit s2 = (Inl e, s2) \<and> code e = end_of_stream)
     \<and> (\<exists>e. enc_send_frame be alloc t frame s2 = (Inl e, s2) \<and> code e = invalid_state)"
proof -
  have s1: "enc_flushed s1" "enc_outputs s1 = enc_outputs s"
    using assms by (auto simp: session_defs Let_def split: if_splits prod.splits sum.splits)
  from enc_session.drain_refuses [OF s1(1), of be alloc t frame] s1(2) show ?thesis by metis
qed

definition fresh_sessions :: "unit sessions" where
  "fresh_sessions = \<lparr>sn_core = (make_session_core default_configuration ())\<lparr>sc_initialized := True\<rparr>,
     enc_outputs = [make_packet [1] 0 intra [], make_packet [2] 1 predicted []],
     enc_flushed = False, dec_outputs = [], dec_flushed = False\<rparr>"

theorem dcvcrt_encoder_drain_witness:
  "\<exists>s1 s2. enc_flush raw_backend fresh_sessions = (Inr (), s1)
     \<and> run_session (enc_send_frame raw_backend (\<lambda>_. True) 0) enc_receive_access_unit
         (enc_flush raw_backend) [Receive, Receive] s1 =
       ([make_packet [1] 0 intra [], make_packet [2] 1 predicted []], s2)"
proof -
  obtain s1 where fl: "enc_flush raw_backend fresh_sessions = (Inr (), s1)"
    by (simp add: enc_flush_def fresh_sessions_def core_flush_encoder_def raw_backend_def)
  have "replicate (length (enc_outputs fresh_sessions)) Receive = [Receive, Receive]"
    by (simp add: fresh_sessions_def)
  with dcvcrt_encoder_drain [OF fl, of "\<lambda>_. True" 0 undefined] fl show ?thesis
    by (auto simp: fresh_sessions_def)
qed

lemma encode_frame_decoder: "sc_decoder_state (snd (encode_frame be alloc t f core)) = sc_decoder_state core"
  by (auto simp: encode_frame_def Let_def split: prod.splits sum.splits)

lemma unwrap_packet_encoder: "sc_encoder_state (snd (unwrap_packet alloc p core)) = sc_encoder_state core"
  by (auto simp: unwrap_packet_def split: sum.splits)

lemma finish_decode_encoder:
  "sc_encoder_state (snd (finish_decode alloc t p au dr core)) = sc_encoder_state core"
  by (auto simp: finish_decode_def Let_def split: sum.splits)

lemma decode_packet_encoder: "sc_encoder_state (snd (decode_packet be alloc t p core)) = sc_encoder_state core"
  using unwrap_packet_encoder [of alloc p core]
  by (auto simp: decode_packet_def Let_def finish_decode_encoder
        split: prod.splits sum.splits)

definition encoder_side :: "'b sessions \<Rightarrow> sequence_state \<times> packet list \<times> bool" where
  "encoder_side s = (sc_encoder_state (sn_core s), enc_outputs s, enc_flushed s)"

definition decoder_side :: "'b sessions \<Rightarrow> sequence_state \<times> frame list \<times> bool" where
  "decoder_side s = (sc_decoder_state (sn_core s), dec_outputs s, dec_flushed s)"

lemmas core_defs =
  core_encode_def core_decode_def core_flush_encoder_def core_flush_decoder_def
  core_reset_encoder_def core_reset_decoder_def

text \<open>
  The two directions share one core but not their sequences: no call on the
  encoder session changes the decoder's reference state, queue or flushed flag, and no call on
  the decoder session changes the encoder's.
\<close>

lemma dcvcrt_directions_independent:
  "decoder_side (snd (enc_send_frame be alloc t f s)) = decoder_side s
   \<and> decoder_side (snd (enc_receive_access_unit s)) = decoder_side s
   \<and> decoder_side (snd (enc_flush be s)) = decoder_side s
   \<and> decoder_side (snd (enc_reset be s)) = decoder_side s
   \<and> encoder_side (snd (dec_send_access_unit be alloc t p s)) = encoder_side s
   \<and> encoder_side (snd (dec_receive_frame s)) = encoder_side s
   \<and> encoder_side (snd (dec_flush be s)) = encoder_side s
   \<and> encoder_side (snd (dec_reset be s)) = encoder_side s"
proof -
  have "decoder_side (snd (enc_send_frame be alloc t f s)) = decoder_side s"
    using encode_frame_decoder [of be alloc t f "sn_core s"]
    by (auto simp: session_defs core_defs decoder_side_def Let_def split: prod.splits sum.splits)
  moreover have "encoder_side (snd (dec_send_access_unit be alloc t p s)) = encoder_side s"
    using decode_packet_encoder [of be alloc t p "sn_core s"]
    by (auto simp: session_defs core_defs encoder_side_def Let_def split: prod.splits sum.splits)
  ultimately show ?thesis
    by (auto simp: session_defs core_defs decoder_side_def encoder_side_def Let_def
          split: prod.splits sum.splits list.splits)
qed

end
