(* ===== verification/CodecRuntime.thy ===== *)
theory CodecRuntime
  imports DcvcrtSession
begin

text \<open>
  \<^verbatim>\<open>include/nvcr/codec/runtime.hpp\<close>, \<^verbatim>\<open>src/codec/runtime.cpp\<close>: the frame-at-a-time \<open>codec::Runtime\<close>
  and the legacy session pair built on it. The runtime keeps the same members as the DCVC-RT
  session core and an optional backend. The legacy sessions hold one pending output per
  direction instead of a queue, and share their flushed flags.
\<close>

subsection \<open>Runtime\<close>

record 'b codec_runtime =
  rt_core :: "'b session_core"
  rt_has_codec :: bool

definition make_codec_runtime :: "runtime_configuration \<Rightarrow> 'b \<Rightarrow> bool \<Rightarrow> 'b codec_runtime" where
  "make_codec_runtime configuration backend has_codec =
     \<lparr>rt_core = make_session_core (reconcile_legacy_fields configuration) backend,
      rt_has_codec = has_codec\<rparr>"

definition runtime_initialize :: "'b codec_backend \<Rightarrow> 'b codec_runtime \<Rightarrow> unit result \<times> 'b codec_runtime" where
  "runtime_initialize be rt =
     (if sc_initialized (rt_core rt) then
        (Inl (dcvcrt_error invalid_state ''runtime is already initialized''), rt)
      else if \<not> rt_has_codec rt then
        (Inl (Error dependency_unavailable ''a codec backend is required'' ''codec''), rt)
      else
        let (initialized, backend) =
              be_initialize be (sc_configuration (rt_core rt)) (sc_backend (rt_core rt));
            rt = rt\<lparr>rt_core := (rt_core rt)\<lparr>sc_backend := backend\<rparr>\<rparr> in
        case initialized of
          Inl e \<Rightarrow> (Inl e, rt)
        | Inr _ \<Rightarrow> (Inr (), rt\<lparr>rt_core := (rt_core rt)\<lparr>sc_initialized := True\<rparr>\<rparr>))"

definition runtime_encode ::
  "'b codec_backend \<Rightarrow> (nat \<Rightarrow> bool) \<Rightarrow> i64 \<Rightarrow> frame \<Rightarrow> 'b codec_runtime \<Rightarrow> packet result \<times> 'b codec_runtime"
  where
  "runtime_encode be alloc elapsed frame rt =
     (if \<not> sc_initialized (rt_core rt) then
        (Inl (dcvcrt_error invalid_state ''runtime is not initialized''), rt)
      else
        let (packet, core) = encode_frame be alloc elapsed frame (rt_core rt) in
        (packet, rt\<lparr>rt_core := core\<rparr>))"

definition runtime_decode ::
  "'b codec_backend \<Rightarrow> (nat \<Rightarrow> bool) \<Rightarrow> i64 \<Rightarrow> packet \<Rightarrow> 'b codec_runtime \<Rightarrow> frame result \<times> 'b codec_runtime"
  where
  "runtime_decode be alloc elapsed packet rt =
     (if \<not> sc_initialized (rt_core rt) then
        (Inl (dcvcrt_error invalid_state ''runtime is not initialized''), rt)
      else
        let (frame, core) = decode_packet be alloc elapsed packet (rt_core rt) in
        (frame, rt\<lparr>rt_core := core\<rparr>))"

definition runtime_reset :: "'b codec_backend \<Rightarrow> 'b codec_runtime \<Rightarrow> 'b codec_runtime" where
  "runtime_reset be rt =
     rt\<lparr>rt_core := (rt_core rt)
       \<lparr>sc_encoder_state := reset_state (sc_encoder_state (rt_core rt)),
        sc_decoder_state := reset_state (sc_decoder_state (rt_core rt)),
        sc_backend := be_reset be (sc_backend (rt_core rt))\<rparr>\<rparr>"

definition runtime_flush :: "'b codec_backend \<Rightarrow> 'b codec_runtime \<Rightarrow> unit result \<times> 'b codec_runtime" where
  "runtime_flush be rt =
     (if \<not> sc_initialized (rt_core rt) then
        (Inl (dcvcrt_error invalid_state ''runtime is not initialized''), rt)
      else
        let (result, backend) = be_flush be (sc_backend (rt_core rt));
            rt = rt\<lparr>rt_core := (rt_core rt)\<lparr>sc_backend := backend\<rparr>\<rparr> in
        case result of
          Inl e \<Rightarrow> (Inl e, rt)
        | Inr _ \<Rightarrow> (Inr (), runtime_reset be rt))"

subsection \<open>Legacy sessions\<close>

record 'b legacy_session_state =
  ls_runtime :: "'b codec_runtime"
  ls_pending_packet :: "packet option"
  ls_pending_frame :: "frame option"
  ls_encoder_flushed :: bool
  ls_decoder_flushed :: bool

definition legacy_send_frame ::
  "'b codec_backend \<Rightarrow> (nat \<Rightarrow> bool) \<Rightarrow> i64 \<Rightarrow> frame \<Rightarrow> 'b legacy_session_state
     \<Rightarrow> unit result \<times> 'b legacy_session_state" where
  "legacy_send_frame be alloc elapsed frame s =
     (let (packet, rt) = runtime_encode be alloc elapsed frame (ls_runtime s);
          s = s\<lparr>ls_runtime := rt\<rparr> in
      case packet of
        Inl e \<Rightarrow> (Inl e, s)
      | Inr packet \<Rightarrow>
          (Inr (), s\<lparr>ls_pending_packet := Some packet, ls_encoder_flushed := False\<rparr>))"

definition legacy_receive_access_unit ::
  "'b legacy_session_state \<Rightarrow> packet result \<times> 'b legacy_session_state" where
  "legacy_receive_access_unit s =
     (case ls_pending_packet s of
        Some packet \<Rightarrow> (Inr packet, s\<lparr>ls_pending_packet := None\<rparr>)
      | None \<Rightarrow>
        if ls_encoder_flushed s then
          (Inl (Error end_of_stream ''encoder has been flushed'' ''codec''), s)
        else (Inl (Error try_again ''no encoded output available yet'' ''codec''), s))"

definition legacy_send_access_unit ::
  "'b codec_backend \<Rightarrow> (nat \<Rightarrow> bool) \<Rightarrow> i64 \<Rightarrow> packet \<Rightarrow> 'b legacy_session_state
     \<Rightarrow> unit result \<times> 'b legacy_session_state" where
  "legacy_send_access_unit be alloc elapsed packet s =
     (let (frame, rt) = runtime_decode be alloc elapsed packet (ls_runtime s);
          s = s\<lparr>ls_runtime := rt\<rparr> in
      case frame of
        Inl e \<Rightarrow> (Inl e, s)
      | Inr frame \<Rightarrow>
          (Inr (), s\<lparr>ls_pending_frame := Some frame, ls_decoder_flushed := False\<rparr>))"

definition legacy_receive_frame ::
  "'b legacy_session_state \<Rightarrow> frame result \<times> 'b legacy_session_state" where
  "legacy_receive_frame s =
     (case ls_pending_frame s of
        Some frame \<Rightarrow> (Inr frame, s\<lparr>ls_pending_frame := None\<rparr>)
      | None \<Rightarrow>
        if ls_decoder_flushed s then
          (Inl (Error end_of_stream ''decoder has been flushed'' ''codec''), s)
        else (Inl (Error try_again ''no decoded output available yet'' ''codec''), s))"

text \<open>\<open>LegacyEncoderSession\<close> and \<open>LegacyDecoderSession\<close> have the same \<open>flush\<close> and \<open>reset\<close>.\<close>

definition legacy_flush ::
  "'b codec_backend \<Rightarrow> 'b legacy_session_state \<Rightarrow> unit result \<times> 'b legacy_session_state" where
  "legacy_flush be s =
     (let (flushed, rt) = runtime_flush be (ls_runtime s);
          s = s\<lparr>ls_runtime := rt\<rparr> in
      case flushed of
        Inl e \<Rightarrow> (Inl e, s)
      | Inr _ \<Rightarrow>
          (Inr (), s\<lparr>ls_pending_packet := None, ls_pending_frame := None,
             ls_encoder_flushed := True, ls_decoder_flushed := True\<rparr>))"

definition legacy_reset ::
  "'b codec_backend \<Rightarrow> 'b legacy_session_state \<Rightarrow> unit result \<times> 'b legacy_session_state" where
  "legacy_reset be s =
     (Inr (), s\<lparr>ls_runtime := runtime_reset be (ls_runtime s), ls_pending_packet := None,
        ls_pending_frame := None, ls_encoder_flushed := False, ls_decoder_flushed := False\<rparr>)"

definition make_legacy_sessions ::
  "'b codec_backend \<Rightarrow> (nat \<Rightarrow> bool) \<Rightarrow> nat \<Rightarrow> runtime_configuration \<Rightarrow> 'b \<Rightarrow> bool
     \<Rightarrow> 'b legacy_session_state result" where
  "make_legacy_sessions be alloc session_bytes configuration backend has_codec =
     (let configuration = reconcile_legacy_fields configuration in
      if \<not> alloc session_bytes then
        Inl (Error resource_exhausted ''unable to allocate legacy codec sessions'' ''codec'')
      else
        let (initialized, rt) =
              runtime_initialize be (make_codec_runtime configuration backend has_codec) in
        case initialized of
          Inl e \<Rightarrow> Inl e
        | Inr _ \<Rightarrow>
            Inr \<lparr>ls_runtime = rt, ls_pending_packet = None, ls_pending_frame = None,
                 ls_encoder_flushed = False, ls_decoder_flushed = False\<rparr>)"

subsection \<open>Properties\<close>

lemmas legacy_defs =
  legacy_send_frame_def legacy_receive_access_unit_def legacy_send_access_unit_def
  legacy_receive_frame_def legacy_flush_def legacy_reset_def

text \<open>
  A legacy encoder session delivers a frame's packet when it is received right
  after the frame was sent, and then asks for more input.
\<close>

lemma legacy_send_receive:
  assumes "legacy_send_frame be alloc t f s = (Inr (), s1)"
  shows "\<exists>p s2. runtime_encode be alloc t f (ls_runtime s) = (Inr p, ls_runtime s1)
     \<and> legacy_receive_access_unit s1 = (Inr p, s2)
     \<and> (\<exists>e. legacy_receive_access_unit s2 = (Inl e, s2) \<and> code e = try_again)"
  using assms
  by (auto simp: legacy_defs Let_def split: prod.splits sum.splits)

definition legacy_fresh :: "unit legacy_session_state" where
  "legacy_fresh = \<lparr>ls_runtime = \<lparr>rt_core =
       (make_session_core default_configuration ())\<lparr>sc_initialized := True\<rparr>, rt_has_codec = True\<rparr>,
     ls_pending_packet = None, ls_pending_frame = None,
     ls_encoder_flushed = False, ls_decoder_flushed = False\<rparr>"

lemma legacy_fresh_sends:
  "\<exists>s1. legacy_send_frame raw_backend (\<lambda>_. True) 0 (tiny_frame 1) legacy_fresh = (Inr (), s1)"
proof -
  obtain bs where
    "au_serialize (\<lambda>_. True) (make_access_unit ''dcvcrt'' 2 2 10 intra True (replicate 6 1)) 67108864 = Inr bs"
    using tiny_serialized [of intra 1] by auto
  then show ?thesis
    by (simp add: legacy_send_frame_def runtime_encode_def legacy_fresh_def
          encode_frame_def tiny_frame_def raw_backend_def make_session_core_def
          default_configuration_def default_stream_policy_def default_runtime_options_def
          default_codec_configuration_def stream_model_id_def packet_limit_def size_bytes_def
          next_frame_type_def make_sequence_state_def commit_def Let_def)
qed

lemma legacy_send_receive_witness:
  "\<exists>s1 p s2. legacy_send_frame raw_backend (\<lambda>_. True) 0 (tiny_frame 1) legacy_fresh = (Inr (), s1)
     \<and> legacy_receive_access_unit s1 = (Inr p, s2)"
  using legacy_fresh_sends legacy_send_receive by blast

text \<open>
  Property C21. A successful \<open>flush\<close> of a legacy session throws the pending outputs of both
  directions away: a packet or frame not received before the flush is never delivered, and
  both sides answer \<open>end_of_stream\<close> at once.
\<close>

theorem legacy_flush_discards:
  assumes "legacy_flush be s = (Inr (), s1)"
  shows "(\<exists>e. legacy_receive_access_unit s1 = (Inl e, s1) \<and> code e = end_of_stream)
     \<and> (\<exists>e. legacy_receive_frame s1 = (Inl e, s1) \<and> code e = end_of_stream)"
  using assms
  by (auto simp: legacy_defs Let_def split: prod.splits sum.splits)

theorem legacy_flush_discards_witness:
  "\<exists>s1 s2. legacy_send_frame raw_backend (\<lambda>_. True) 0 (tiny_frame 1) legacy_fresh = (Inr (), s1)
     \<and> ls_pending_packet s1 \<noteq> None \<and> legacy_flush raw_backend s1 = (Inr (), s2)
     \<and> (\<exists>e. legacy_receive_access_unit s2 = (Inl e, s2) \<and> code e = end_of_stream)"
proof -
  from legacy_fresh_sends obtain s1 where
    s1: "legacy_send_frame raw_backend (\<lambda>_. True) 0 (tiny_frame 1) legacy_fresh = (Inr (), s1)"
    by blast
  have init: "sc_initialized (rt_core (ls_runtime s1))" and pending: "ls_pending_packet s1 \<noteq> None"
    using s1
    by (auto simp: legacy_send_frame_def runtime_encode_def Let_def legacy_fresh_def
          elim!: encode_frame_Inr split: prod.splits sum.splits)
  have "\<exists>s2. legacy_flush raw_backend s1 = (Inr (), s2)"
    by (simp add: legacy_flush_def runtime_flush_def init raw_backend_def Let_def)
  with s1 pending show ?thesis using legacy_flush_discards by blast
qed

end
