(* ===== verification/Sha256.thy ===== *)
theory Sha256
  imports Errors
begin

text \<open>
  \<^verbatim>\<open>src/common/sha256.cpp\<close>: the incremental SHA-256 that checks artifact digests. The class keeps
  the eight chaining words, a 64-byte buffer with its fill count and the byte total. Files are
  read in blocks of one mebibyte; a file is given by its content and whether reading reached the
  end of file. The specification is the one of FIPS 180-4: padding of the whole message and a
  fold of the compression function over its 64-byte blocks.
\<close>

subsection \<open>The class\<close>

definition round_constants :: "u32 list" where
  "round_constants = concat [
    [0x428a2f98, 0x71374491, 0xb5c0fbcf, 0xe9b5dba5, 0x3956c25b, 0x59f111f1],
    [0x923f82a4, 0xab1c5ed5, 0xd807aa98, 0x12835b01, 0x243185be, 0x550c7dc3],
    [0x72be5d74, 0x80deb1fe, 0x9bdc06a7, 0xc19bf174, 0xe49b69c1, 0xefbe4786],
    [0x0fc19dc6, 0x240ca1cc, 0x2de92c6f, 0x4a7484aa, 0x5cb0a9dc, 0x76f988da],
    [0x983e5152, 0xa831c66d, 0xb00327c8, 0xbf597fc7, 0xc6e00bf3, 0xd5a79147],
    [0x06ca6351, 0x14292967, 0x27b70a85, 0x2e1b2138, 0x4d2c6dfc, 0x53380d13],
    [0x650a7354, 0x766a0abb, 0x81c2c92e, 0x92722c85, 0xa2bfe8a1, 0xa81a664b],
    [0xc24b8b70, 0xc76c51a3, 0xd192e819, 0xd6990624, 0xf40e3585, 0x106aa070],
    [0x19a4c116, 0x1e376c08, 0x2748774c, 0x34b0bcb5, 0x391c0cb3, 0x4ed8aa4a],
    [0x5b9cca4f, 0x682e6ff3, 0x748f82ee, 0x78a5636f, 0x84c87814, 0x8cc70208],
    [0x90befffa, 0xa4506ceb, 0xbef9a3f7, 0xc67178f2]]"

record sha256 =
  sh_state :: "u32 list"
  sh_buffer :: "u8 list"
  sh_buffer_size :: nat
  sh_total_bytes :: u64

definition make_sha256 :: sha256 where
  "make_sha256 = \<lparr>sh_state = [0x6a09e667, 0xbb67ae85, 0x3c6ef372, 0xa54ff53a,
     0x510e527f, 0x9b05688c, 0x1f83d9ab, 0x5be0cd19],
     sh_buffer = replicate 64 0, sh_buffer_size = 0, sh_total_bytes = 0\<rparr>"

definition rotr :: "u32 \<Rightarrow> nat \<Rightarrow> u32" where
  "rotr x n = drop_bit n x OR push_bit (32 - n) x"

definition block_word :: "u8 list \<Rightarrow> nat \<Rightarrow> u32" where
  "block_word block index =
     (let offset = index * 4 in
      push_bit 24 (ucast (block ! offset)) OR push_bit 16 (ucast (block ! (offset + 1)))
        OR push_bit 8 (ucast (block ! (offset + 2))) OR ucast (block ! (offset + 3)))"

definition extend_word :: "u32 list \<Rightarrow> nat \<Rightarrow> u32" where
  "extend_word words index =
     (let s0 = rotr (words ! (index - 15)) 7 XOR rotr (words ! (index - 15)) 18
            XOR drop_bit 3 (words ! (index - 15));
          s1 = rotr (words ! (index - 2)) 17 XOR rotr (words ! (index - 2)) 19
            XOR drop_bit 10 (words ! (index - 2)) in
      words ! (index - 16) + s0 + words ! (index - 7) + s1)"

definition schedule_words :: "u8 list \<Rightarrow> u32 list" where
  "schedule_words block =
     fold (\<lambda>index words. words[index := extend_word words index]) [16..<64]
       (fold (\<lambda>index words. words[index := block_word block index]) [0..<16] (replicate 64 0))"

type_synonym working = "u32 \<times> u32 \<times> u32 \<times> u32 \<times> u32 \<times> u32 \<times> u32 \<times> u32"

definition round_step :: "u32 \<Rightarrow> u32 \<Rightarrow> working \<Rightarrow> working" where
  "round_step k w v =
     (let (a, b, c, d, e, f, g, h) = v;
          s1 = rotr e 6 XOR rotr e 11 XOR rotr e 25;
          chosen = (e AND f) XOR (NOT e AND g);
          temporary1 = h + s1 + chosen + k + w;
          s0 = rotr a 2 XOR rotr a 13 XOR rotr a 22;
          majority = (a AND b) XOR (a AND c) XOR (b AND c);
          temporary2 = s0 + majority in
      (temporary1 + temporary2, a, b, c, d + temporary1, e, f, g))"

definition transform :: "u8 list \<Rightarrow> u32 list \<Rightarrow> u32 list" where
  "transform block state =
     (let words = schedule_words block;
          v = (state ! 0, state ! 1, state ! 2, state ! 3, state ! 4, state ! 5, state ! 6, state ! 7);
          (a, b, c, d, e, f, g, h) =
            fold (\<lambda>index. round_step (round_constants ! index) (words ! index)) [0..<64] v in
      [state ! 0 + a, state ! 1 + b, state ! 2 + c, state ! 3 + d,
       state ! 4 + e, state ! 5 + f, state ! 6 + g, state ! 7 + h])"

definition push_byte :: "u8 \<Rightarrow> sha256 \<Rightarrow> sha256" where
  "push_byte byte s =
     s\<lparr>sh_buffer := (sh_buffer s)[sh_buffer_size s := byte], sh_buffer_size := sh_buffer_size s + 1\<rparr>"

definition update_byte :: "u8 \<Rightarrow> sha256 \<Rightarrow> sha256" where
  "update_byte byte s =
     (let s = push_byte byte s in
      if sh_buffer_size s = length (sh_buffer s) then
        s\<lparr>sh_state := transform (sh_buffer s) (sh_state s), sh_buffer_size := 0\<rparr>
      else s)"

definition sha_update :: "byte list \<Rightarrow> sha256 \<Rightarrow> sha256" where
  "sha_update input s =
     fold update_byte input (s\<lparr>sh_total_bytes := sh_total_bytes s + word_of_nat (length input)\<rparr>)"

definition fill_zeros :: "nat \<Rightarrow> sha256 \<Rightarrow> sha256" where
  "fill_zeros limit s = (push_byte 0 ^^ (limit - sh_buffer_size s)) s"

definition digest_bytes :: "u32 list \<Rightarrow> u8 list" where
  "digest_bytes state =
     concat (map (\<lambda>w. map (\<lambda>byte. ucast (drop_bit ((3 - byte) * 8) w)) [0..<4]) state)"

definition sha_finish :: "sha256 \<Rightarrow> u8 list" where
  "sha_finish s =
     (let bit_length = sh_total_bytes s * 8;
          s = push_byte 0x80 s;
          s = (if sh_buffer_size s > 56 then
                 let s = fill_zeros (length (sh_buffer s)) s in
                 s\<lparr>sh_state := transform (sh_buffer s) (sh_state s), sh_buffer_size := 0\<rparr>
               else s);
          s = fill_zeros 56 s;
          buffer = fold (\<lambda>index buffer. buffer[63 - index := ucast (drop_bit (index * 8) bit_length)])
            [0..<8] (sh_buffer s) in
      digest_bytes (transform buffer (sh_state s)))"

definition hex_digit :: "nat \<Rightarrow> char" where
  "hex_digit d = (if d < 10 then char_of (48 + d) else char_of (87 + d))"

definition to_hex :: "u8 list \<Rightarrow> string" where
  "to_hex digest = concat (map (\<lambda>b. [hex_digit (unat b div 16), hex_digit (unat b mod 16)]) digest)"

subsection \<open>Hashing files and text\<close>

record input_file =
  if_path :: string
  if_open :: bool
  if_content :: "byte list"
  if_reaches_eof :: bool

definition read_block :: nat where "read_block = 1024 * 1024"

function hash_stream :: "nat \<Rightarrow> byte list \<Rightarrow> sha256 \<Rightarrow> sha256" where
  "hash_stream block content s =
     (if block = 0 \<or> content = [] then s
      else hash_stream block (drop block content) (sha_update (take block content) s))"
  by auto
termination by (relation "measure (\<lambda>(_, content, _). length content)") auto

declare hash_stream.simps [simp del]

fun hash_files :: "string \<Rightarrow> input_file list \<Rightarrow> sha256 \<Rightarrow> sha256 result" where
  "hash_files subsys [] s = Inr s"
| "hash_files subsys (file # files) s =
     (if \<not> if_open file then
        Inl (Error io_error (''cannot open file for SHA-256: '' @ if_path file) subsys)
      else
        let s = hash_stream read_block (if_content file) s in
        if \<not> if_reaches_eof file then
          Inl (Error io_error (''failed while hashing file: '' @ if_path file) subsys)
        else hash_files subsys files s)"

definition sha256_files :: "input_file list \<Rightarrow> string \<Rightarrow> string result" where
  "sha256_files files subsys =
     res_bind (hash_files subsys files make_sha256) (\<lambda>s. Inr (to_hex (sha_finish s)))"

definition sha256_file :: "input_file \<Rightarrow> string \<Rightarrow> string result" where
  "sha256_file file subsys = sha256_files [file] subsys"

definition sha256_text :: "string \<Rightarrow> string" where
  "sha256_text text = to_hex (sha_finish (sha_update (as_bytes text) make_sha256))"

subsection \<open>The standard\<close>

fun message_schedule :: "u8 list \<Rightarrow> nat \<Rightarrow> u32" where
  "message_schedule block t =
     (if t < 16 then block_word block t
      else
        let small0 = (\<lambda>x. rotr x 7 XOR rotr x 18 XOR drop_bit 3 x);
            small1 = (\<lambda>x. rotr x 17 XOR rotr x 19 XOR drop_bit 10 x) in
        small1 (message_schedule block (t - 2)) + message_schedule block (t - 7)
          + small0 (message_schedule block (t - 15)) + message_schedule block (t - 16))"

declare message_schedule.simps [simp del]

definition compress :: "u32 list \<Rightarrow> u8 list \<Rightarrow> u32 list" where
  "compress state block =
     (let v = (state ! 0, state ! 1, state ! 2, state ! 3, state ! 4, state ! 5, state ! 6, state ! 7);
          (a, b, c, d, e, f, g, h) =
            fold (\<lambda>t. round_step (round_constants ! t) (message_schedule block t)) [0..<64] v in
      map2 (+) (take 8 state) [a, b, c, d, e, f, g, h])"

definition big_endian_64 :: "u64 \<Rightarrow> u8 list" where
  "big_endian_64 n = map (\<lambda>i. ucast (drop_bit ((7 - i) * 8) n)) [0..<8]"

definition sha_padding :: "nat \<Rightarrow> u8 list" where
  "sha_padding n = 0x80 # replicate ((119 - n mod 64) mod 64) 0 @ big_endian_64 (word_of_nat (8 * n))"

fun message_blocks :: "u8 list \<Rightarrow> u8 list list" where
  "message_blocks m = (if length m < 64 then [] else take 64 m # message_blocks (drop 64 m))"

declare message_blocks.simps [simp del]

definition sha256_digest :: "u8 list \<Rightarrow> u8 list" where
  "sha256_digest m =
     digest_bytes (foldl compress (sh_state make_sha256) (message_blocks (m @ sha_padding (length m))))"

subsection \<open>The compression function\<close>

lemma fold_update_inv:
  assumes "a \<le> b" "b \<le> length ws" "\<forall>t<a. ws ! t = W t"
    and step: "\<And>ws' i. a \<le> i \<Longrightarrow> i < b \<Longrightarrow> length ws' = length ws \<Longrightarrow> \<forall>t<i. ws' ! t = W t \<Longrightarrow> f ws' i = W i"
  shows "length (fold (\<lambda>i ws. ws[i := f ws i]) [a..<b] ws) = length ws
     \<and> (\<forall>t<b. fold (\<lambda>i ws. ws[i := f ws i]) [a..<b] ws ! t = W t)"
  using assms
proof (induction b rule: dec_induct)
  case base
  then show ?case by simp
next
  case (step n)
  then show ?case by (auto simp: nth_list_update less_Suc_eq)
qed

lemma schedule_words_nth:
  assumes "t < 64"
  shows "schedule_words block ! t = message_schedule block t"
proof -
  let ?ws = "fold (\<lambda>i words. words[i := block_word block i]) [0..<16] (replicate 64 0)"
  have ws: "length ?ws = length (replicate 64 (0 :: u32)) \<and> (\<forall>t<16. ?ws ! t = message_schedule block t)"
    by (rule fold_update_inv) (simp_all add: message_schedule.simps)
  have "length (schedule_words block) = length ?ws
      \<and> (\<forall>t<64. schedule_words block ! t = message_schedule block t)"
    unfolding schedule_words_def
  proof (rule fold_update_inv)
    show "64 \<le> length ?ws" using ws by (simp only: length_replicate)
    show "extend_word ws' i = message_schedule block i"
      if "16 \<le> i" "i < 64" "\<forall>t<i. ws' ! t = message_schedule block t" for ws' i
      using that by (simp add: extend_word_def message_schedule.simps [of block i] Let_def)
  qed (simp, use ws in blast)
  then show ?thesis using assms by blast
qed

lemma transform_compress:
  assumes "length state = 8"
  shows "transform block state = compress state block" "length (compress state block) = 8"
proof -
  from assms obtain s0 s1 s2 s3 s4 s5 s6 s7 where s: "state = [s0, s1, s2, s3, s4, s5, s6, s7]"
    by (auto simp: length_Suc_conv numeral_eq_Suc)
  have "fold (\<lambda>t. round_step (round_constants ! t) (schedule_words block ! t)) [0..<64] v
      = fold (\<lambda>t. round_step (round_constants ! t) (message_schedule block t)) [0..<64] v" for v
    by (rule fold_cong) (simp_all add: schedule_words_nth)
  then show "transform block state = compress state block"
    by (simp add: transform_def compress_def s split_beta Let_def del: upt_rec_numeral)
  show "length (compress state block) = 8"
    by (simp add: compress_def s split_beta Let_def del: upt_rec_numeral)
qed

subsection \<open>Buffering\<close>

text \<open>The buffer as the list of pending bytes, and one byte at a time.\<close>

definition absorbed :: "sha256 \<Rightarrow> u32 list \<times> u8 list" where
  "absorbed s = (sh_state s, take (sh_buffer_size s) (sh_buffer s))"

definition sha_ok :: "sha256 \<Rightarrow> bool" where
  "sha_ok s \<longleftrightarrow> length (sh_buffer s) = 64 \<and> sh_buffer_size s < 64 \<and> length (sh_state s) = 8"

definition feed_byte :: "u8 \<Rightarrow> u32 list \<times> u8 list \<Rightarrow> u32 list \<times> u8 list" where
  "feed_byte b p =
     (let (state, pending) = p in
      if length pending = 63 then (compress state (pending @ [b]), []) else (state, pending @ [b]))"

lemma take_push_byte:
  assumes "length (sh_buffer s) = 64" "sh_buffer_size s < 64"
  shows "take (sh_buffer_size (push_byte b s)) (sh_buffer (push_byte b s))
       = take (sh_buffer_size s) (sh_buffer s) @ [b]"
  using assms by (simp add: push_byte_def take_Suc_conv_app_nth)

lemma push_byte_fields [simp]:
  "length (sh_buffer (push_byte b s)) = length (sh_buffer s)"
  "sh_buffer_size (push_byte b s) = sh_buffer_size s + 1"
  "sh_state (push_byte b s) = sh_state s"
  "sh_total_bytes (push_byte b s) = sh_total_bytes s"
  by (simp_all add: push_byte_def)

lemma update_byte_feed:
  assumes "sha_ok s"
  shows "sha_ok (update_byte b s) \<and> absorbed (update_byte b s) = feed_byte b (absorbed s)
     \<and> sh_total_bytes (update_byte b s) = sh_total_bytes s"
proof -
  have l: "length (take (sh_buffer_size s) (sh_buffer s)) = sh_buffer_size s"
    using assms by (simp add: sha_ok_def)
  have t: "take (Suc (sh_buffer_size s)) (sh_buffer (push_byte b s))
      = take (sh_buffer_size s) (sh_buffer s) @ [b]"
    using take_push_byte [of s b] assms by (simp add: sha_ok_def)
  show ?thesis
  proof (cases "sh_buffer_size s = 63")
    case True
    then have "sh_buffer (push_byte b s) = take 63 (sh_buffer s) @ [b]"
      using t assms by (simp add: sha_ok_def)
    then show ?thesis
      using assms l True transform_compress [of "sh_state s"]
      by (simp add: update_byte_def Let_def absorbed_def feed_byte_def sha_ok_def)
  next
    case False
    then show ?thesis
      using assms l t by (simp add: update_byte_def Let_def absorbed_def feed_byte_def sha_ok_def)
  qed
qed

lemma fold_update_byte:
  assumes "sha_ok s"
  shows "sha_ok (fold update_byte bs s) \<and> absorbed (fold update_byte bs s) = fold feed_byte bs (absorbed s)
     \<and> sh_total_bytes (fold update_byte bs s) = sh_total_bytes s"
  using assms by (induction bs arbitrary: s) (simp_all add: update_byte_feed)

lemma sha_update_feed:
  assumes "sha_ok s"
  shows "sha_ok (sha_update bs s)" "absorbed (sha_update bs s) = fold feed_byte bs (absorbed s)"
    "sh_total_bytes (sha_update bs s) = sh_total_bytes s + word_of_nat (length bs)"
  using assms fold_update_byte [of "s\<lparr>sh_total_bytes := sh_total_bytes s + word_of_nat (length bs)\<rparr>" bs]
  by (simp_all add: sha_update_def sha_ok_def absorbed_def)

lemma feed_pending:
  assumes "length pending + length bs < 64"
  shows "fold feed_byte bs (state, pending) = (state, pending @ bs)"
  using assms by (induction bs arbitrary: pending) (simp_all add: feed_byte_def)

lemma feed_block:
  assumes "length pending + length bs = 64" "bs \<noteq> []"
  shows "fold feed_byte bs (state, pending) = (compress state (pending @ bs), [])"
proof -
  obtain cs b where bs: "bs = cs @ [b]" using assms(2) by (metis append_butlast_last_id)
  then show ?thesis
    using assms(1) feed_pending [of pending cs state] by (simp add: feed_byte_def)
qed

lemma feed_blocks:
  "length m = 64 * n \<Longrightarrow> fold feed_byte m (state, []) = (foldl compress state (message_blocks m), [])"
proof (induction n arbitrary: m state)
  case 0
  then show ?case by (simp add: message_blocks.simps)
next
  case (Suc n)
  have "fold feed_byte m (state, []) = fold feed_byte (drop 64 m) (fold feed_byte (take 64 m) (state, []))"
    by (metis append_take_drop_id comp_apply fold_append)
  also have "fold feed_byte (take 64 m) (state, []) = (compress state (take 64 m), [])"
    using Suc.prems feed_block [of "[]" "take 64 m" state] by (cases m) auto
  finally show ?case using Suc by (simp add: message_blocks.simps [of m])
qed

subsection \<open>Finishing\<close>

lemma push_zeros:
  assumes "length (sh_buffer s) = 64" "sh_buffer_size s + n \<le> 64"
  shows "length (sh_buffer ((push_byte 0 ^^ n) s)) = 64
     \<and> sh_buffer_size ((push_byte 0 ^^ n) s) = sh_buffer_size s + n
     \<and> sh_state ((push_byte 0 ^^ n) s) = sh_state s
     \<and> take (sh_buffer_size s + n) (sh_buffer ((push_byte 0 ^^ n) s))
        = take (sh_buffer_size s) (sh_buffer s) @ replicate n 0"
  using assms
proof (induction n)
  case (Suc n)
  then show ?case
    using take_push_byte [of "(push_byte 0 ^^ n) s" 0]
    by (simp add: replicate_append_same)
qed simp

lemma fill_zeros_spec:
  assumes "length (sh_buffer s) = 64" "sh_buffer_size s \<le> limit" "limit \<le> 64"
  shows "length (sh_buffer (fill_zeros limit s)) = 64" "sh_buffer_size (fill_zeros limit s) = limit"
    "sh_state (fill_zeros limit s) = sh_state s"
    "take limit (sh_buffer (fill_zeros limit s))
      = take (sh_buffer_size s) (sh_buffer s) @ replicate (limit - sh_buffer_size s) 0"
  using assms push_zeros [of s "limit - sh_buffer_size s"] by (simp_all add: fill_zeros_def)

lemma length_bytes_written:
  assumes "length buffer = 64"
  shows "fold (\<lambda>index buffer. buffer[63 - index := ucast (drop_bit (index * 8) (n :: u64))]) [0..<8] buffer
     = take 56 buffer @ big_endian_64 n"
proof -
  have i: "i = 56 \<or> i = 57 \<or> i = 58 \<or> i = 59 \<or> i = 60 \<or> i = 61 \<or> i = 62 \<or> i = 63"
    if "i < 64" "56 \<le> i" for i :: nat using that by linarith
  show ?thesis
    by (rule nth_equalityI)
       (auto simp: assms big_endian_64_def nth_append nth_list_update numeral_nat
          upt_rec dest: i)
qed

lemma length_big_endian_64 [simp]: "length (big_endian_64 n) = 8"
  by (simp add: big_endian_64_def)

lemma sha_finish_feed:
  assumes ok: "sha_ok s"
  shows "sha_finish s = digest_bytes (fst (fold feed_byte
     (0x80 # replicate ((119 - sh_buffer_size s) mod 64) 0 @ big_endian_64 (sh_total_bytes s * 8))
     (absorbed s)))"
proof -
  let ?p = "sh_buffer_size s" and ?n = "sh_total_bytes s * 8" and ?st = "sh_state s"
  let ?pend = "take (sh_buffer_size s) (sh_buffer s)"
  define s1 where "s1 = push_byte 0x80 s"
  have s1: "length (sh_buffer s1) = 64" "sh_buffer_size s1 = ?p + 1" "sh_state s1 = ?st"
    "take (?p + 1) (sh_buffer s1) = ?pend @ [0x80]"
    using ok take_push_byte [of s "0x80"] by (simp_all add: s1_def sha_ok_def)
  have len: "length ?pend = ?p" "?p < 64" "length ?st = 8" using ok by (simp_all add: sha_ok_def)
  show ?thesis
  proof (cases "?p + 1 \<le> 56")
    case True
    define s2 where "s2 = fill_zeros 56 s1"
    have s2: "length (sh_buffer s2) = 64" "sh_state s2 = ?st"
      "take 56 (sh_buffer s2) = ?pend @ [0x80] @ replicate (55 - ?p) 0"
      using fill_zeros_spec [of s1 56] s1 True by (simp_all add: s2_def)
    have "sha_finish s = digest_bytes (transform (take 56 (sh_buffer s2) @ big_endian_64 ?n) ?st)"
      using s1 s2 True
      by (simp add: sha_finish_def Let_def length_bytes_written flip: s1_def s2_def
            del: upt_rec_numeral)
    moreover have "(119 - ?p) mod 64 = 55 - ?p" using True by (simp add: mod_if)
    ultimately show ?thesis
      using feed_block [of ?pend "0x80 # replicate (55 - ?p) 0 @ big_endian_64 ?n" ?st] len True s2
        transform_compress [of ?st]
      by (simp add: absorbed_def)
  next
    case False
    define s2 where "s2 = fill_zeros 64 s1"
    have s2: "length (sh_buffer s2) = 64" "sh_state s2 = ?st"
      "sh_buffer s2 = ?pend @ [0x80] @ replicate (63 - ?p) 0"
      using fill_zeros_spec [of s1 64] s1 len(2) by (simp_all add: s2_def)
    let ?st2 = "compress ?st (sh_buffer s2)"
    define s3 where "s3 = s2\<lparr>sh_state := transform (sh_buffer s2) ?st, sh_buffer_size := 0\<rparr>"
    define s4 where "s4 = fill_zeros 56 s3"
    have s4: "length (sh_buffer s4) = 64" "sh_state s4 = ?st2" "take 56 (sh_buffer s4) = replicate 56 0"
      using fill_zeros_spec [of s3 56] s2(1) transform_compress [of ?st] len
      by (simp_all add: s3_def s4_def)
    have "sha_finish s = digest_bytes (transform (fold (\<lambda>index buffer.
        buffer[63 - index := ucast (drop_bit (index * 8) ?n)]) [0..<8] (sh_buffer s4)) (sh_state s4))"
      using s1(1,2) s2(2) False
      by (simp add: sha_finish_def Let_def s4_def s3_def s2_def s1_def del: upt_rec_numeral)
    then have "sha_finish s = digest_bytes (transform (replicate 56 0 @ big_endian_64 ?n) ?st2)"
      unfolding length_bytes_written [OF s4(1)] s4(2,3) .
    moreover have pad: "(119 - ?p) mod 64 = (63 - ?p) + 56" using False len by (simp add: mod_if)
    have "0x80 # replicate ((119 - ?p) mod 64) 0 @ big_endian_64 ?n
        = (0x80 # replicate (63 - ?p) 0) @ replicate 56 0 @ big_endian_64 ?n"
      unfolding pad replicate_add by simp
    moreover have "fold feed_byte (0x80 # replicate (63 - ?p) 0) (?st, ?pend) = (?st2, [])"
      using feed_block [of ?pend "0x80 # replicate (63 - ?p) 0" ?st] len s2 by simp
    moreover have "fold feed_byte (replicate 56 0 @ big_endian_64 ?n) (?st2, [])
        = (compress ?st2 (replicate 56 0 @ big_endian_64 ?n), [])"
      using feed_block [of "[]" "replicate 56 0 @ big_endian_64 ?n" ?st2] by simp
    ultimately show ?thesis
      using transform_compress(1) [of ?st2] transform_compress(2) [OF len(3)]
      by (simp only: absorbed_def fold_append comp_apply fst_conv)
  qed
qed

lemma sha_message:
  "sha_ok (fold sha_update chunks make_sha256)
   \<and> absorbed (fold sha_update chunks make_sha256)
      = fold feed_byte (concat chunks) (sh_state make_sha256, [])
   \<and> sh_total_bytes (fold sha_update chunks make_sha256) = word_of_nat (length (concat chunks))"
proof (induction chunks rule: rev_induct)
  case Nil
  then show ?case by (simp add: sha_ok_def absorbed_def make_sha256_def)
next
  case (snoc c cs)
  then show ?case using sha_update_feed [of "fold sha_update cs make_sha256" c] by simp
qed

lemma pending_length:
  assumes "length pending < 64"
  shows "length (snd (fold feed_byte bs (state, pending))) = (length pending + length bs) mod 64"
  using assms
proof (induction bs arbitrary: state pending)
  case (Cons b bs)
  have "length pending + Suc (length bs) = length bs + 64" if "length pending = 63" using that by simp
  then show ?case using Cons by (auto simp: feed_byte_def)
qed simp

lemma pad_zeros: "r < 64 \<Longrightarrow> (119 - r) mod 64 = (if r < 56 then 55 - r else 119 - r)" for r :: nat
  by (simp add: mod_if)

lemma sha_finish_digest:
  "sha_finish (fold sha_update chunks make_sha256) = sha256_digest (concat chunks)"
proof -
  let ?s = "fold sha_update chunks make_sha256" and ?m = "concat chunks"
  note m = sha_message [of chunks]
  have p: "sh_buffer_size ?s = length ?m mod 64"
  proof -
    have "length (snd (absorbed ?s)) = length ?m mod 64"
      using m pending_length [of "[]" ?m "sh_state make_sha256"] by simp
    moreover have "length (snd (absorbed ?s)) = sh_buffer_size ?s"
      using conjunct1 [OF m] by (simp add: absorbed_def sha_ok_def)
    ultimately show ?thesis by simp
  qed
  have n: "length (?m @ sha_padding (length ?m)) mod 64 = 0"
  proof -
    have "l + 1 + (119 - l mod 64) mod 64 + 8 = 64 * (l div 64 + (if l mod 64 < 56 then 1 else 2))"
      for l :: nat
    proof -
      define r where "r = l mod 64"
      have "r < 64" "l = 64 * (l div 64) + r" by (simp_all add: r_def)
      then show ?thesis unfolding r_def [symmetric] pad_zeros [OF \<open>r < 64\<close>]
        by (cases "r < 56") simp_all
    qed
    then have "(l + 1 + (119 - l mod 64) mod 64 + 8) mod 64 = 0" for l :: nat
      by (metis mod_mult_self1_is_0)
    then show ?thesis by (simp add: sha_padding_def ac_simps)
  qed
  then obtain k where k: "length (?m @ sha_padding (length ?m)) = 64 * k" by auto
  have "sha_finish ?s = digest_bytes (fst (fold feed_byte (sha_padding (length ?m)) (absorbed ?s)))"
    using m by (simp add: sha_finish_feed p sha_padding_def mult.commute)
  also have "\<dots> = digest_bytes (fst (fold feed_byte (?m @ sha_padding (length ?m)) (sh_state make_sha256, [])))"
    using m by simp
  also have "\<dots> = sha256_digest ?m" using feed_blocks [OF k] by (simp add: sha256_digest_def)
  finally show ?thesis .
qed

subsection \<open>Files\<close>

lemma hash_stream_chunks:
  assumes "0 < n"
  shows "\<exists>ds. hash_stream n content s = fold sha_update ds s \<and> concat ds = content"
proof (induction content arbitrary: s rule: length_induct)
  case (1 content)
  show ?case
  proof (cases "content = []")
    case True
    then show ?thesis by (intro exI [of _ "[]"]) (simp add: hash_stream.simps)
  next
    case False
    then have "length (drop n content) < length content" using assms by simp
    then obtain ds where "hash_stream n (drop n content) (sha_update (take n content) s)
        = fold sha_update ds (sha_update (take n content) s)" "concat ds = drop n content"
      using 1 by blast
    then show ?thesis using False assms
      by (intro exI [of _ "take n content # ds"]) (simp add: hash_stream.simps [of n content])
  qed
qed

lemma hash_files_digest:
  "if list_all (\<lambda>f. if_open f \<and> if_reaches_eof f) files then
     \<exists>ds. hash_files subsys files s = Inr (fold sha_update ds s) \<and> concat ds = concat (map if_content files)
   else \<exists>e. hash_files subsys files s = Inl e \<and> code e = io_error"
proof (induction files arbitrary: s)
  case Nil
  then show ?case by (auto intro: exI [of _ "[]"])
next
  case (Cons f fs)
  obtain ds where ds: "hash_stream read_block (if_content f) s = fold sha_update ds s"
    "concat ds = if_content f"
    using hash_stream_chunks [of read_block "if_content f" s] by (auto simp: read_block_def)
  show ?case
  proof (cases "if_open f \<and> if_reaches_eof f \<and> list_all (\<lambda>f. if_open f \<and> if_reaches_eof f) fs")
    case True
    then obtain es where "hash_files subsys fs (fold sha_update ds s) = Inr (fold sha_update es (fold sha_update ds s))"
      "concat es = concat (map if_content fs)"
      using Cons [of "fold sha_update ds s"] by auto
    then show ?thesis using True ds
      by (auto intro!: exI [of _ "ds @ es"])
  next
    case False
    then show ?thesis using Cons [of "fold sha_update ds s"] ds by (auto simp: Let_def)
  qed
qed


end
