(* ===== verification/Json.thy ===== *)
theory Json
  imports OrdMaps Errors Sha256
begin

text \<open>
  \<^verbatim>\<open>src/common/json.hpp\<close>, \<^verbatim>\<open>src/common/json.cpp\<close>: the reader of artifact metadata. The parser's
  offset is the length of the unread rest of the input, which every function returns; \<open>n\<close> is the
  size of the input, for the offsets in messages. The nesting depth counts down from 65, so that
  the recursion of \<open>parse_value\<close> is structural; the two member loops carry fuel, one unit per
  remaining byte, which is shown to be enough. Reading a floating-point number is the argument
  \<open>read_double\<close>, which is \<open>None\<close> where the stream fails or the value is not finite.
\<close>

subsection \<open>Documents\<close>

datatype 'd json =
    JNull
  | JBoolean bool
  | JNumber 'd "int option"
  | JString string
  | JArray "'d json list"
  | JObject "(string \<times> 'd json) list"

definition json_find :: "'d json \<Rightarrow> string \<Rightarrow> 'd json option" where
  "json_find v key = (case v of JObject m \<Rightarrow> map_of m key | _ \<Rightarrow> None)"

definition is_null :: "'d json \<Rightarrow> bool" where
  "is_null v = (case v of JNull \<Rightarrow> True | _ \<Rightarrow> False)"

definition maximum_depth :: nat where "maximum_depth = 64"

definition json_fail :: "string \<Rightarrow> string \<Rightarrow> error + 'a" where
  "json_fail sub msg = Inl (Error invalid_argument msg sub)"

definition out_of_fuel :: error where
  "out_of_fuel = Error internal_error ''no fuel'' ''model''"

subsection \<open>Tokens\<close>

definition skip_whitespace :: "string \<Rightarrow> string" where
  "skip_whitespace cs = dropWhile isspace cs"

definition consume :: "char \<Rightarrow> string \<Rightarrow> string option" where
  "consume expected cs = (case cs of c # rest \<Rightarrow> if c = expected then Some rest else None | [] \<Rightarrow> None)"

definition at_offset :: "nat \<Rightarrow> string \<Rightarrow> string" where
  "at_offset n cs = '' at offset '' @ decimal_string (n - length cs)"

definition dquote :: char where "dquote = CHR 0x22"
definition backslash :: char where "backslash = CHR 0x5c"

definition simple_escape :: "char \<Rightarrow> char option" where
  "simple_escape e =
     (if e = dquote then Some dquote
      else if e = backslash then Some backslash
      else if e = CHR ''/'' then Some (CHR ''/'')
      else if e = CHR ''b'' then Some (CHR 0x08)
      else if e = CHR ''f'' then Some (CHR 0x0c)
      else if e = CHR ''n'' then Some (CHR 0x0a)
      else if e = CHR ''r'' then Some (CHR 0x0d)
      else if e = CHR ''t'' then Some (CHR 0x09)
      else None)"

definition xdigit_value :: "char \<Rightarrow> nat" where
  "xdigit_value c =
     (if isdigit c then char_code c - 48
      else if char_code c \<le> 70 then char_code c - 55 else char_code c - 87)"

definition hex_value :: "string \<Rightarrow> nat" where
  "hex_value s = foldl (\<lambda>acc c. acc * 16 + xdigit_value c) 0 s"

function string_loop :: "string \<Rightarrow> string \<Rightarrow> string \<Rightarrow> (string \<times> string) result" where
  "string_loop sub acc [] = json_fail sub ''unterminated JSON string''"
| "string_loop sub acc (c # cs) =
     (if c = dquote then Inr (acc, cs)
      else if char_code c < 0x20 then json_fail sub ''control character in JSON string''
      else if c \<noteq> backslash then string_loop sub (acc @ [c]) cs
      else case cs of
        [] \<Rightarrow> json_fail sub ''unterminated JSON escape''
      | e # rest \<Rightarrow>
        if e = CHR ''u'' then
          if length rest < 4 then json_fail sub ''truncated unicode escape''
          else if \<not> list_all isxdigit (take 4 rest) \<or> hex_value (take 4 rest) > 0x7f then
            json_fail sub ''unsupported unicode escape''
          else string_loop sub (acc @ [char_of (hex_value (take 4 rest))]) (drop 4 rest)
        else case simple_escape e of
          None \<Rightarrow> json_fail sub ''invalid JSON escape''
        | Some x \<Rightarrow> string_loop sub (acc @ [x]) rest)"
  by pat_completeness auto
termination by (relation "measure (\<lambda>(_, _, cs). length cs)") auto

definition parse_string :: "string \<Rightarrow> string \<Rightarrow> (string \<times> string) result" where
  "parse_string sub cs = (case consume dquote cs of
       None \<Rightarrow> json_fail sub ''expected JSON string''
     | Some rest \<Rightarrow> string_loop sub [] rest)"

definition parse_literal ::
  "string \<Rightarrow> nat \<Rightarrow> string \<Rightarrow> 'd json \<Rightarrow> string \<Rightarrow> ('d json \<times> string) result" where
  "parse_literal sub n literal val cs =
     (if take (length literal) cs \<noteq> literal then
        json_fail sub (''invalid JSON literal'' @ at_offset n cs)
      else Inr (val, drop (length literal) cs))"

text \<open>\<open>std::from_chars\<close> into a 64-bit integer, on a token of an optional sign and digits.\<close>

definition integer_token :: "string \<Rightarrow> int option" where
  "integer_token token =
     (let v = (case consume (CHR ''-'') token of
                 Some digits \<Rightarrow> - int (digits_value digits)
               | None \<Rightarrow> int (digits_value token)) in
      if - (2 ^ 63) \<le> v \<and> v < 2 ^ 63 then Some v else None)"

definition parse_fraction :: "string \<Rightarrow> string \<Rightarrow> (bool \<times> string) result" where
  "parse_fraction sub cs = (case consume (CHR ''.'') cs of
       None \<Rightarrow> Inr (True, cs)
     | Some rest \<Rightarrow>
       if takeWhile isdigit rest = [] then json_fail sub ''JSON number has an empty fraction''
       else Inr (False, dropWhile isdigit rest))"

definition parse_exponent :: "string \<Rightarrow> bool \<Rightarrow> string \<Rightarrow> (bool \<times> string) result" where
  "parse_exponent sub integral cs = (case cs of
       c # rest \<Rightarrow>
         if c = CHR ''e'' \<or> c = CHR ''E'' then
           let rest = (case consume (CHR ''+'') rest of
                 Some r \<Rightarrow> r
               | None \<Rightarrow> (case consume (CHR ''-'') rest of Some r \<Rightarrow> r | None \<Rightarrow> rest)) in
           if takeWhile isdigit rest = [] then json_fail sub ''JSON number has an empty exponent''
           else Inr (False, dropWhile isdigit rest)
         else Inr (integral, cs)
     | [] \<Rightarrow> Inr (integral, cs))"

definition parse_number ::
  "(string \<Rightarrow> 'd option) \<Rightarrow> string \<Rightarrow> nat \<Rightarrow> string \<Rightarrow> ('d json \<times> string) result" where
  "parse_number read_double sub n start =
     (let cs = (case consume (CHR ''-'') start of Some r \<Rightarrow> r | None \<Rightarrow> start);
          digits = takeWhile isdigit cs in
      if digits = [] then json_fail sub (''invalid JSON number'' @ at_offset n start)
      else if length digits > 1 \<and> hd digits = CHR ''0'' then
        json_fail sub (''JSON number has a leading zero'' @ at_offset n start)
      else
        res_bind (parse_fraction sub (dropWhile isdigit cs)) (\<lambda>(integral, cs).
        res_bind (parse_exponent sub integral cs) (\<lambda>(integral, cs).
        let token = take (length start - length cs) start in
        case read_double token of
          None \<Rightarrow> json_fail sub (''invalid JSON number'' @ at_offset n start)
        | Some number \<Rightarrow>
          Inr (JNumber number (if integral then integer_token token else None), cs))))"

subsection \<open>Values\<close>

type_synonym 'd element_parser = "string \<Rightarrow> ('d json \<times> string) result"

definition parse_member :: "string \<Rightarrow> 'd element_parser \<Rightarrow> (string \<times> 'd json) list \<Rightarrow> string
    \<Rightarrow> ((string \<times> 'd json) list \<times> string) result" where
  "parse_member sub element members cs =
     (let cs = skip_whitespace cs in
      if cs = [] \<or> hd cs \<noteq> dquote then json_fail sub ''object key must be a JSON string''
      else
        res_bind (parse_string sub cs) (\<lambda>(key, cs).
        case consume (CHR '':'') (skip_whitespace cs) of
          None \<Rightarrow> json_fail sub (''object key is missing '' @ [CHR 0x27, CHR '':'', CHR 0x27])
        | Some cs \<Rightarrow>
          res_bind (element cs) (\<lambda>(member, cs).
          let emplaced = omap_emplace key member members in
          if \<not> snd emplaced then json_fail sub ''duplicate object key''
          else Inr (fst emplaced, cs))))"

fun members_loop :: "string \<Rightarrow> 'd element_parser \<Rightarrow> nat \<Rightarrow> (string \<times> 'd json) list
    \<Rightarrow> 'd element_parser" where
  "members_loop sub element 0 members cs = Inl out_of_fuel"
| "members_loop sub element (Suc fuel) members cs =
     res_bind (parse_member sub element members cs) (\<lambda>(members, cs).
     let cs = skip_whitespace cs in
     case consume (CHR ''}'') cs of
       Some cs \<Rightarrow> Inr (JObject members, cs)
     | None \<Rightarrow>
       (case consume (CHR '','') cs of
          None \<Rightarrow> json_fail sub (''object member is missing '' @ [CHR 0x27, CHR '','', CHR 0x27])
        | Some cs \<Rightarrow> members_loop sub element fuel members cs))"

definition parse_object :: "string \<Rightarrow> 'd element_parser \<Rightarrow> 'd element_parser" where
  "parse_object sub element cs =
     (let cs = skip_whitespace cs in
      case consume (CHR ''}'') cs of
        Some cs \<Rightarrow> Inr (JObject [], cs)
      | None \<Rightarrow> members_loop sub element (Suc (length cs)) [] cs)"

fun elements_loop :: "string \<Rightarrow> 'd element_parser \<Rightarrow> nat \<Rightarrow> 'd json list \<Rightarrow> 'd element_parser" where
  "elements_loop sub element 0 elements cs = Inl out_of_fuel"
| "elements_loop sub element (Suc fuel) elements cs =
     res_bind (element cs) (\<lambda>(e, cs).
     let elements = elements @ [e]; cs = skip_whitespace cs in
     case consume (CHR '']'') cs of
       Some cs \<Rightarrow> Inr (JArray elements, cs)
     | None \<Rightarrow>
       (case consume (CHR '','') cs of
          None \<Rightarrow> json_fail sub (''array element is missing '' @ [CHR 0x27, CHR '','', CHR 0x27])
        | Some cs \<Rightarrow> elements_loop sub element fuel elements cs))"

definition parse_array :: "string \<Rightarrow> 'd element_parser \<Rightarrow> 'd element_parser" where
  "parse_array sub element cs =
     (let cs = skip_whitespace cs in
      case consume (CHR '']'') cs of
        Some cs \<Rightarrow> Inr (JArray [], cs)
      | None \<Rightarrow> elements_loop sub element (Suc (length cs)) [] cs)"

primrec parse_value ::
  "(string \<Rightarrow> 'd option) \<Rightarrow> string \<Rightarrow> nat \<Rightarrow> nat \<Rightarrow> 'd element_parser" where
  "parse_value read_double sub n 0 = (\<lambda>cs. json_fail sub ''JSON nesting is too deep'')"
| "parse_value read_double sub n (Suc levels) = (\<lambda>cs.
     let cs = skip_whitespace cs in
     case cs of
       [] \<Rightarrow> json_fail sub ''unexpected end of JSON''
     | next # rest \<Rightarrow>
       if next = CHR ''{'' then parse_object sub (parse_value read_double sub n levels) rest
       else if next = CHR ''['' then parse_array sub (parse_value read_double sub n levels) rest
       else if next = dquote then
         res_bind (parse_string sub cs) (\<lambda>(s, cs). Inr (JString s, cs))
       else if next = CHR ''t'' then parse_literal sub n ''true'' (JBoolean True) cs
       else if next = CHR ''f'' then parse_literal sub n ''false'' (JBoolean False) cs
       else if next = CHR ''n'' then parse_literal sub n ''null'' JNull cs
       else if next = CHR ''-'' \<or> isdigit next then parse_number read_double sub n cs
       else json_fail sub (''unexpected JSON token'' @ at_offset n cs))"

definition json_parser :: "(string \<Rightarrow> 'd option) \<Rightarrow> string \<Rightarrow> string \<Rightarrow> 'd json result" where
  "json_parser read_double sub input =
     res_bind (parse_value read_double sub (length input) (Suc maximum_depth) input) (\<lambda>(v, cs).
     let cs = skip_whitespace cs in
     if cs \<noteq> [] then json_fail sub (''trailing JSON data'' @ at_offset (length input) cs)
     else Inr v)"

definition json_parse :: "bool \<Rightarrow> (string \<Rightarrow> 'd option) \<Rightarrow> string \<Rightarrow> string \<Rightarrow> 'd json result" where
  "json_parse memory read_double document sub =
     (if \<not> memory then Inl (Error resource_exhausted ''JSON document is too large'' sub)
      else json_parser read_double sub document)"

definition path_filename :: "string \<Rightarrow> string" where
  "path_filename path = rev (takeWhile (\<lambda>c. c \<noteq> CHR ''/'') (rev path))"

text \<open>\<open>fs::path::operator/\<close> for a relative right operand, \<open>extension\<close> and \<open>stem\<close>.\<close>

definition path_append :: "string \<Rightarrow> string \<Rightarrow> string" where
  "path_append base name = (if base = [] \<or> last base = CHR ''/'' then base @ name else base @ ''/'' @ name)"

definition path_extension :: "string \<Rightarrow> string" where
  "path_extension path =
     (let f = path_filename path; suffix = takeWhile (\<lambda>c. c \<noteq> CHR ''.'') (rev f) in
      if f = ''.'' \<or> f = ''..'' \<or> CHR ''.'' \<notin> set f \<or> Suc (length suffix) = length f then []
      else CHR ''.'' # rev suffix)"

definition path_stem :: "string \<Rightarrow> string" where
  "path_stem path = (let f = path_filename path in take (length f - length (path_extension path)) f)"

definition json_parse_file ::
  "bool \<Rightarrow> (string \<Rightarrow> 'd option) \<Rightarrow> input_file \<Rightarrow> string \<Rightarrow> 'd json result" where
  "json_parse_file memory read_double file sub =
     (if \<not> if_open file then Inl (Error missing_artifact (''cannot open '' @ if_path file) sub)
      else if \<not> if_reaches_eof file then Inl (Error io_error (''cannot read '' @ if_path file) sub)
      else case json_parse memory read_double (as_string (if_content file)) sub of
        Inl e \<Rightarrow> Inl (Error (code e) (path_filename (if_path file) @ '': '' @ message e) sub)
      | Inr v \<Rightarrow> Inr v)"

subsection \<open>Every parse ends\<close>

lemma json_fail_simps [simp]:
  "json_fail sub msg \<noteq> Inl out_of_fuel" "json_fail sub msg \<noteq> Inr x"
  by (simp_all add: json_fail_def out_of_fuel_def)

lemma length_skip: "length (skip_whitespace cs) \<le> length cs"
  by (simp add: skip_whitespace_def length_dropWhile_le)

lemma consume_Some: "consume c cs = Some rest \<longleftrightarrow> cs = c # rest"
  by (cases cs) (auto simp: consume_def)

lemma string_loop_fueled: "string_loop sub acc cs \<noteq> Inl out_of_fuel"
proof (induction sub acc cs rule: string_loop.induct)
  case (2 sub acc c cs)
  then show ?case by (simp split: list.split option.split)
qed simp

lemma string_loop_length: "string_loop sub acc cs = Inr (s, cs') \<Longrightarrow> length cs' < length cs"
proof (induction sub acc cs rule: string_loop.induct)
  case (2 sub acc c cs)
  show ?case
  proof (cases "c = dquote \<or> char_code c < 0x20 \<or> c \<noteq> backslash")
    case True
    then show ?thesis using 2 by (fastforce split: if_split_asm)
  next
    case False
    with 2 obtain e rest where cs: "cs = e # rest" by (cases cs) auto
    show ?thesis
    proof (cases "e = CHR ''u''")
      case True
      then show ?thesis using False 2 cs by (fastforce split: if_split_asm)
    next
      case e: False
      then show ?thesis
        using False 2 cs by (cases "simple_escape e") fastforce+
    qed
  qed
qed simp

lemma parse_string_props:
  "parse_string sub cs \<noteq> Inl out_of_fuel"
  "parse_string sub cs = Inr (s, cs') \<Longrightarrow> length cs' < length cs"
proof -
  show "parse_string sub cs \<noteq> Inl out_of_fuel"
    by (simp add: parse_string_def string_loop_fueled split: option.split)
  assume "parse_string sub cs = Inr (s, cs')"
  then obtain rest where "cs = dquote # rest" "string_loop sub [] rest = Inr (s, cs')"
    by (auto simp: parse_string_def consume_Some split: option.splits)
  then show "length cs' < length cs" using string_loop_length [of sub "[]" rest s cs'] by simp
qed

lemma parse_literal_props:
  "parse_literal sub n l v cs \<noteq> Inl out_of_fuel"
  "parse_literal sub n l v cs = Inr (w, cs') \<Longrightarrow> l \<noteq> [] \<Longrightarrow> w = v \<and> length cs' < length cs"
proof -
  show "parse_literal sub n l v cs \<noteq> Inl out_of_fuel" by (simp add: parse_literal_def)
  assume a: "parse_literal sub n l v cs = Inr (w, cs')" "l \<noteq> []"
  then have "take (length l) cs = l" by (auto simp: parse_literal_def split: if_splits)
  then have "cs \<noteq> []" using a(2) by auto
  with a show "w = v \<and> length cs' < length cs" by (auto simp: parse_literal_def split: if_splits)
qed

lemma parse_fraction_props:
  "parse_fraction sub cs \<noteq> Inl out_of_fuel"
  "parse_fraction sub cs = Inr (i, cs') \<Longrightarrow> length cs' \<le> length cs"
  using length_dropWhile_le [of isdigit]
  by (auto simp: parse_fraction_def consume_Some le_SucI split: option.splits if_splits)

lemma parse_exponent_props:
  "parse_exponent sub b cs \<noteq> Inl out_of_fuel"
  "parse_exponent sub b cs = Inr (i, cs') \<Longrightarrow> length cs' \<le> length cs"
proof -
  show "parse_exponent sub b cs \<noteq> Inl out_of_fuel"
    by (auto simp: parse_exponent_def Let_def split: list.splits)
  have le: "length (dropWhile isdigit r) \<le> length r" for r by (rule length_dropWhile_le)
  show "length cs' \<le> length cs" if "parse_exponent sub b cs = Inr (i, cs')"
    using that
    by (auto simp: parse_exponent_def Let_def consume_Some intro!: order_trans [OF le]
          split: list.splits if_splits option.splits)
qed

definition int64_range :: "int option \<Rightarrow> bool" where
  "int64_range i \<longleftrightarrow> (\<forall>x. i = Some x \<longrightarrow> - (2 ^ 63) \<le> x \<and> x < 2 ^ 63)"

lemma parse_number_props:
  "parse_number rd sub n cs \<noteq> Inl out_of_fuel"
  "parse_number rd sub n cs = Inr (v, cs') \<Longrightarrow> length cs' < length cs \<and> (\<exists>d i. v = JNumber d i \<and> int64_range i)"
proof -
  let ?c1 = "case consume (CHR ''-'') cs of Some r \<Rightarrow> r | None \<Rightarrow> cs"
  show "parse_number rd sub n cs \<noteq> Inl out_of_fuel"
    using parse_fraction_props(1) parse_exponent_props(1)
    by (auto simp: parse_number_def Let_def result_simps split: option.splits)
  assume "parse_number rd sub n cs = Inr (v, cs')"
  then obtain b c2 b' d where dg: "takeWhile isdigit ?c1 \<noteq> []"
    and f: "parse_fraction sub (dropWhile isdigit ?c1) = Inr (b, c2)"
    and e: "parse_exponent sub b c2 = Inr (b', cs')"
    and v: "v = JNumber d (if b' then integer_token (take (length cs - length cs') cs) else None)"
    by (auto simp: parse_number_def Let_def result_simps simp del: if_split_eq1
          split: option.split_asm if_split_asm)
  have "length (takeWhile isdigit ?c1) + length (dropWhile isdigit ?c1) = length ?c1"
    by (metis length_append takeWhile_dropWhile_id)
  moreover have "length ?c1 \<le> length cs" by (auto simp: consume_Some split: option.splits)
  moreover have "length (takeWhile isdigit ?c1) > 0" using dg by blast
  ultimately have "length cs' < length cs"
    using parse_fraction_props(2) [OF f] parse_exponent_props(2) [OF e] by linarith
  with v show "length cs' < length cs \<and> (\<exists>d i. v = JNumber d i \<and> int64_range i)"
    by (auto simp: int64_range_def integer_token_def Let_def split: if_splits)
qed

text \<open>What the loops over members and elements rely on.\<close>

locale json_element =
  fixes element :: "'d element_parser"
    and good :: "'d json \<Rightarrow> bool"
  assumes consumes: "element cs = Inr (v, cs') \<Longrightarrow> length cs' < length cs"
    and fueled: "element cs \<noteq> Inl out_of_fuel"
    and element_good: "element cs = Inr (v, cs') \<Longrightarrow> good v"
begin

lemma elements_loop_fueled:
  "length cs < fuel \<Longrightarrow> elements_loop sub element fuel vs cs \<noteq> Inl out_of_fuel"
proof (induction fuel arbitrary: vs cs)
  case (Suc fuel)
  show ?case
  proof
    assume a: "elements_loop sub element (Suc fuel) vs cs = Inl out_of_fuel"
    then obtain v c1 c2 where "element cs = Inr (v, c1)" "skip_whitespace c1 = CHR '','' # c2"
      "elements_loop sub element fuel (vs @ [v]) c2 = Inl out_of_fuel"
      by (auto simp: fueled result_simps Let_def consume_Some split: option.splits)
    moreover from this have "length c2 < fuel"
      using consumes [of cs v c1] length_skip [of c1] Suc.prems by simp
    ultimately show False using Suc.IH by blast
  qed
qed simp

lemma elements_loop_result:
  "elements_loop sub element fuel vs cs = Inr (v, cs') \<Longrightarrow> list_all good vs \<Longrightarrow>
     length cs' < length cs \<and> (\<exists>ws. v = JArray ws \<and> list_all good ws)"
proof (induction fuel arbitrary: vs cs)
  case (Suc fuel)
  from Suc.prems(1) obtain w c1 where w: "element cs = Inr (w, c1)"
    and rest: "skip_whitespace c1 = CHR '']'' # cs' \<and> v = JArray (vs @ [w])
      \<or> (\<exists>c2. skip_whitespace c1 = CHR '','' # c2 \<and> elements_loop sub element fuel (vs @ [w]) c2 = Inr (v, cs'))"
    by (auto simp: result_simps Let_def consume_Some split: option.splits)
  have "list_all good (vs @ [w])" using Suc.prems(2) element_good [OF w] by simp
  then show ?case
    using rest Suc.IH [of "vs @ [w]"] consumes [OF w] length_skip [of c1] by fastforce
qed simp

lemma parse_member_fueled: "parse_member sub element ms cs \<noteq> Inl out_of_fuel"
proof
  assume "parse_member sub element ms cs = Inl out_of_fuel"
  then show False
    by (auto simp: parse_member_def Let_def result_simps fueled parse_string_props(1)
          split: option.split_asm if_split_asm)
qed

lemma parse_member_Inr:
  assumes "parse_member sub element ms cs = Inr (ms', cs')"
  obtains k c1 c2 w where "parse_string sub (skip_whitespace cs) = Inr (k, c1)"
    "skip_whitespace c1 = CHR '':'' # c2" "element c2 = Inr (w, cs')" "omap_emplace k w ms = (ms', True)"
  using assms
  by (auto simp: parse_member_def Let_def result_simps consume_Some prod_eq_iff
        split: option.split_asm if_split_asm)

lemma parse_member_length:
  assumes "parse_member sub element ms cs = Inr (ms', cs')"
  shows "length cs' < length cs"
proof -
  from assms obtain k c1 c2 w where k: "parse_string sub (skip_whitespace cs) = Inr (k, c1)"
    "skip_whitespace c1 = CHR '':'' # c2" "element c2 = Inr (w, cs')"
    by (rule parse_member_Inr)
  then show ?thesis
    using consumes [OF k(3)] parse_string_props(2) [OF k(1)] length_skip [of c1] length_skip [of cs]
    by simp
qed

lemma parse_member_good:
  assumes "parse_member sub element ms cs = Inr (ms', cs')" "omap_ok ms" "list_all (good \<circ> snd) ms"
  shows "omap_ok ms' \<and> list_all (good \<circ> snd) ms'"
proof -
  from assms(1) obtain k c w where w: "element c = Inr (w, cs')" and e: "omap_emplace k w ms = (ms', True)"
    by (rule parse_member_Inr)
  have "set ms' \<subseteq> insert (k, w) (set ms)"
    using e set_omap_assign_pairs [of k w ms]
    by (auto simp: omap_emplace_def split: option.splits)
  then have "list_all (good \<circ> snd) ms'" using assms(3) element_good [OF w] by (auto simp: list_all_iff)
  then show ?thesis using om.ok_emplace [OF assms(2), of k w] e by simp
qed

lemma members_loop_fueled:
  "length cs < fuel \<Longrightarrow> members_loop sub element fuel ms cs \<noteq> Inl out_of_fuel"
proof (induction fuel arbitrary: ms cs)
  case (Suc fuel)
  show ?case
  proof
    assume "members_loop sub element (Suc fuel) ms cs = Inl out_of_fuel"
    then obtain ms' c1 c2 where "parse_member sub element ms cs = Inr (ms', c1)"
      "skip_whitespace c1 = CHR '','' # c2" "members_loop sub element fuel ms' c2 = Inl out_of_fuel"
      by (auto simp: parse_member_fueled result_simps Let_def consume_Some split: option.splits)
    moreover from this have "length c2 < fuel"
      using parse_member_length [of sub ms cs ms' c1] length_skip [of c1] Suc.prems by simp
    ultimately show False using Suc.IH by blast
  qed
qed simp

lemma members_loop_result:
  "members_loop sub element fuel ms cs = Inr (v, cs') \<Longrightarrow> omap_ok ms \<Longrightarrow> list_all (good \<circ> snd) ms \<Longrightarrow>
     length cs' < length cs \<and> (\<exists>ns. v = JObject ns \<and> omap_ok ns \<and> list_all (good \<circ> snd) ns)"
proof (induction fuel arbitrary: ms cs)
  case (Suc fuel)
  from Suc.prems(1) obtain ms' c1 where m: "parse_member sub element ms cs = Inr (ms', c1)"
    and rest: "skip_whitespace c1 = CHR ''}'' # cs' \<and> v = JObject ms'
      \<or> (\<exists>c2. skip_whitespace c1 = CHR '','' # c2 \<and> members_loop sub element fuel ms' c2 = Inr (v, cs'))"
    by (auto simp: result_simps Let_def consume_Some split: option.splits)
  have g: "omap_ok ms'" "list_all (good \<circ> snd) ms'" and l: "length c1 < length cs"
    using parse_member_good [OF m Suc.prems(2,3)] parse_member_length [OF m] by blast+
  from rest show ?case
  proof (elim disjE exE conjE)
    assume "skip_whitespace c1 = CHR ''}'' # cs'" "v = JObject ms'"
    then show ?thesis using g l length_skip [of c1] by (auto simp: list_all_iff)
  next
    fix c2 assume c2: "skip_whitespace c1 = CHR '','' # c2"
      and r: "members_loop sub element fuel ms' c2 = Inr (v, cs')"
    have "length c2 < length cs" using l length_skip [of c1] c2 by simp
    with Suc.IH [OF r g] show ?thesis by (blast intro: less_trans)
  qed
qed simp

lemma parse_array_props:
  "parse_array sub element cs \<noteq> Inl out_of_fuel"
  "parse_array sub element cs = Inr (v, cs') \<Longrightarrow>
     length cs' \<le> length cs \<and> (\<exists>ws. v = JArray ws \<and> list_all good ws)"
proof -
  show "parse_array sub element cs \<noteq> Inl out_of_fuel"
    using elements_loop_fueled [of "skip_whitespace cs"]
    by (simp add: parse_array_def Let_def del: elements_loop.simps split: option.split)
  assume a: "parse_array sub element cs = Inr (v, cs')"
  show "length cs' \<le> length cs \<and> (\<exists>ws. v = JArray ws \<and> list_all good ws)"
  proof (cases "consume (CHR '']'') (skip_whitespace cs)")
    case None
    then show ?thesis
      using a elements_loop_result [of sub "Suc (length (skip_whitespace cs))" "[]" "skip_whitespace cs" v cs'] length_skip [of cs]
      by (simp add: parse_array_def Let_def del: elements_loop.simps)
  next
    case (Some rest)
    then show ?thesis using a length_skip [of cs] 
      by (auto simp: parse_array_def Let_def consume_def split: list.splits if_splits)
  qed
qed

lemma parse_object_props:
  "parse_object sub element cs \<noteq> Inl out_of_fuel"
  "parse_object sub element cs = Inr (v, cs') \<Longrightarrow>
     length cs' \<le> length cs \<and> (\<exists>ns. v = JObject ns \<and> omap_ok ns \<and> list_all (good \<circ> snd) ns)"
proof -
  show "parse_object sub element cs \<noteq> Inl out_of_fuel"
    using members_loop_fueled [of "skip_whitespace cs"]
    by (simp add: parse_object_def Let_def del: members_loop.simps split: option.split)
  assume a: "parse_object sub element cs = Inr (v, cs')"
  show "length cs' \<le> length cs \<and> (\<exists>ns. v = JObject ns \<and> omap_ok ns \<and> list_all (good \<circ> snd) ns)"
  proof (cases "consume (CHR ''}'') (skip_whitespace cs)")
    case None
    then show ?thesis
      using a members_loop_result [of sub "Suc (length (skip_whitespace cs))" "[]" "skip_whitespace cs" v cs'] length_skip [of cs]
      by (simp add: parse_object_def Let_def om.ok_empty del: members_loop.simps)
  next
    case (Some rest)
    then show ?thesis
      using a length_skip [of cs] by (auto simp: parse_object_def Let_def consume_def om.ok_empty split: list.splits if_splits)
  qed
qed

end

subsection \<open>The parser meets the contract\<close>

primrec json_wf :: "nat \<Rightarrow> 'd json \<Rightarrow> bool" where
  "json_wf 0 v = False"
| "json_wf (Suc levels) v = (case v of
       JArray vs \<Rightarrow> list_all (json_wf levels) vs
     | JObject m \<Rightarrow> omap_ok m \<and> list_all (json_wf levels \<circ> snd) m
     | JNumber d i \<Rightarrow> int64_range i
     | _ \<Rightarrow> True)"

lemma parse_value_cases:
  assumes el: "json_element (parse_value rd sub n levels) (json_wf levels)"
  shows "parse_value rd sub n (Suc levels) cs \<noteq> Inl out_of_fuel"
    "parse_value rd sub n (Suc levels) cs = Inr (v, cs') \<Longrightarrow>
       length cs' < length cs \<and> json_wf (Suc levels) v"
proof -
  note arr = json_element.parse_array_props [OF el] and obj = json_element.parse_object_props [OF el]
  show "parse_value rd sub n (Suc levels) cs \<noteq> Inl out_of_fuel"
    by (simp add: Let_def arr(1) obj(1) parse_literal_props(1) parse_number_props(1) result_simps
          parse_string_props(1) split: list.split prod.split)
  assume a: "parse_value rd sub n (Suc levels) cs = Inr (v, cs')"
  then obtain c rest where c: "skip_whitespace cs = c # rest"
    by (cases "skip_whitespace cs") (simp_all add: Let_def)
  have l: "length (c # rest) \<le> length cs" using length_skip [of cs] c by simp
  have str: "\<exists>s. parse_string sub (c # rest) = Inr (s, cs') \<and> v = JString s"
    if "res_bind (parse_string sub (c # rest)) (\<lambda>(s, cs). Inr (JString s, cs)) = Inr (v, cs')"
    using that by (auto simp: result_simps)
  from a c consider
      "parse_object sub (parse_value rd sub n levels) rest = Inr (v, cs')"
    | "parse_array sub (parse_value rd sub n levels) rest = Inr (v, cs')"
    | s where "parse_string sub (c # rest) = Inr (s, cs')" "v = JString s"
    | "parse_literal sub n ''true'' (JBoolean True) (c # rest) = Inr (v, cs')"
    | "parse_literal sub n ''false'' (JBoolean False) (c # rest) = Inr (v, cs')"
    | "parse_literal sub n ''null'' JNull (c # rest) = Inr (v, cs')"
    | "parse_number rd sub n (c # rest) = Inr (v, cs')"
    using str by (simp add: Let_def split: if_split_asm) blast+
  then show "length cs' < length cs \<and> json_wf (Suc levels) v"
  proof cases
    case 1
    then show ?thesis using obj(2) [OF 1] l by auto
  next
    case 2
    then show ?thesis using arr(2) [OF 2] l by auto
  next
    case (3 s)
    then show ?thesis using parse_string_props(2) [OF 3(1)] l by simp
  next
    case 4
    then show ?thesis using parse_literal_props(2) [OF 4] l by auto
  next
    case 5
    then show ?thesis using parse_literal_props(2) [OF 5] l by auto
  next
    case 6
    then show ?thesis using parse_literal_props(2) [OF 6] l by auto
  next
    case 7
    then show ?thesis using parse_number_props(2) [OF 7] l by auto
  qed
qed

lemma parse_value_element: "json_element (parse_value rd sub n levels) (json_wf levels)"
proof (induction levels)
  case 0
  show ?case by unfold_locales simp_all
next
  case (Suc levels)
  show ?case using parse_value_cases [OF Suc] by (intro json_element.intro) blast+
qed

interpretation jv: json_element "parse_value rd sub n levels" "json_wf levels"
  by (rule parse_value_element)

lemma json_parser_wf:
  assumes "json_parser read_double sub input = Inr v"
  shows "json_wf (Suc maximum_depth) v"
  using assms jv.element_good [where levels = "Suc maximum_depth" and cs = input and n = "length input"]
  by (auto simp: json_parser_def result_simps Let_def split: if_splits simp del: parse_value.simps json_wf.simps)

text \<open>
  Property C34. Parsing a document always ends: the fuel of the member loops, one unit per
  remaining byte, is never used up. A parsed document is nested at most 65 levels deep (the
  limit of 64 below the top level), every object in it has distinct keys in order, and every
  integer is in the range of a 64-bit signed integer.
\<close>

theorem json_parser_total:
  "case json_parser read_double sub input of
     Inl e \<Rightarrow> e \<noteq> out_of_fuel
   | Inr v \<Rightarrow> json_wf (Suc maximum_depth) v"
proof (cases "json_parser read_double sub input")
  case (Inl e)
  then show ?thesis
    using jv.fueled [where levels = "Suc maximum_depth" and cs = input and n = "length input"]
    by (auto simp: json_parser_def result_simps Let_def json_fail_def out_of_fuel_def
          split: if_splits simp del: parse_value.simps)
next
  case (Inr v)
  then show ?thesis using json_parser_wf [OF Inr] by (simp del: json_wf.simps)
qed

subsection \<open>A printer\<close>

definition int_string :: "int \<Rightarrow> string" where
  "int_string i = (if i < 0 then CHR ''-'' # decimal_string (nat (- i)) else decimal_string (nat i))"

definition escape_char :: "char \<Rightarrow> string" where
  "escape_char c =
     (if c = dquote then [backslash, dquote]
      else if c = backslash then [backslash, backslash]
      else if char_code c < 0x20 then
        backslash # CHR ''u'' # ''00'' @ [hex_digit (char_code c div 16), hex_digit (char_code c mod 16)]
      else [c])"

definition quote_string :: "string \<Rightarrow> string" where
  "quote_string s = dquote # concat (map escape_char s) @ [dquote]"

fun join_commas :: "string list \<Rightarrow> string" where
  "join_commas [] = []"
| "join_commas [x] = x"
| "join_commas (x # y # xs) = x @ CHR '','' # join_commas (y # xs)"

fun json_print :: "'d json \<Rightarrow> string" where
  "json_print JNull = ''null''"
| "json_print (JBoolean b) = (if b then ''true'' else ''false'')"
| "json_print (JNumber d i) = (case i of Some i \<Rightarrow> int_string i | None \<Rightarrow> [])"
| "json_print (JString s) = quote_string s"
| "json_print (JArray vs) = CHR ''['' # join_commas (map json_print vs) @ '']''"
| "json_print (JObject m) =
     CHR ''{'' # join_commas (map (\<lambda>(k, v). quote_string k @ CHR '':'' # json_print v) m) @ ''}''"

fun json_integral :: "(string \<Rightarrow> 'd option) \<Rightarrow> 'd json \<Rightarrow> bool" where
  "json_integral rd (JNumber d i) = (case i of Some i \<Rightarrow> rd (int_string i) = Some d | None \<Rightarrow> False)"
| "json_integral rd (JArray vs) = list_all (json_integral rd) vs"
| "json_integral rd (JObject m) = list_all (\<lambda>(k, v). json_integral rd v) m"
| "json_integral rd _ = True"

lemma hex_digit_props:
  assumes "d < 16"
  shows "isxdigit (hex_digit d)" "xdigit_value (hex_digit d) = d"
proof -
  have "char_code (hex_digit d) = (if d < 10 then 48 + d else 87 + d)"
    using assms by (simp add: hex_digit_def char_code_def)
  then show "isxdigit (hex_digit d)" "xdigit_value (hex_digit d) = d"
    using assms by (auto simp: isxdigit_def xdigit_value_def isdigit_def)
qed

lemma xdigit_zero [simp]: "isxdigit CHR ''0''" "xdigit_value CHR ''0'' = 0"
  by (simp_all add: isxdigit_def xdigit_value_def isdigit_def char_code_def)

lemma escape_marks [simp]: "backslash \<noteq> dquote" "dquote \<noteq> backslash" "\<not> char_code backslash < 32"
  by (simp_all add: backslash_def dquote_def char_code_def)

lemma string_loop_unicode:
  assumes "length xs = 4" "list_all isxdigit xs" "hex_value xs \<le> 0x7f"
  shows "string_loop sub acc (backslash # CHR ''u'' # xs @ cs) = string_loop sub (acc @ [char_of (hex_value xs)]) cs"
  using assms by simp

lemma string_loop_simple:
  assumes "simple_escape e = Some x"
  shows "string_loop sub acc (backslash # e # cs) = string_loop sub (acc @ [x]) cs"
proof -
  have "e \<noteq> CHR ''u''" using assms by (auto simp: simple_escape_def dquote_def backslash_def)
  then show ?thesis using assms by simp
qed

lemma string_loop_escape:
  "string_loop sub acc (escape_char c @ cs) = string_loop sub (acc @ [c]) cs"
proof -
  consider "c = dquote" | "c = backslash" | "c \<noteq> dquote" "c \<noteq> backslash" "char_code c < 32"
    | "c \<noteq> dquote" "c \<noteq> backslash" "\<not> char_code c < 32" by blast
  then show ?thesis
  proof cases
    case 1
    then show ?thesis
      using string_loop_simple [of dquote dquote]
      by (simp add: escape_char_def simple_escape_def del: string_loop.simps)
  next
    case 2
    then show ?thesis
      using string_loop_simple [of backslash backslash]
      by (simp add: escape_char_def simple_escape_def del: string_loop.simps)
  next
    case 3
    let ?xs = "''00'' @ [hex_digit (char_code c div 16), hex_digit (char_code c mod 16)]"
    have "char_code c div 16 < 16" "char_code c mod 16 < 16" using 3 by auto
    then have "hex_value ?xs = char_code c" "list_all isxdigit ?xs"
      by (simp_all add: hex_value_def hex_digit_props)
    moreover have "char_of (char_code c) = c" by (simp add: char_code_def)
    ultimately show ?thesis
      using string_loop_unicode [of ?xs sub acc cs] 3
      by (simp add: escape_char_def del: string_loop.simps)
  next
    case 4
    then show ?thesis by (simp add: escape_char_def)
  qed
qed

lemma parse_string_quoted: "parse_string sub (quote_string s @ rest) = Inr (s, rest)"
proof -
  have "string_loop sub acc (concat (map escape_char s) @ dquote # rest) = Inr (acc @ s, rest)" for acc
    by (induction s arbitrary: acc) (simp_all add: string_loop_escape del: string_loop.simps(2), simp)
  then show ?thesis
    by (simp add: parse_string_def quote_string_def consume_def del: string_loop.simps)
qed

subsection \<open>Printed documents parse back\<close>

lemma decimal_string_digits: "decimal_string n \<noteq> []" "list_all isdigit (decimal_string n)"
  "digits_value (decimal_string n) = n"
  using decimal_value_string [of n] by (simp_all add: decimal_value_def split: if_splits)

lemma decimal_string_no_zero: "0 < n \<Longrightarrow> hd (decimal_string n) \<noteq> CHR ''0''"
proof (induction n rule: decimal_string.induct)
  case (1 n)
  show ?case
  proof (cases "n < 10")
    case True
    then have "char_code (digit_char n) = 48 + n" by (simp add: digit_char_def char_code_def)
    then have "digit_char n \<noteq> CHR ''0''" using 1 by (auto simp: char_code_def)
    then show ?thesis using True by (simp add: decimal_string.simps [of n])
  next
    case False
    then show ?thesis
      using 1 decimal_string_digits(1) [of "n div 10"] by (simp add: decimal_string.simps [of n])
  qed
qed

definition ends_value :: "string \<Rightarrow> bool" where
  "ends_value rest \<longleftrightarrow> rest = [] \<or> hd rest = CHR '','' \<or> hd rest = CHR '']'' \<or> hd rest = CHR ''}''"

lemma digits_prefix:
  assumes "list_all isdigit ds" "ends_value rest"
  shows "takeWhile isdigit (ds @ rest) = ds" "dropWhile isdigit (ds @ rest) = rest"
proof -
  have r: "takeWhile isdigit rest = []" "dropWhile isdigit rest = rest"
    using assms(2) by (cases rest; auto simp: ends_value_def isdigit_def char_code_def)+
  have "\<forall>x \<in> set ds. isdigit x" using assms(1) by (simp add: list_all_iff)
  then show "takeWhile isdigit (ds @ rest) = ds" "dropWhile isdigit (ds @ rest) = rest"
    using r by simp_all
qed

lemma ends_value_number:
  assumes "ends_value rest"
  shows "parse_fraction sub rest = Inr (True, rest)" "parse_exponent sub b rest = Inr (b, rest)"
  using assms
  by (cases rest; auto simp: ends_value_def parse_fraction_def parse_exponent_def consume_def)+

lemma parse_number_int:
  assumes rd: "rd (int_string i) = Some d" and range: "- (2 ^ 63) \<le> i" "i < 2 ^ 63"
    and rest: "ends_value rest"
  shows "parse_number rd sub n (int_string i @ rest) = Inr (JNumber d (Some i), rest)"
proof -
  define ds where "ds = decimal_string (nat \<bar>i\<bar>)"
  have ds: "ds \<noteq> []" "list_all isdigit ds" "digits_value ds = nat \<bar>i\<bar>"
    "\<not> (length ds > 1 \<and> hd ds = CHR ''0'')"
  proof -
    show "ds \<noteq> []" "list_all isdigit ds" "digits_value ds = nat \<bar>i\<bar>"
      by (simp_all add: ds_def decimal_string_digits)
    show "\<not> (length ds > 1 \<and> hd ds = CHR ''0'')"
      using decimal_string_no_zero [of "nat \<bar>i\<bar>"]
      by (cases "i = 0") (auto simp: ds_def decimal_string.simps [of 0])
  qed
  have nm: "consume (CHR ''-'') (ds @ xs) = None" for xs
    using ds(1,2) by (cases ds) (auto simp: consume_def isdigit_def char_code_def)
  show ?thesis
  proof (cases "i < 0")
    case True
    then have s: "int_string i = CHR ''-'' # ds" by (simp add: int_string_def ds_def)
    have "integer_token (int_string i) = Some i"
      using True range ds(3) by (simp add: integer_token_def s consume_def)
    then show ?thesis
      using rd ds digits_prefix [OF ds(2) rest] ends_value_number [OF rest] s
      by (auto simp: parse_number_def consume_def)
  next
    case False
    then have s: "int_string i = ds" by (simp add: int_string_def ds_def)
    have "integer_token (int_string i) = Some i"
      using False range ds(3) nm [of "[]"] by (simp add: integer_token_def s)
    then show ?thesis
      using rd ds digits_prefix [OF ds(2) rest] ends_value_number [OF rest] s nm
      by (auto simp: parse_number_def)
  qed
qed

definition starts_value :: "char \<Rightarrow> bool" where
  "starts_value c \<longleftrightarrow> \<not> isspace c \<and> c \<noteq> CHR '']'' \<and> c \<noteq> CHR ''}''"

lemma skip_nonspace: "\<not> isspace c \<Longrightarrow> skip_whitespace (c # cs) = c # cs"
  by (simp add: skip_whitespace_def)

lemma nonspace_marks [simp]:
  "\<not> isspace dquote" "\<not> isspace CHR '',''" "\<not> isspace CHR '']''" "\<not> isspace CHR ''}''"
  "\<not> isspace CHR '':''" "\<not> isspace CHR ''{''" "\<not> isspace CHR ''[''"
  by (simp_all add: isspace_def dquote_def char_code_def)

lemma int_string_start: "\<exists>c cs. int_string i = c # cs \<and> (c = CHR ''-'' \<or> isdigit c)"
  using decimal_string_digits [of "nat i"] decimal_string_digits [of "nat (- i)"]
  by (auto simp: int_string_def neq_Nil_conv)

lemma json_print_start:
  assumes "json_integral rd v"
  shows "\<exists>c cs. json_print v = c # cs \<and> starts_value c"
proof (cases v)
  case (JNumber d i)
  then obtain j where "i = Some j" using assms by (cases i) auto
  then show ?thesis
    using JNumber int_string_start [of j]
    by (auto simp: starts_value_def isspace_def isdigit_def char_code_def)
qed (simp_all add: starts_value_def quote_string_def isspace_def char_code_def dquote_def)

lemma join_commas_Cons:
  "join_commas (x # xs) = x @ (if xs = [] then [] else CHR '','' # join_commas xs)"
  by (cases xs) simp_all

lemma length_join_commas:
  "(\<And>x. x \<in> set xs \<Longrightarrow> f x \<noteq> []) \<Longrightarrow> length xs \<le> length (join_commas (map f xs))"
proof (induction xs)
  case (Cons x xs)
  then have "0 < length (f x)" "length xs \<le> length (join_commas (map f xs))" by auto
  then show ?case by (auto simp: join_commas_Cons simp del: length_greater_0_conv)
qed simp

lemma ends_value_simps [simp]:
  "ends_value (CHR '','' # cs)" "ends_value (CHR '']'' # cs)" "ends_value (CHR ''}'' # cs)"
  by (simp_all add: ends_value_def)

lemma elements_loop_print:
  assumes "\<And>v rest. v \<in> set vs \<Longrightarrow> ends_value rest \<Longrightarrow> element (f v @ rest) = Inr (v, rest)"
    and "vs \<noteq> []" "length vs \<le> fuel"
  shows "elements_loop sub element fuel acc (join_commas (map f vs) @ CHR '']'' # rest)
     = Inr (JArray (acc @ vs), rest)"
  using assms
proof (induction vs arbitrary: acc fuel)
  case (Cons v vs)
  then obtain fuel' where fuel: "fuel = Suc fuel'" "length vs \<le> fuel'" by (cases fuel) auto
  show ?case
  proof (cases "vs = []")
    case True
    then show ?thesis
      using Cons.prems(1) [of v "CHR '']'' # rest"] fuel by (simp add: skip_nonspace consume_def)
  next
    case False
    have "elements_loop sub element fuel' (acc @ [v]) (join_commas (map f vs) @ CHR '']'' # rest)
        = Inr (JArray (acc @ v # vs), rest)"
      using Cons.IH [of fuel' "acc @ [v]"] Cons.prems False fuel by simp
    then show ?thesis
      using Cons.prems(1) [of v "CHR '','' # join_commas (map f vs) @ CHR '']'' # rest"] False fuel
      by (simp add: join_commas_Cons skip_nonspace consume_def)
  qed
qed simp

lemma parse_member_print:
  assumes "\<And>rest. ends_value rest \<Longrightarrow> element (f v @ rest) = Inr (v, rest)"
    and "\<forall>k' \<in> set (map fst acc). k' < k" "ends_value rest"
  shows "parse_member sub element acc ((quote_string k @ CHR '':'' # f v) @ rest)
     = Inr (acc @ [(k, v)], rest)"
proof -
  obtain cs where q: "quote_string k = dquote # cs" by (simp add: quote_string_def)
  have "parse_string sub (dquote # cs @ CHR '':'' # f v @ rest) = Inr (k, CHR '':'' # f v @ rest)"
    using parse_string_quoted [of sub k "CHR '':'' # f v @ rest"] q by simp
  then show ?thesis
    using assms omap_emplace_last [OF assms(2), of v] q
    by (simp add: parse_member_def Let_def skip_nonspace consume_def)
qed

lemma members_loop_print:
  assumes "\<And>k v rest. (k, v) \<in> set m \<Longrightarrow> ends_value rest \<Longrightarrow> element (f v @ rest) = Inr (v, rest)"
    and "m \<noteq> []" "length m \<le> fuel" "omap_ok (acc @ m)"
  shows "members_loop sub element fuel acc
      (join_commas (map (\<lambda>(k, v). quote_string k @ CHR '':'' # f v) m) @ CHR ''}'' # rest)
     = Inr (JObject (acc @ m), rest)"
  using assms
proof (induction m arbitrary: acc fuel)
  case (Cons kv m)
  obtain k v where kv: "kv = (k, v)" by force
  let ?p = "\<lambda>(k, v). quote_string k @ CHR '':'' # f v"
  from Cons.prems(3) obtain fuel' where fuel: "fuel = Suc fuel'" "length m \<le> fuel'" by (cases fuel) auto
  have last: "\<forall>k' \<in> set (map fst acc). k' < k"
    using Cons.prems(4) kv by (auto simp: omap_ok_def sorted_wrt_append)
  have el: "ends_value rest \<Longrightarrow> element (f v @ rest) = Inr (v, rest)" for rest
    using Cons.prems(1) [of k v] kv by simp
  note step = parse_member_print [where element = element and f = f and v = v, OF el last]
  show ?case
  proof (cases "m = []")
    case True
    then show ?thesis
      using step [of "CHR ''}'' # rest" sub] fuel kv by (simp add: skip_nonspace consume_def)
  next
    case False
    have "members_loop sub element fuel' (acc @ [(k, v)]) (join_commas (map ?p m) @ CHR ''}'' # rest)
        = Inr (JObject (acc @ (k, v) # m), rest)"
    proof -
      have "members_loop sub element fuel' (acc @ [(k, v)]) (join_commas (map ?p m) @ CHR ''}'' # rest)
          = Inr (JObject ((acc @ [(k, v)]) @ m), rest)"
      proof (rule Cons.IH)
        show "element (f v @ rest) = Inr (v, rest)" if "(k, v) \<in> set m" "ends_value rest" for k v rest
          using Cons.prems(1) [of k v rest] that by simp
      qed (use False fuel Cons.prems(4) kv in simp_all)
      then show ?thesis by simp
    qed
    then show ?thesis
      using step [of "CHR '','' # join_commas (map ?p m) @ CHR ''}'' # rest" sub] False fuel kv
      by (simp add: join_commas_Cons skip_nonspace consume_def)
  qed
qed simp

lemma skip_start: "starts_value c \<Longrightarrow> skip_whitespace (c # cs) = c # cs"
  by (simp add: starts_value_def skip_nonspace)

lemma parse_array_print:
  assumes el: "\<And>v rest. v \<in> set vs \<Longrightarrow> ends_value rest \<Longrightarrow> element (json_print v @ rest) = Inr (v, rest)"
    and all: "list_all (json_integral rd) vs"
  shows "parse_array sub element (join_commas (map json_print vs) @ CHR '']'' # rest) = Inr (JArray vs, rest)"
proof (cases vs)
  case Nil
  then show ?thesis by (simp add: parse_array_def Let_def skip_nonspace consume_def)
next
  case (Cons v ws)
  let ?text = "join_commas (map json_print vs) @ CHR '']'' # rest"
  have ne: "json_print v \<noteq> []" if "v \<in> set vs" for v
    using that all json_print_start by (fastforce simp: list_all_iff)
  obtain c cs where c: "json_print v = c # cs" "starts_value c"
    using json_print_start [of rd v] all Cons by auto
  then obtain cs' where t: "?text = c # cs'" by (simp add: Cons join_commas_Cons)
  have "length vs \<le> Suc (length ?text)" using length_join_commas [of vs json_print] ne by simp
  from elements_loop_print [where f = json_print and acc = "[]", OF el _ this] Cons
  have "elements_loop sub element (Suc (length ?text)) [] ?text = Inr (JArray vs, rest)"
    by (simp del: elements_loop.simps)
  then show ?thesis
    using c(2) by (simp add: parse_array_def Let_def t skip_start consume_def starts_value_def
          del: elements_loop.simps)
qed

lemma parse_object_print:
  assumes el: "\<And>k v rest. (k, v) \<in> set m \<Longrightarrow> ends_value rest \<Longrightarrow> element (json_print v @ rest) = Inr (v, rest)"
    and ok: "omap_ok m"
  shows "parse_object sub element
     (join_commas (map (\<lambda>(k, v). quote_string k @ CHR '':'' # json_print v) m) @ CHR ''}'' # rest)
     = Inr (JObject m, rest)"
proof (cases m)
  case Nil
  then show ?thesis by (simp add: parse_object_def Let_def skip_nonspace consume_def)
next
  case (Cons kv ws)
  let ?p = "\<lambda>(k, v). quote_string k @ CHR '':'' # json_print v"
  let ?text = "join_commas (map ?p m) @ CHR ''}'' # rest"
  obtain cs' where t: "?text = dquote # cs'"
    by (cases kv) (simp add: Cons join_commas_Cons quote_string_def)
  have "length m \<le> Suc (length ?text)"
    using length_join_commas [of m ?p] by (simp add: quote_string_def split_beta)
  from members_loop_print [where f = json_print and acc = "[]", OF el _ this] Cons ok
  have "members_loop sub element (Suc (length ?text)) [] ?text = Inr (JObject m, rest)"
    by (simp del: members_loop.simps)
  moreover have "dquote \<noteq> CHR ''}''" by (simp add: dquote_def)
  ultimately show ?thesis
    by (simp add: parse_object_def Let_def t skip_nonspace consume_def del: members_loop.simps)
qed

lemma parse_value_print:
  "json_wf levels v \<Longrightarrow> json_integral rd v \<Longrightarrow> ends_value rest \<Longrightarrow>
     parse_value rd sub n levels (json_print v @ rest) = Inr (v, rest)"
proof (induction levels arbitrary: v rest)
  case (Suc levels)
  show ?case
  proof (cases v)
    case (JArray vs)
    then show ?thesis
      using parse_array_print [of vs "parse_value rd sub n levels" rd sub rest] Suc
      by (auto simp: list_all_iff skip_nonspace Let_def)
  next
    case (JObject m)
    have "parse_object sub (parse_value rd sub n levels)
        (join_commas (map (\<lambda>(k, v). quote_string k @ CHR '':'' # json_print v) m) @ CHR ''}'' # rest)
        = Inr (JObject m, rest)"
    proof (rule parse_object_print)
      fix k w rest' assume kw: "(k, w) \<in> set m" and e: "ends_value rest'"
      then have "json_wf levels w" "json_integral rd w"
        using Suc.prems JObject by (force simp: list_all_iff)+
      then show "parse_value rd sub n levels (json_print w @ rest') = Inr (w, rest')"
        using Suc.IH e by blast
    qed (use Suc.prems JObject in simp)
    then show ?thesis by (simp add: JObject skip_nonspace Let_def)
  next
    case (JNumber d i)
    then obtain j where j: "i = Some j" "rd (int_string j) = Some d"
      using Suc.prems(2) by (cases i) auto
    obtain c cs where c: "int_string j = c # cs" "c = CHR ''-'' \<or> isdigit c"
      using int_string_start by blast
    then have "\<not> isspace c" "c \<noteq> CHR ''{''" "c \<noteq> CHR ''[''" "c \<noteq> dquote"
      "c \<noteq> CHR ''t''" "c \<noteq> CHR ''f''" "c \<noteq> CHR ''n''"
      by (auto simp: isspace_def isdigit_def char_code_def dquote_def)
    moreover have "parse_number rd sub n (int_string j @ rest) = Inr (JNumber d (Some j), rest)"
      using parse_number_int [of rd j d rest sub n] Suc.prems JNumber j by (simp add: int64_range_def)
    ultimately show ?thesis using c by (simp add: JNumber j skip_nonspace Let_def)
  next
    case (JString s)
    moreover have "dquote \<noteq> CHR ''{''" "dquote \<noteq> CHR ''[''" by (simp_all add: dquote_def)
    ultimately show ?thesis
      using parse_string_quoted [of sub s rest] by (simp add: quote_string_def skip_nonspace Let_def)
  qed (auto simp: skip_whitespace_def isspace_def char_code_def parse_literal_def Let_def dquote_def)
qed simp

lemma json_parser_print:
  assumes "json_wf (Suc maximum_depth) v" "json_integral read_double v"
  shows "json_parser read_double sub (json_print v) = Inr v"
proof -
  have "parse_value read_double sub n (Suc maximum_depth) (json_print v @ []) = Inr (v, [])" for n
    by (rule parse_value_print [OF assms]) (simp add: ends_value_def)
  then show ?thesis
    by (simp add: json_parser_def skip_whitespace_def del: parse_value.simps)
qed

text \<open>
  Property C35. The parser reads every document back: printing a document without white space,
  with its integers in decimal and its strings escaped, and parsing the text returns the
  document, for every document within the nesting limit whose objects have ordered, distinct
  keys and whose numbers are 64-bit integers.
\<close>

theorem json_print_parse:
  assumes "json_wf (Suc maximum_depth) v" "json_integral read_double v"
  shows "json_parser read_double sub (json_print v) = Inr v"
  using assms by (rule json_parser_print)

theorem json_print_parse_witness:
  "json_parser Some ''mlvc'' (json_print (JObject [(''a'', JArray [JNumber ''-7'' (Some (- 7)), JNull]),
      (''b'', JString [dquote, CHR 0x0a])]))
    = Inr (JObject [(''a'', JArray [JNumber ''-7'' (Some (- 7)), JNull]),
      (''b'', JString [dquote, CHR 0x0a])])"
proof (rule json_print_parse)
  have "digit_char 7 = CHR ''7''" by code_simp
  then have "int_string (- 7) = ''-7''" by (simp add: int_string_def decimal_string.simps)
  then show "json_integral Some (JObject [(''a'', JArray [JNumber ''-7'' (Some (- 7)), JNull]),
      (''b'', JString [dquote, CHR 0x0a])])" by simp
qed (simp add: maximum_depth_def eval_nat_numeral omap_ok_def int64_range_def)

end
