(* ===== verification/CatalogJson.thy ===== *)
theory CatalogJson
  imports Json
begin

text \<open>
  The JSON reader of \<^verbatim>\<open>src/artifacts/catalog.cpp\<close>, which the artifact catalog has of its own: integers are
  unsigned 64-bit numbers, unicode escapes are stored as UTF-8, there is no limit on the nesting. As in \<open>Json\<close>, a
  function returns the unread rest of the input and \<open>n\<close> is the size of the input. The recursion of \<open>c_value\<close> and
  the loops over members and elements carry fuel, which is shown to be enough when it exceeds the number of unread
  characters.
\<close>

unbundle bit_operations_syntax

subsection \<open>Values\<close>

datatype json_value =
    CNull
  | CBoolean bool
  | CInteger u64
  | CString string
  | CArray "json_value list"
  | CObject "(string \<times> json_value) list"

definition catalog_error :: "string \<Rightarrow> error" where
  "catalog_error msg = Error invalid_argument msg ''artifact-catalog''"

subsection \<open>Strings\<close>

definition unicode_digit :: "char \<Rightarrow> u32 option" where
  "unicode_digit c =
     (if 48 \<le> char_code c \<and> char_code c \<le> 57 then Some (word_of_nat (char_code c - 48))
      else if 97 \<le> char_code c \<and> char_code c \<le> 102 then Some (word_of_nat (char_code c - 97 + 10))
      else if 65 \<le> char_code c \<and> char_code c \<le> 70 then Some (word_of_nat (char_code c - 65 + 10))
      else None)"

fun unicode_loop :: "string \<Rightarrow> u32 \<Rightarrow> u32 result" where
  "unicode_loop [] code_point = Inr code_point"
| "unicode_loop (c # cs) code_point = (case unicode_digit c of
       None \<Rightarrow> Inl (catalog_error ''invalid unicode escape'')
     | Some d \<Rightarrow> unicode_loop cs (push_bit 4 code_point OR d))"

definition parse_unicode_escape :: "string \<Rightarrow> (u32 \<times> string) result" where
  "parse_unicode_escape cs =
     (if length cs < 4 then Inl (catalog_error ''truncated unicode escape'')
      else
        res_bind (unicode_loop (take 4 cs) 0) (\<lambda>code_point.
        if 0xd800 \<le> code_point \<and> code_point \<le> 0xdfff then
          Inl (catalog_error ''surrogate unicode escapes are not supported'')
        else Inr (code_point, drop 4 cs)))"

definition byte_char :: "u32 \<Rightarrow> char" where
  "byte_char w = char_of (unat w)"

definition append_utf8 :: "string \<Rightarrow> u32 \<Rightarrow> string" where
  "append_utf8 output code_point =
     (if code_point \<le> 0x7f then output @ [byte_char code_point]
      else if code_point \<le> 0x7ff then
        output @ [byte_char (0xc0 OR drop_bit 6 code_point), byte_char (0x80 OR (code_point AND 0x3f))]
      else
        output @ [byte_char (0xe0 OR drop_bit 12 code_point),
          byte_char (0x80 OR (drop_bit 6 code_point AND 0x3f)), byte_char (0x80 OR (code_point AND 0x3f))])"

lemma parse_unicode_escape_length:
  "parse_unicode_escape cs = Inr (w, cs') \<Longrightarrow> length cs' < length cs"
  by (auto simp: parse_unicode_escape_def result_simps split: if_splits)

function c_string_loop :: "string \<Rightarrow> string \<Rightarrow> (string \<times> string) result" where
  "c_string_loop acc [] = Inl (catalog_error ''unterminated JSON string'')"
| "c_string_loop acc (c # cs) =
     (if c = dquote then Inr (acc, cs)
      else if char_code c < 0x20 then Inl (catalog_error ''control character in JSON string'')
      else if c \<noteq> backslash then c_string_loop (acc @ [c]) cs
      else case cs of
        [] \<Rightarrow> Inl (catalog_error ''unterminated JSON escape'')
      | e # rest \<Rightarrow>
        if e = CHR ''u'' then
          res_bind (parse_unicode_escape rest) (\<lambda>(code_point, rest'). c_string_loop (append_utf8 acc code_point) rest')
        else case simple_escape e of
          None \<Rightarrow> Inl (catalog_error ''invalid JSON escape'')
        | Some x \<Rightarrow> c_string_loop (acc @ [x]) rest)"
  by pat_completeness auto
termination
  by (relation "measure (\<lambda>(_, cs). length cs)") (auto dest: parse_unicode_escape_length)

definition c_string :: "string \<Rightarrow> (string \<times> string) result" where
  "c_string cs = (case consume dquote cs of
       None \<Rightarrow> Inl (catalog_error ''expected JSON string'')
     | Some rest \<Rightarrow> c_string_loop [] rest)"

subsection \<open>Literals and integers\<close>

definition c_literal :: "nat \<Rightarrow> string \<Rightarrow> json_value \<Rightarrow> string \<Rightarrow> (json_value \<times> string) result" where
  "c_literal n literal v cs =
     (if take (length literal) cs \<noteq> literal then
        Inl (catalog_error (''invalid JSON literal'' @ at_offset n cs))
      else Inr (v, drop (length literal) cs))"

text \<open>\<open>std::from_chars\<close> into \<open>std::uint64_t\<close> fails on a token of digits exactly when the number is out of range.\<close>

definition c_integer :: "nat \<Rightarrow> string \<Rightarrow> (json_value \<times> string) result" where
  "c_integer n start =
     (let token = takeWhile isdigit start; cs = dropWhile isdigit start in
      if length token > 1 \<and> hd token = CHR ''0'' then
        Inl (catalog_error (''JSON integer has a leading zero'' @ at_offset n start))
      else if cs \<noteq> [] \<and> (hd cs = CHR ''.'' \<or> hd cs = CHR ''e'' \<or> hd cs = CHR ''E'') then
        Inl (catalog_error ''catalog values must use integer JSON numbers'')
      else if token = [] \<or> int (digits_value token) \<ge> 2 ^ 64 then
        Inl (catalog_error (''invalid JSON integer'' @ at_offset n start))
      else Inr (CInteger (word_of_nat (digits_value token)), cs))"

subsection \<open>Arrays and objects\<close>

type_synonym catalog_parser = "string \<Rightarrow> (json_value \<times> string) result"

definition c_member :: "catalog_parser \<Rightarrow> (string \<times> json_value) list \<Rightarrow> string
    \<Rightarrow> ((string \<times> json_value) list \<times> string) result" where
  "c_member element members cs =
     (let cs = skip_whitespace cs in
      if cs = [] \<or> hd cs \<noteq> dquote then Inl (catalog_error ''object key must be a JSON string'')
      else
        res_bind (c_string cs) (\<lambda>(key, cs).
        case consume (CHR '':'') (skip_whitespace cs) of
          None \<Rightarrow> Inl (catalog_error (''object key is missing '' @ [CHR 0x27, CHR '':'', CHR 0x27]))
        | Some cs \<Rightarrow>
          res_bind (element cs) (\<lambda>(v, cs).
          let emplaced = omap_emplace key v members in
          if \<not> snd emplaced then Inl (catalog_error ''duplicate object key'')
          else Inr (fst emplaced, cs))))"

fun c_members :: "catalog_parser \<Rightarrow> nat \<Rightarrow> (string \<times> json_value) list \<Rightarrow> catalog_parser" where
  "c_members element 0 members cs = Inl out_of_fuel"
| "c_members element (Suc fuel) members cs =
     res_bind (c_member element members cs) (\<lambda>(members, cs).
     let cs = skip_whitespace cs in
     case consume (CHR ''}'') cs of
       Some cs \<Rightarrow> Inr (CObject members, cs)
     | None \<Rightarrow>
       (case consume (CHR '','') cs of
          None \<Rightarrow> Inl (catalog_error (''object member is missing '' @ [CHR 0x27, CHR '','', CHR 0x27]))
        | Some cs \<Rightarrow> c_members element fuel members cs))"

definition c_object :: "catalog_parser \<Rightarrow> catalog_parser" where
  "c_object element cs =
     (let cs = skip_whitespace cs in
      case consume (CHR ''}'') cs of
        Some cs \<Rightarrow> Inr (CObject [], cs)
      | None \<Rightarrow> c_members element (Suc (length cs)) [] cs)"

fun c_elements :: "catalog_parser \<Rightarrow> nat \<Rightarrow> json_value list \<Rightarrow> catalog_parser" where
  "c_elements element 0 elements cs = Inl out_of_fuel"
| "c_elements element (Suc fuel) elements cs =
     res_bind (element cs) (\<lambda>(e, cs).
     let elements = elements @ [e]; cs = skip_whitespace cs in
     case consume (CHR '']'') cs of
       Some cs \<Rightarrow> Inr (CArray elements, cs)
     | None \<Rightarrow>
       (case consume (CHR '','') cs of
          None \<Rightarrow> Inl (catalog_error (''array element is missing '' @ [CHR 0x27, CHR '','', CHR 0x27]))
        | Some cs \<Rightarrow> c_elements element fuel elements cs))"

definition c_array :: "catalog_parser \<Rightarrow> catalog_parser" where
  "c_array element cs =
     (let cs = skip_whitespace cs in
      case consume (CHR '']'') cs of
        Some cs \<Rightarrow> Inr (CArray [], cs)
      | None \<Rightarrow> c_elements element (Suc (length cs)) [] cs)"

primrec c_value :: "nat \<Rightarrow> nat \<Rightarrow> catalog_parser" where
  "c_value n 0 = (\<lambda>cs. Inl out_of_fuel)"
| "c_value n (Suc fuel) = (\<lambda>cs.
     let cs = skip_whitespace cs in
     case cs of
       [] \<Rightarrow> Inl (catalog_error ''unexpected end of JSON'')
     | next # rest \<Rightarrow>
       if next = CHR ''{'' then c_object (c_value n fuel) rest
       else if next = CHR ''['' then c_array (c_value n fuel) rest
       else if next = dquote then res_bind (c_string cs) (\<lambda>(s, cs). Inr (CString s, cs))
       else if next = CHR ''t'' then c_literal n ''true'' (CBoolean True) cs
       else if next = CHR ''f'' then c_literal n ''false'' (CBoolean False) cs
       else if next = CHR ''n'' then c_literal n ''null'' CNull cs
       else if isdigit next then c_integer n cs
       else Inl (catalog_error (''unexpected JSON token'' @ at_offset n cs)))"

definition c_parse :: "string \<Rightarrow> json_value result" where
  "c_parse input =
     (let cs = skip_whitespace input in
      res_bind (c_value (length input) (Suc (length input)) cs) (\<lambda>(v, cs).
      let cs = skip_whitespace cs in
      if cs \<noteq> [] then Inl (catalog_error (''trailing JSON data'' @ at_offset (length input) cs))
      else Inr v))"

subsection \<open>Every parse ends\<close>

lemma catalog_error_fuel [simp]: "catalog_error msg \<noteq> out_of_fuel"
  by (simp add: catalog_error_def out_of_fuel_def)

lemma unicode_loop_fueled: "unicode_loop cs w \<noteq> Inl out_of_fuel"
  by (induction cs w rule: unicode_loop.induct) (simp_all split: option.split)

lemma parse_unicode_escape_fueled: "parse_unicode_escape cs \<noteq> Inl out_of_fuel"
  by (auto simp: parse_unicode_escape_def result_simps unicode_loop_fueled)

lemma c_string_loop_fueled: "c_string_loop acc cs \<noteq> Inl out_of_fuel"
proof (induction acc cs rule: c_string_loop.induct)
  case (2 acc c cs)
  then show ?case
    by (auto simp: result_simps parse_unicode_escape_fueled split: list.split option.split)
qed simp

lemma c_string_loop_length: "c_string_loop acc cs = Inr (s, cs') \<Longrightarrow> length cs' < length cs"
proof (induction acc cs rule: c_string_loop.induct)
  case (2 acc c cs)
  show ?case
  proof (cases "c = dquote \<or> char_code c < 0x20 \<or> c \<noteq> backslash")
    case True
    then show ?thesis using 2 by (fastforce split: if_split_asm)
  next
    case False
    with 2 obtain e rest where cs: "cs = e # rest" by (cases cs) auto
    show ?thesis
    proof (cases "e = CHR ''u''")
      case True
      then obtain w rest' where "parse_unicode_escape rest = Inr (w, rest')"
        "c_string_loop (append_utf8 acc w) rest' = Inr (s, cs')"
        using 2(4) False cs by (auto simp: result_simps)
      then show ?thesis
        using 2(2) [of e rest "(w, rest')" w rest'] False cs True parse_unicode_escape_length by fastforce
    next
      case e: False
      then show ?thesis using False 2 cs by (cases "simple_escape e") fastforce+
    qed
  qed
qed simp

lemma c_string_props:
  "c_string cs \<noteq> Inl out_of_fuel"
  "c_string cs = Inr (s, cs') \<Longrightarrow> length cs' < length cs"
  using c_string_loop_length [of "[]" _ s cs']
  by (auto simp: c_string_def c_string_loop_fueled consume_Some less_SucI split: option.splits)

lemma c_literal_props:
  "c_literal n l v cs \<noteq> Inl out_of_fuel"
  "c_literal n l v cs = Inr (w, cs') \<Longrightarrow> l \<noteq> [] \<Longrightarrow> length cs' < length cs"
  by (cases cs; auto simp: c_literal_def split: if_splits)+

lemma c_integer_props:
  "c_integer n cs \<noteq> Inl out_of_fuel"
  "c_integer n cs = Inr (v, cs') \<Longrightarrow> length cs' < length cs"
proof -
  show "c_integer n cs \<noteq> Inl out_of_fuel" by (simp add: c_integer_def Let_def)
  assume "c_integer n cs = Inr (v, cs')"
  then have "takeWhile isdigit cs \<noteq> []" "cs' = dropWhile isdigit cs"
    by (auto simp: c_integer_def Let_def split: if_splits)
  moreover have "length (takeWhile isdigit cs) + length (dropWhile isdigit cs) = length cs"
    by (metis length_append takeWhile_dropWhile_id)
  ultimately show "length cs' < length cs" by (cases "takeWhile isdigit cs") auto
qed

text \<open>What the loops over members and elements rely on, for inputs shorter than \<open>bound\<close>.\<close>

locale bounded_parser =
  fixes element :: catalog_parser and bound :: nat
  assumes consumes: "element cs = Inr (v, cs') \<Longrightarrow> length cs' < length cs"
    and fueled: "length cs < bound \<Longrightarrow> element cs \<noteq> Inl out_of_fuel"
begin

lemma elements_fueled:
  "length cs < fuel \<Longrightarrow> length cs < bound \<Longrightarrow> c_elements element fuel vs cs \<noteq> Inl out_of_fuel"
proof (induction fuel arbitrary: vs cs)
  case (Suc fuel)
  show ?case
  proof
    assume "c_elements element (Suc fuel) vs cs = Inl out_of_fuel"
    then obtain v c1 c2 where "element cs = Inr (v, c1)" "skip_whitespace c1 = CHR '','' # c2"
      "c_elements element fuel (vs @ [v]) c2 = Inl out_of_fuel"
      using fueled [OF Suc.prems(2)] by (auto simp: result_simps Let_def consume_Some split: option.splits)
    moreover from this have "length c2 < fuel" "length c2 < bound"
      using consumes [of cs v c1] length_skip [of c1] Suc.prems by simp_all
    ultimately show False using Suc.IH by blast
  qed
qed simp

lemma elements_length: "c_elements element fuel vs cs = Inr (v, cs') \<Longrightarrow> length cs' < length cs"
proof (induction fuel arbitrary: vs cs)
  case (Suc fuel)
  then obtain w c1 where w: "element cs = Inr (w, c1)"
    and rest: "skip_whitespace c1 = CHR '']'' # cs'
      \<or> (\<exists>c2. skip_whitespace c1 = CHR '','' # c2 \<and> c_elements element fuel (vs @ [w]) c2 = Inr (v, cs'))"
    by (auto simp: result_simps Let_def consume_Some split: option.splits)
  from rest show ?case
    using Suc.IH [of "vs @ [w]"] consumes [OF w] length_skip [of c1] by fastforce
qed simp

lemma member_Inr:
  assumes "c_member element ms cs = Inr (ms', cs')"
  obtains k c1 c2 w where "c_string (skip_whitespace cs) = Inr (k, c1)"
    "skip_whitespace c1 = CHR '':'' # c2" "element c2 = Inr (w, cs')" "omap_emplace k w ms = (ms', True)"
  using assms
  by (auto simp: c_member_def Let_def result_simps consume_Some prod_eq_iff split: option.split_asm if_split_asm)

lemma member_length:
  assumes "c_member element ms cs = Inr (ms', cs')"
  shows "length cs' < length cs"
proof -
  from assms obtain k c1 c2 w where k: "c_string (skip_whitespace cs) = Inr (k, c1)"
    "skip_whitespace c1 = CHR '':'' # c2" "element c2 = Inr (w, cs')"
    by (rule member_Inr)
  then show ?thesis
    using consumes [OF k(3)] c_string_props(2) [OF k(1)] length_skip [of c1] length_skip [of cs] by simp
qed

lemma member_fueled:
  assumes "length cs < bound"
  shows "c_member element ms cs \<noteq> Inl out_of_fuel"
proof
  assume "c_member element ms cs = Inl out_of_fuel"
  then obtain k c1 c2 where k: "c_string (skip_whitespace cs) = Inr (k, c1)" "skip_whitespace c1 = CHR '':'' # c2"
    "element c2 = Inl out_of_fuel"
    by (auto simp: c_member_def Let_def result_simps c_string_props(1) consume_Some split: option.split_asm if_split_asm)
  have "length c2 < bound"
    using k(2) c_string_props(2) [OF k(1)] length_skip [of c1] length_skip [of cs] assms by simp
  with k(3) fueled show False by blast
qed

lemma members_fueled:
  "length cs < fuel \<Longrightarrow> length cs < bound \<Longrightarrow> c_members element fuel ms cs \<noteq> Inl out_of_fuel"
proof (induction fuel arbitrary: ms cs)
  case (Suc fuel)
  show ?case
  proof
    assume "c_members element (Suc fuel) ms cs = Inl out_of_fuel"
    then obtain ms' c1 c2 where "c_member element ms cs = Inr (ms', c1)"
      "skip_whitespace c1 = CHR '','' # c2" "c_members element fuel ms' c2 = Inl out_of_fuel"
      using member_fueled [OF Suc.prems(2)] by (auto simp: result_simps Let_def consume_Some split: option.splits)
    moreover from this have "length c2 < fuel" "length c2 < bound"
      using member_length [of ms cs ms' c1] length_skip [of c1] Suc.prems by simp_all
    ultimately show False using Suc.IH by blast
  qed
qed simp

lemma members_length: "c_members element fuel ms cs = Inr (v, cs') \<Longrightarrow> length cs' < length cs"
proof (induction fuel arbitrary: ms cs)
  case (Suc fuel)
  then obtain ms' c1 where m: "c_member element ms cs = Inr (ms', c1)"
    and rest: "skip_whitespace c1 = CHR ''}'' # cs'
      \<or> (\<exists>c2. skip_whitespace c1 = CHR '','' # c2 \<and> c_members element fuel ms' c2 = Inr (v, cs'))"
    by (auto simp: result_simps Let_def consume_Some split: option.splits)
  from rest show ?case
    using Suc.IH [of ms'] member_length [OF m] length_skip [of c1] by fastforce
qed simp

lemma array_props:
  "length cs < bound \<Longrightarrow> c_array element cs \<noteq> Inl out_of_fuel"
  "c_array element cs = Inr (v, cs') \<Longrightarrow> length cs' \<le> length cs"
  using elements_fueled [of "skip_whitespace cs"] elements_length [of _ "[]" "skip_whitespace cs" v cs'] length_skip [of cs]
  by (fastforce simp: c_array_def Let_def consume_Some simp del: c_elements.simps split: option.splits)+

lemma object_props:
  "length cs < bound \<Longrightarrow> c_object element cs \<noteq> Inl out_of_fuel"
  "c_object element cs = Inr (v, cs') \<Longrightarrow> length cs' \<le> length cs"
  using members_fueled [of "skip_whitespace cs"] members_length [of _ "[]" "skip_whitespace cs" v cs'] length_skip [of cs]
  by (fastforce simp: c_object_def Let_def consume_Some simp del: c_members.simps split: option.splits)+

end

lemma c_value_step:
  assumes el: "bounded_parser (c_value n fuel) fuel"
  shows "bounded_parser (c_value n (Suc fuel)) (Suc fuel)"
proof
  note arr = bounded_parser.array_props [OF el] and obj = bounded_parser.object_props [OF el]
  note leaf = c_string_props c_literal_props c_integer_props
  fix cs v cs'
  show "length cs' < length cs" if a: "c_value n (Suc fuel) cs = Inr (v, cs')"
  proof -
    obtain c rest where c: "skip_whitespace cs = c # rest"
      using a by (cases "skip_whitespace cs") auto
    have "length cs' < length (c # rest)"
      using a c arr(2) [of rest v cs'] obj(2) [of rest v cs'] leaf(2) [of "c # rest"] leaf(6) [of n "c # rest"] leaf(4) [of n _ _ "c # rest" v cs']
      by (simp add: result_simps Let_def split: if_split_asm) (auto simp: le_imp_less_Suc)
    then show ?thesis using length_skip [of cs] c by simp
  qed
  show "c_value n (Suc fuel) cs \<noteq> Inl out_of_fuel" if "length cs < Suc fuel"
  proof (cases "skip_whitespace cs")
    case (Cons c rest)
    then have "length rest < fuel" using length_skip [of cs] that by simp
    then show ?thesis using Cons arr(1) obj(1) by (simp add: leaf Let_def result_simps split: prod.split)
  qed simp
qed

interpretation cv: bounded_parser "c_value n fuel" fuel
proof (induction fuel)
  case (Suc fuel)
  then show ?case by (rule c_value_step)
qed (unfold_locales, simp_all)

lemma c_parse_total: "c_parse input \<noteq> Inl out_of_fuel"
proof
  assume "c_parse input = Inl out_of_fuel"
  then have "c_value (length input) (Suc (length input)) (skip_whitespace input) = Inl out_of_fuel"
    by (auto simp: c_parse_def Let_def result_simps simp del: c_value.simps split: if_splits)
  then show False using cv.fueled length_skip [of input] by (meson le_imp_less_Suc)
qed

end
