(* ===== verification/Resolver.thy ===== *)
theory Resolver
  imports Errors Versions "HOL-Library.List_Lexorder" "HOL-Library.Char_ord"
    "HOL-Library.Product_Lexorder"
begin

text \<open>
  \<^verbatim>\<open>include/nvcr/artifacts/resolver.hpp\<close>, \<^verbatim>\<open>src/artifacts/resolver.cpp\<close> and \<open>ArtifactDescriptor\<close>
  of \<^verbatim>\<open>include/nvcr/provider/provider_api.hpp\<close>: the choice of an engine artifact for a request.
  The candidate loop is \<open>scan_candidate\<close>, folded over the candidates, with the loop's flags as
  fields of \<open>scan\<close>; \<open>std::min_element\<close> with the three-level comparison picks the result. Its
  specification is the predicate \<open>eligible\<close> and the lexicographic key \<open>match_key\<close>.
\<close>

subsection \<open>Data\<close>

record artifact_descriptor =
  ad_codec_id :: string
  ad_model_set_id :: string
  ad_component_id :: string
  ad_engine_profile_id :: string
  ad_provider_id :: string
  ad_precision :: string
  ad_path :: string
  ad_expected_digest :: "byte list"
  ad_codec_api_version :: codec_api_version
  ad_provider_api_version :: provider_api_version
  ad_model_set_version :: model_set_version
  ad_manifest_schema_version :: manifest_schema_version

datatype hardware_compatibility = exact | same_compute_capability | ampere_plus

record artifact_candidate =
  ac_artifact :: artifact_descriptor
  ac_target_profile_id :: string
  ac_target_device :: string
  ac_compute_capability :: string
  ac_operating_system :: string
  ac_architecture :: string
  ac_runtime_version :: string
  ac_cuda_runtime_version :: u32
  ac_hardware_compatibility :: hardware_compatibility
  ac_digest :: "byte list"
  ac_available :: bool
  ac_license_restricted :: bool

record artifact_request =
  rq_codec_id :: string
  rq_model_set_id :: string
  rq_component_id :: string
  rq_engine_profile_id :: string
  rq_provider_id :: string
  rq_provider_preference :: "string list"
  rq_target_profile_id :: string
  rq_target_device :: string
  rq_compute_capability :: string
  rq_operating_system :: string
  rq_architecture :: string
  rq_runtime_version :: string
  rq_cuda_runtime_version :: u32
  rq_precision :: string
  rq_codec_api_version :: codec_api_version
  rq_provider_api_version :: provider_api_version
  rq_model_set_version :: model_set_version
  rq_manifest_schema_version :: manifest_schema_version
  rq_expected_digest :: "byte list"
  rq_allow_license_restricted :: bool

record resolved_artifact =
  ra_candidate :: artifact_candidate
  ra_provider_preference_rank :: nat
  ra_target_match_rank :: u8

type_synonym resolver = "artifact_candidate list"

subsection \<open>Compatibility\<close>

definition resolution_error :: "error_code \<Rightarrow> string \<Rightarrow> error" where
  "resolution_error c msg = Error c msg ''artifact-resolver''"

definition compatible_v1 :: "version1 \<Rightarrow> version1 \<Rightarrow> bool" where
  "compatible_v1 candidate requested \<longleftrightarrow> v1_major candidate = v1_major requested"

definition compatible_v2 :: "version2 \<Rightarrow> version2 \<Rightarrow> bool" where
  "compatible_v2 candidate requested \<longleftrightarrow>
     v2_major candidate = v2_major requested \<and> v2_minor candidate \<ge> v2_minor requested"

text \<open>\<open>std::from_chars\<close> on an \<open>int\<close>: an optional minus sign and digits within range.\<close>

definition compute_major :: "string \<Rightarrow> int" where
  "compute_major value =
     (if value = [] then - 1
      else
        let major_text = takeWhile (\<lambda>c. c \<noteq> CHR ''.'') value in
        case major_text of
          [] \<Rightarrow> - 1
        | c # digits \<Rightarrow>
          if c = CHR ''-'' then
            (case decimal_value digits of
               Some n \<Rightarrow> if n \<le> 2 ^ 31 then - int n else - 1
             | None \<Rightarrow> - 1)
          else
            (case decimal_value major_text of
               Some n \<Rightarrow> if n < 2 ^ 31 then int n else - 1
             | None \<Rightarrow> - 1))"

definition cuda_major :: "u32 \<Rightarrow> u32" where
  "cuda_major version = version div 1000"

definition cuda_runtime_compatible :: "artifact_candidate \<Rightarrow> artifact_request \<Rightarrow> bool" where
  "cuda_runtime_compatible candidate request =
     (if ac_cuda_runtime_version candidate = 0 \<or> rq_cuda_runtime_version request = 0 then True
      else if ac_architecture candidate = ''x86_64'' \<or> rq_architecture request = ''x86_64'' then
        cuda_major (ac_cuda_runtime_version candidate) = cuda_major (rq_cuda_runtime_version request)
        \<and> ac_cuda_runtime_version candidate \<le> rq_cuda_runtime_version request
      else ac_cuda_runtime_version candidate = rq_cuda_runtime_version request)"

fun preference_index :: "string list \<Rightarrow> string \<Rightarrow> nat" where
  "preference_index [] provider_id = 0"
| "preference_index (p # ps) provider_id =
     (if p = provider_id then 0 else Suc (preference_index ps provider_id))"

definition preference_rank :: "artifact_candidate \<Rightarrow> artifact_request \<Rightarrow> nat" where
  "preference_rank candidate request =
     preference_index (rq_provider_preference request) (ad_provider_id (ac_artifact candidate))"

definition no_match_rank :: u8 where
  "no_match_rank = 255"

definition target_match_rank :: "artifact_candidate \<Rightarrow> artifact_request \<Rightarrow> u8" where
  "target_match_rank candidate request =
     (if rq_target_profile_id request \<noteq> []
         \<and> ac_target_profile_id candidate = rq_target_profile_id request then 0
      else if ac_hardware_compatibility candidate = exact then
        (if rq_target_device request \<noteq> [] \<and> ac_target_device candidate = rq_target_device request
            \<and> (rq_compute_capability request = []
               \<or> ac_compute_capability candidate = rq_compute_capability request) then 0
         else no_match_rank)
      else if ac_hardware_compatibility candidate = same_compute_capability
          \<and> rq_compute_capability request \<noteq> []
          \<and> ac_compute_capability candidate = rq_compute_capability request then 1
      else if ac_hardware_compatibility candidate = ampere_plus then
        (let candidate_major = compute_major (ac_compute_capability candidate);
             requested_major = compute_major (rq_compute_capability request) in
         if candidate_major \<ge> 8 \<and> requested_major \<ge> candidate_major then 2 else no_match_rank)
      else no_match_rank)"

definition same_identity :: "artifact_candidate \<Rightarrow> artifact_request \<Rightarrow> bool" where
  "same_identity candidate request \<longleftrightarrow>
     ad_codec_id (ac_artifact candidate) = rq_codec_id request
     \<and> ad_model_set_id (ac_artifact candidate) = rq_model_set_id request
     \<and> ad_component_id (ac_artifact candidate) = rq_component_id request
     \<and> ad_engine_profile_id (ac_artifact candidate) = rq_engine_profile_id request"

definition wanted_provider :: "artifact_candidate \<Rightarrow> artifact_request \<Rightarrow> bool" where
  "wanted_provider candidate request \<longleftrightarrow>
     rq_provider_id request = [] \<or> ad_provider_id (ac_artifact candidate) = rq_provider_id request"

definition versions_ok :: "artifact_candidate \<Rightarrow> artifact_request \<Rightarrow> bool" where
  "versions_ok candidate request \<longleftrightarrow>
     compatible_v1 (ad_codec_api_version (ac_artifact candidate)) (rq_codec_api_version request)
     \<and> compatible_v1 (ad_provider_api_version (ac_artifact candidate)) (rq_provider_api_version request)
     \<and> compatible_v2 (ad_model_set_version (ac_artifact candidate)) (rq_model_set_version request)
     \<and> compatible_v2 (ad_manifest_schema_version (ac_artifact candidate))
         (rq_manifest_schema_version request)"

subsection \<open>Resolution\<close>

definition resolver_add :: "artifact_candidate \<Rightarrow> resolver \<Rightarrow> resolver" where
  "resolver_add candidate candidates = candidates @ [candidate]"

definition resolver_clear :: "resolver \<Rightarrow> resolver" where
  "resolver_clear candidates = []"

record scan =
  saw_version_mismatch :: bool
  saw_precision_mismatch :: bool
  saw_target_mismatch :: bool
  saw_runtime_mismatch :: bool
  saw_digest_mismatch :: bool
  saw_license_restriction :: bool
  saw_unavailable :: bool
  scan_matches :: "resolved_artifact list"

definition start_scan :: scan where
  "start_scan = \<lparr>saw_version_mismatch = False, saw_precision_mismatch = False,
     saw_target_mismatch = False, saw_runtime_mismatch = False, saw_digest_mismatch = False,
     saw_license_restriction = False, saw_unavailable = False, scan_matches = []\<rparr>"

definition scan_candidate :: "artifact_request \<Rightarrow> artifact_candidate \<Rightarrow> scan \<Rightarrow> scan" where
  "scan_candidate request candidate sc =
     (if \<not> same_identity candidate request
         \<or> (rq_provider_id request \<noteq> []
            \<and> ad_provider_id (ac_artifact candidate) \<noteq> rq_provider_id request) then sc
      else if \<not> versions_ok candidate request then sc\<lparr>saw_version_mismatch := True\<rparr>
      else if ad_precision (ac_artifact candidate) \<noteq> rq_precision request then
        sc\<lparr>saw_precision_mismatch := True\<rparr>
      else
        let target_rank = target_match_rank candidate request in
        if target_rank = no_match_rank then sc\<lparr>saw_target_mismatch := True\<rparr>
        else if rq_operating_system request \<noteq> []
              \<and> ac_operating_system candidate \<noteq> rq_operating_system request
            \<or> rq_architecture request \<noteq> []
              \<and> ac_architecture candidate \<noteq> rq_architecture request then
          sc\<lparr>saw_target_mismatch := True\<rparr>
        else if rq_runtime_version request \<noteq> []
              \<and> ac_runtime_version candidate \<noteq> rq_runtime_version request
            \<or> \<not> cuda_runtime_compatible candidate request then
          sc\<lparr>saw_runtime_mismatch := True\<rparr>
        else if ac_license_restricted candidate \<and> \<not> rq_allow_license_restricted request then
          sc\<lparr>saw_license_restriction := True\<rparr>
        else if rq_expected_digest request \<noteq> []
            \<and> ac_digest candidate \<noteq> rq_expected_digest request then
          sc\<lparr>saw_digest_mismatch := True\<rparr>
        else if \<not> ac_available candidate \<or> ad_path (ac_artifact candidate) = [] then
          sc\<lparr>saw_unavailable := True\<rparr>
        else sc\<lparr>scan_matches := scan_matches sc @
          [\<lparr>ra_candidate = candidate, ra_provider_preference_rank = preference_rank candidate request,
            ra_target_match_rank = target_rank\<rparr>]\<rparr>)"

definition better_match :: "resolved_artifact \<Rightarrow> resolved_artifact \<Rightarrow> bool" where
  "better_match lhs rhs =
     (if ra_target_match_rank lhs \<noteq> ra_target_match_rank rhs then
        ra_target_match_rank lhs < ra_target_match_rank rhs
      else if ra_provider_preference_rank lhs \<noteq> ra_provider_preference_rank rhs then
        ra_provider_preference_rank lhs < ra_provider_preference_rank rhs
      else ad_path (ac_artifact (ra_candidate lhs)) < ad_path (ac_artifact (ra_candidate rhs)))"

fun min_element :: "('a \<Rightarrow> 'a \<Rightarrow> bool) \<Rightarrow> 'a \<Rightarrow> 'a list \<Rightarrow> 'a" where
  "min_element lt best [] = best"
| "min_element lt best (x # xs) = min_element lt (if lt x best then x else best) xs"

definition quoted :: "string \<Rightarrow> string" where
  "quoted s = [CHR 0x27] @ s @ [CHR 0x27]"

definition scan_error :: "artifact_request \<Rightarrow> scan \<Rightarrow> error" where
  "scan_error request sc =
     (if saw_license_restriction sc then
        resolution_error license_restricted ''all compatible artifacts are license-restricted''
      else if saw_digest_mismatch sc then
        resolution_error digest_mismatch
          ''compatible artifact digest does not match the requested digest''
      else if saw_target_mismatch sc then
        resolution_error incompatible_target ''no artifact matches the requested target identity''
      else if saw_runtime_mismatch sc then
        resolution_error incompatible_version
          ''no artifact matches the requested runtime or CUDA version''
      else if saw_precision_mismatch sc then
        resolution_error incompatible_precision
          (''no artifact matches precision '' @ quoted (rq_precision request))
      else if saw_version_mismatch sc then
        resolution_error incompatible_version
          ''no artifact matches the requested API, model, or manifest versions''
      else if saw_unavailable sc then
        resolution_error missing_artifact ''compatible artifact is not available at its recorded path''
      else
        resolution_error missing_artifact ''no artifact candidate satisfies the resolution request'')"

definition resolve :: "resolver \<Rightarrow> artifact_request \<Rightarrow> resolved_artifact result" where
  "resolve candidates request =
     (if rq_codec_id request = [] \<or> rq_model_set_id request = []
         \<or> rq_component_id request = [] \<or> rq_precision request = [] then
        Inl (resolution_error invalid_argument
          ''codec, model set, component, and precision are required'')
      else if \<not> list_ex (\<lambda>c. ad_codec_id (ac_artifact c) = rq_codec_id request) candidates then
        Inl (resolution_error missing_codec
          (''no artifact candidate is registered for codec '' @ quoted (rq_codec_id request)))
      else if \<not> list_ex (\<lambda>c. ad_codec_id (ac_artifact c) = rq_codec_id request
          \<and> ad_model_set_id (ac_artifact c) = rq_model_set_id request) candidates then
        Inl (resolution_error missing_model_set
          (''no artifact candidate is registered for model set '' @ quoted (rq_model_set_id request)))
      else if \<not> list_ex (\<lambda>c. same_identity c request) candidates then
        Inl (resolution_error missing_artifact
          (''no artifact candidate is registered for component '' @ quoted (rq_component_id request)))
      else if \<not> list_ex (\<lambda>c. same_identity c request \<and> wanted_provider c request) candidates then
        Inl (resolution_error missing_provider
          (''no compatible provider is registered for component '' @ quoted (rq_component_id request)))
      else
        let sc = fold (scan_candidate request) candidates start_scan in
        case scan_matches sc of
          m # ms \<Rightarrow> Inr (min_element better_match m ms)
        | [] \<Rightarrow> Inl (scan_error request sc))"

subsection \<open>What resolution promises\<close>

definition complete_request :: "artifact_request \<Rightarrow> bool" where
  "complete_request request \<longleftrightarrow> rq_codec_id request \<noteq> [] \<and> rq_model_set_id request \<noteq> []
     \<and> rq_component_id request \<noteq> [] \<and> rq_precision request \<noteq> []"

definition same_platform :: "artifact_candidate \<Rightarrow> artifact_request \<Rightarrow> bool" where
  "same_platform c r \<longleftrightarrow>
     (rq_operating_system r = [] \<or> ac_operating_system c = rq_operating_system r)
     \<and> (rq_architecture r = [] \<or> ac_architecture c = rq_architecture r)
     \<and> (rq_runtime_version r = [] \<or> ac_runtime_version c = rq_runtime_version r)
     \<and> cuda_runtime_compatible c r"

definition eligible :: "artifact_request \<Rightarrow> artifact_candidate \<Rightarrow> bool" where
  "eligible r c \<longleftrightarrow> same_identity c r \<and> wanted_provider c r \<and> versions_ok c r
     \<and> ad_precision (ac_artifact c) = rq_precision r
     \<and> target_match_rank c r \<noteq> no_match_rank \<and> same_platform c r
     \<and> (ac_license_restricted c \<longrightarrow> rq_allow_license_restricted r)
     \<and> (rq_expected_digest r = [] \<or> ac_digest c = rq_expected_digest r)
     \<and> ac_available c \<and> ad_path (ac_artifact c) \<noteq> []"

definition ranked :: "artifact_request \<Rightarrow> artifact_candidate \<Rightarrow> resolved_artifact" where
  "ranked r c = \<lparr>ra_candidate = c, ra_provider_preference_rank = preference_rank c r,
     ra_target_match_rank = target_match_rank c r\<rparr>"

definition match_key :: "resolved_artifact \<Rightarrow> u8 \<times> nat \<times> string" where
  "match_key m = (ra_target_match_rank m, ra_provider_preference_rank m,
     ad_path (ac_artifact (ra_candidate m)))"

lemma better_match_key: "better_match a b \<longleftrightarrow> match_key a < match_key b"
  by (auto simp: better_match_def match_key_def less_prod_def')

lemma min_element_key:
  fixes key :: "'a \<Rightarrow> 'b::linorder"
  assumes "\<And>a b. lt a b \<longleftrightarrow> key a < key b"
  shows "min_element lt b xs \<in> set (b # xs) \<and> (\<forall>x\<in>set (b # xs). key (min_element lt b xs) \<le> key x)"
proof (induction xs arbitrary: b)
  case Nil
  then show ?case by simp
next
  case (Cons x xs)
  from Cons [of "if lt x b then x else b"] show ?case
    by (auto simp: assms split: if_splits)
qed

lemma scan_candidate_matches:
  "scan_matches (scan_candidate r c sc) =
     scan_matches sc @ (if eligible r c then [ranked r c] else [])"
  by (auto simp: scan_candidate_def eligible_def same_platform_def wanted_provider_def ranked_def Let_def)

lemma fold_scan_matches:
  "scan_matches (fold (scan_candidate r) cs sc) = scan_matches sc @ map (ranked r) (filter (eligible r) cs)"
  by (induction cs arbitrary: sc) (simp_all add: scan_candidate_matches)

lemma eligible_identity:
  "eligible r c \<Longrightarrow> same_identity c r \<and> wanted_provider c r
     \<and> ad_codec_id (ac_artifact c) = rq_codec_id r \<and> ad_model_set_id (ac_artifact c) = rq_model_set_id r"
  by (simp add: eligible_def same_identity_def)

lemma resolve_Inr_iff:
  "resolve cs r = Inr m \<longleftrightarrow> complete_request r \<and>
     (\<exists>x xs. map (ranked r) (filter (eligible r) cs) = x # xs \<and> m = min_element better_match x xs)"
proof -
  let ?ms = "map (ranked r) (filter (eligible r) cs)"
  have sc: "scan_matches (fold (scan_candidate r) cs start_scan) = ?ms"
    by (simp add: fold_scan_matches start_scan_def)
  have "?ms \<noteq> [] \<Longrightarrow> \<exists>c\<in>set cs. eligible r c"
    by (auto simp: filter_empty_conv)
  then have ex: "?ms \<noteq> [] \<Longrightarrow>
      list_ex (\<lambda>c. ad_codec_id (ac_artifact c) = rq_codec_id r) cs
      \<and> list_ex (\<lambda>c. ad_codec_id (ac_artifact c) = rq_codec_id r
          \<and> ad_model_set_id (ac_artifact c) = rq_model_set_id r) cs
      \<and> list_ex (\<lambda>c. same_identity c r) cs
      \<and> list_ex (\<lambda>c. same_identity c r \<and> wanted_provider c r) cs"
    using eligible_identity unfolding list_ex_iff by blast
  show ?thesis
  proof (cases "?ms = []")
    case True
    then show ?thesis by (auto simp: resolve_def sc Let_def)
  next
    case False
    with ex [OF False] show ?thesis
      by (auto simp: resolve_def sc Let_def complete_request_def split: list.splits)
  qed
qed

text \<open>
  Property C28. Resolution returns an artifact exactly when the request is complete and some
  registered candidate satisfies every condition of the request; the result is such a
  candidate, with its ranks.
\<close>

theorem resolve_complete:
  "(\<exists>m. resolve cs r = Inr m \<and> ra_candidate m \<in> set cs \<and> eligible r (ra_candidate m)
      \<and> m = ranked r (ra_candidate m))
   = (complete_request r \<and> (\<exists>c. c \<in> set cs \<and> eligible r c))"
  (is "?L = ?R")
proof
  assume ?L
  then show ?R by (auto simp: resolve_Inr_iff)
next
  assume R: ?R
  then obtain x xs where ms: "map (ranked r) (filter (eligible r) cs) = x # xs"
    by (cases "map (ranked r) (filter (eligible r) cs)") (auto simp: filter_empty_conv)
  let ?m = "min_element better_match x xs"
  have "?m \<in> set (map (ranked r) (filter (eligible r) cs))"
    unfolding ms using min_element_key [of better_match match_key x xs] better_match_key by blast
  then obtain c where "c \<in> set cs" "eligible r c" "?m = ranked r c" by auto
  with R ms show ?L
    by (intro exI [of _ ?m]) (auto simp: resolve_Inr_iff ranked_def)
qed


definition sample_descriptor :: "string \<Rightarrow> artifact_descriptor" where
  "sample_descriptor path = \<lparr>ad_codec_id = ''c'', ad_model_set_id = ''m'', ad_component_id = ''k'',
     ad_engine_profile_id = ''e'', ad_provider_id = ''tensorrt'', ad_precision = ''fp16'',
     ad_path = path, ad_expected_digest = [], ad_codec_api_version = \<lparr>v1_major = 1\<rparr>,
     ad_provider_api_version = \<lparr>v1_major = 1\<rparr>,
     ad_model_set_version = \<lparr>v2_major = 1, v2_minor = 0\<rparr>,
     ad_manifest_schema_version = \<lparr>v2_major = 2, v2_minor = 0\<rparr>\<rparr>"

definition sample_candidate :: "hardware_compatibility \<Rightarrow> string \<Rightarrow> artifact_candidate" where
  "sample_candidate hw path = \<lparr>ac_artifact = sample_descriptor path, ac_target_profile_id = [],
     ac_target_device = ''d'', ac_compute_capability = ''8.6'', ac_operating_system = [],
     ac_architecture = [], ac_runtime_version = [], ac_cuda_runtime_version = 0,
     ac_hardware_compatibility = hw, ac_digest = [], ac_available = True,
     ac_license_restricted = False\<rparr>"

definition sample_request :: artifact_request where
  "sample_request = \<lparr>rq_codec_id = ''c'', rq_model_set_id = ''m'', rq_component_id = ''k'',
     rq_engine_profile_id = ''e'', rq_provider_id = [], rq_provider_preference = [],
     rq_target_profile_id = [], rq_target_device = ''d'', rq_compute_capability = ''8.6'',
     rq_operating_system = [], rq_architecture = [], rq_runtime_version = [],
     rq_cuda_runtime_version = 0, rq_precision = ''fp16'',
     rq_codec_api_version = \<lparr>v1_major = 1\<rparr>, rq_provider_api_version = \<lparr>v1_major = 1\<rparr>,
     rq_model_set_version = \<lparr>v2_major = 1, v2_minor = 0\<rparr>,
     rq_manifest_schema_version = \<lparr>v2_major = 2, v2_minor = 0\<rparr>,
     rq_expected_digest = [], rq_allow_license_restricted = False\<rparr>"

lemmas sample_resolver_simps =
  sample_request_def sample_candidate_def sample_descriptor_def eligible_def same_platform_def
  same_identity_def wanted_provider_def versions_ok_def compatible_v1_def compatible_v2_def
  target_match_rank_def no_match_rank_def cuda_runtime_compatible_def compute_major_def
  decimal_value_def digits_value_def digit_value_def isdigit_def char_code_def


end
