(* ===== verification/Catalog.thy ===== *)
theory Catalog
  imports CatalogJson Resolver
begin

text \<open>
  \<^verbatim>\<open>include/nvcr/artifacts/catalog.hpp\<close>, \<^verbatim>\<open>src/artifacts/catalog.cpp\<close>: the catalog of engine bundles. A catalog is
  the list of its entries. \<open>from_json\<close> checks every entry and that no two have the same identity or file name;
  \<open>append_candidates\<close> turns the entries into candidates of the artifact resolver. Files are arguments: a
  \<open>catalog_file\<close> for the document, \<open>regular\<close> for \<open>std::filesystem::is_regular_file\<close>.
\<close>

subsection \<open>Data\<close>

definition catalog_schema :: string where "catalog_schema = ''nvcr.engine-catalog.v1''"
definition engine_bundle_component_id :: string where "engine_bundle_component_id = ''engine-bundle''"

record catalog_entry =
  ce_codec_id :: string
  ce_model_profile_id :: string
  ce_target_profile_id :: string
  ce_engine_profile_id :: string
  ce_precision :: string
  ce_operating_system :: string
  ce_architecture :: string
  ce_device_name :: string
  ce_filename :: string
  ce_size_bytes :: u64
  ce_sha256 :: string
  ce_compute_capability_major :: u32
  ce_compute_capability_minor :: u32
  ce_multiprocessor_count :: u32
  ce_cuda_runtime_version :: u32
  ce_tensorrt_version_major :: u32
  ce_tensorrt_version_minor :: u32
  ce_tensorrt_version_patch :: u32
  ce_hardware_compatibility :: hardware_compatibility

record catalog_load_options =
  lo_codec_id :: string
  lo_provider_id :: string
  lo_component_id :: string
  lo_artifact_root :: string
  lo_mark_license_restricted :: bool

record catalog_file =
  cf_path :: string
  cf_size :: "nat option"
  cf_opens :: bool
  cf_reads :: bool
  cf_content :: string

subsection \<open>Reading members\<close>

definition c_find :: "json_value \<Rightarrow> string \<Rightarrow> json_value option" where
  "c_find v key = (case v of CObject m \<Rightarrow> map_of m key | _ \<Rightarrow> None)"

definition required_string :: "json_value \<Rightarrow> string \<Rightarrow> string \<Rightarrow> string result" where
  "required_string v key context = (case c_find v key of
       Some (CString s) \<Rightarrow>
         if s = [] then Inl (catalog_error (context @ '' requires non-empty string '' @ quoted key)) else Inr s
     | _ \<Rightarrow> Inl (catalog_error (context @ '' requires non-empty string '' @ quoted key)))"

definition required_integer :: "json_value \<Rightarrow> string \<Rightarrow> string \<Rightarrow> u64 result" where
  "required_integer v key context = (case c_find v key of
       Some (CInteger i) \<Rightarrow> Inr i
     | _ \<Rightarrow> Inl (catalog_error (context @ '' requires integer '' @ quoted key)))"

definition aliased_string :: "json_value \<Rightarrow> string \<Rightarrow> string \<Rightarrow> string \<Rightarrow> string result" where
  "aliased_string v canonical legacy context =
     (if c_find v canonical \<noteq> None \<and> c_find v legacy \<noteq> None then
        Inl (catalog_error (context @ '' must not contain both '' @ quoted canonical @ '' and '' @ quoted legacy))
      else required_string v (if c_find v canonical \<noteq> None then canonical else legacy) context)"

definition small_integer :: "json_value \<Rightarrow> string \<Rightarrow> string \<Rightarrow> u32 result" where
  "small_integer v key context =
     res_bind (required_integer v key context) (\<lambda>i.
     if i > 0xffffffff then Inl (catalog_error (context @ '' integer is out of range: '' @ key))
     else Inr (ucast i))"

definition safe_identifier :: "string \<Rightarrow> bool" where
  "safe_identifier s \<longleftrightarrow> s \<noteq> [] \<and> length s \<le> 128 \<and> list_all identifier_char s"

definition valid_hex_digest :: "string \<Rightarrow> bool" where
  "valid_hex_digest s \<longleftrightarrow> length s = 64 \<and> list_all (\<lambda>c. isxdigit c \<and> (isdigit c \<or> islower c)) s"

text \<open>\<open>std::from_chars\<close> in base 16 on two hexadecimal digits reads both of them.\<close>

fun digest_pairs :: "string \<Rightarrow> byte list" where
  "digest_pairs (a # b # cs) = word_of_nat (hex_value [a, b]) # digest_pairs cs"
| "digest_pairs _ = []"

definition decode_digest :: "string \<Rightarrow> byte list result" where
  "decode_digest s =
     (if \<not> valid_hex_digest s then Inl (catalog_error ''catalog SHA-256 digest is invalid'')
      else Inr (digest_pairs s))"

definition expected_filename :: "catalog_entry \<Rightarrow> string" where
  "expected_filename e =
     (let architecture = (if ce_architecture e = ''x86_64'' then ''amd64'' else ''arm64'');
          target =
            (case ce_hardware_compatibility e of
               same_compute_capability \<Rightarrow> ''linux-'' @ architecture @ ''-sm''
                 @ decimal_string (unat (ce_compute_capability_major e))
                 @ decimal_string (unat (ce_compute_capability_minor e))
             | ampere_plus \<Rightarrow> ''linux-'' @ architecture @ ''-ampere-plus''
             | exact \<Rightarrow> ce_target_profile_id e) in
      ''nvcr-engines-'' @ target @ ''-'' @ ce_model_profile_id e @ ''-'' @ ce_engine_profile_id e @ ''.tar.gz'')"

definition parse_compatibility :: "json_value \<Rightarrow> string \<Rightarrow> hardware_compatibility result" where
  "parse_compatibility v context = (case c_find v ''hardware_compatibility'' of
       None \<Rightarrow> Inr exact
     | Some (CString s) \<Rightarrow>
         if s = ''exact'' then Inr exact
         else if s = ''same_compute_capability'' then Inr same_compute_capability
         else if s = ''ampere_plus'' then Inr ampere_plus
         else Inl (catalog_error (context @ '' has invalid hardware_compatibility''))
     | Some _ \<Rightarrow> Inl (catalog_error (context @ '' hardware_compatibility must be a string'')))"

subsection \<open>Entries\<close>

definition read_entry :: "json_value \<Rightarrow> string \<Rightarrow> catalog_entry result" where
  "read_entry v context =
     res_bind (aliased_string v ''codec_id'' ''backend'' context) (\<lambda>codec_id.
     res_bind (required_string v ''model_profile_id'' context) (\<lambda>model_profile_id.
     res_bind (required_string v ''target_profile_id'' context) (\<lambda>target_profile_id.
     res_bind (aliased_string v ''engine_profile_id'' ''profile'' context) (\<lambda>engine_profile_id.
     res_bind (required_string v ''precision'' context) (\<lambda>precision.
     res_bind (required_string v ''operating_system'' context) (\<lambda>operating_system.
     res_bind (required_string v ''architecture'' context) (\<lambda>architecture.
     res_bind (required_string v ''device_name'' context) (\<lambda>device_name.
     res_bind (required_string v ''filename'' context) (\<lambda>filename.
     res_bind (required_string v ''sha256'' context) (\<lambda>sha256.
     res_bind (required_integer v ''size_bytes'' context) (\<lambda>size_bytes.
     res_bind (small_integer v ''compute_capability_major'' context) (\<lambda>cc_major.
     res_bind (small_integer v ''compute_capability_minor'' context) (\<lambda>cc_minor.
     res_bind (small_integer v ''multiprocessor_count'' context) (\<lambda>multiprocessor_count.
     res_bind (small_integer v ''cuda_runtime_version'' context) (\<lambda>cuda_runtime_version.
     res_bind (small_integer v ''tensorrt_version_major'' context) (\<lambda>trt_major.
     res_bind (small_integer v ''tensorrt_version_minor'' context) (\<lambda>trt_minor.
     res_bind (small_integer v ''tensorrt_version_patch'' context) (\<lambda>trt_patch.
     res_bind (parse_compatibility v context) (\<lambda>compatibility.
     Inr \<lparr>ce_codec_id = codec_id, ce_model_profile_id = model_profile_id, ce_target_profile_id = target_profile_id,
       ce_engine_profile_id = engine_profile_id, ce_precision = precision, ce_operating_system = operating_system,
       ce_architecture = architecture, ce_device_name = device_name, ce_filename = filename,
       ce_size_bytes = size_bytes, ce_sha256 = sha256, ce_compute_capability_major = cc_major,
       ce_compute_capability_minor = cc_minor, ce_multiprocessor_count = multiprocessor_count,
       ce_cuda_runtime_version = cuda_runtime_version, ce_tensorrt_version_major = trt_major,
       ce_tensorrt_version_minor = trt_minor, ce_tensorrt_version_patch = trt_patch,
       ce_hardware_compatibility = compatibility\<rparr>)))))))))))))))))))"

definition catalog_profiles :: "string list" where
  "catalog_profiles = [''qcif'', ''cif'', ''360p'', ''540p'', ''720p'', ''1080p'']"

definition check_entry :: "string \<Rightarrow> catalog_entry \<Rightarrow> catalog_entry result" where
  "check_entry context e =
     (if \<not> safe_identifier (ce_codec_id e) \<or> \<not> safe_identifier (ce_model_profile_id e)
         \<or> \<not> safe_identifier (ce_target_profile_id e) \<or> \<not> safe_identifier (ce_engine_profile_id e) then
        Inl (catalog_error (context @ '' has an unsafe identity field''))
      else if ce_engine_profile_id e \<notin> set catalog_profiles then
        Inl (catalog_error (context @ '' has an unsupported profile''))
      else if ce_precision e \<noteq> ''fp16'' then Inl (catalog_error (context @ '' precision must be fp16''))
      else if ce_operating_system e \<noteq> ''linux''
          \<or> ce_architecture e \<noteq> ''x86_64'' \<and> ce_architecture e \<noteq> ''aarch64'' then
        Inl (catalog_error (context @ '' has an unsupported platform''))
      else if ce_architecture e = ''aarch64'' \<and> ce_hardware_compatibility e \<noteq> exact then
        Inl (catalog_error (context @ '' uses compatibility mode on AArch64''))
      else if ce_size_bytes e = 0 \<or> ce_compute_capability_major e = 0 \<or> ce_multiprocessor_count e = 0
          \<or> ce_cuda_runtime_version e = 0 \<or> ce_tensorrt_version_major e = 0 \<or> \<not> valid_hex_digest (ce_sha256 e) then
        Inl (catalog_error (context @ '' has invalid size, runtime, capability, or digest data''))
      else if ce_filename e \<noteq> expected_filename e then
        Inl (catalog_error (context @ '' filename does not match its identity''))
      else Inr e)"

definition is_c_object :: "json_value \<Rightarrow> bool" where
  "is_c_object v = (case v of CObject _ \<Rightarrow> True | _ \<Rightarrow> False)"

definition parse_entry :: "json_value \<Rightarrow> nat \<Rightarrow> catalog_entry result" where
  "parse_entry v index =
     (let context = ''catalog asset '' @ decimal_string index in
      if \<not> is_c_object v then Inl (catalog_error (context @ '' must be an object''))
      else res_bind (read_entry v context) (check_entry context))"

subsection \<open>Catalogs\<close>

definition compatibility_number :: "hardware_compatibility \<Rightarrow> nat" where
  "compatibility_number h = (case h of exact \<Rightarrow> 0 | same_compute_capability \<Rightarrow> 1 | ampere_plus \<Rightarrow> 2)"

definition unit_separator :: char where "unit_separator = CHR 0x1f"

definition entry_identity :: "catalog_entry \<Rightarrow> string" where
  "entry_identity e =
     ce_codec_id e @ [unit_separator] @ ce_model_profile_id e @ [unit_separator]
     @ ce_target_profile_id e @ [unit_separator] @ ce_engine_profile_id e @ [unit_separator]
     @ decimal_string (compatibility_number (ce_hardware_compatibility e))"

text \<open>The two \<open>std::set\<close>s hold the identities and the file names of the entries so far.\<close>

fun parse_assets :: "json_value list \<Rightarrow> nat \<Rightarrow> catalog_entry list \<Rightarrow> catalog_entry list result" where
  "parse_assets [] index output = Inr output"
| "parse_assets (asset # assets) index output =
     res_bind (parse_entry asset index) (\<lambda>e.
     if entry_identity e \<in> set (map entry_identity output) then
       Inl (catalog_error ''catalog contains duplicate asset identity'')
     else if ce_filename e \<in> set (map ce_filename output) then
       Inl (catalog_error ''catalog contains duplicate asset filename'')
     else parse_assets assets (Suc index) (output @ [e]))"

definition from_json :: "bool \<Rightarrow> string \<Rightarrow> catalog_entry list result" where
  "from_json memory document =
     (if \<not> memory then Inl (Error resource_exhausted ''catalog allocation failed'' ''artifact-catalog'')
      else
        res_bind (c_parse document) (\<lambda>v.
        res_bind (required_string v ''schema'' ''catalog'') (\<lambda>schema.
        if schema \<noteq> catalog_schema then Inl (catalog_error (''catalog must use schema '' @ catalog_schema))
        else case c_find v ''assets'' of
          Some (CArray assets) \<Rightarrow> parse_assets assets 0 []
        | _ \<Rightarrow> Inl (catalog_error ''catalog requires an assets array''))))"

definition catalog_read_file :: "catalog_file \<Rightarrow> string result" where
  "catalog_read_file file = (case cf_size file of
       None \<Rightarrow> Inl (Error io_error (''cannot stat catalog: '' @ cf_path file) ''artifact-catalog'')
     | Some bytes \<Rightarrow>
       if int bytes > 16 * 1024 * 1024 then
         Inl (Error resource_exhausted ''catalog exceeds 16 MiB'' ''artifact-catalog'')
       else if \<not> cf_opens file then
         Inl (Error io_error (''cannot open catalog: '' @ cf_path file) ''artifact-catalog'')
       else if \<not> cf_reads file then
         Inl (Error io_error (''cannot read catalog: '' @ cf_path file) ''artifact-catalog'')
       else Inr (cf_content file))"

definition catalog_from_file :: "bool \<Rightarrow> catalog_file \<Rightarrow> catalog_entry list result" where
  "catalog_from_file memory file = res_bind (catalog_read_file file) (from_json memory)"

subsection \<open>Candidates\<close>

definition entry_candidate ::
  "(string \<Rightarrow> bool) \<Rightarrow> catalog_load_options \<Rightarrow> catalog_entry \<Rightarrow> byte list \<Rightarrow> artifact_candidate" where
  "entry_candidate regular options e digest =
     (let rooted = lo_artifact_root options \<noteq> [];
          path = (if rooted then path_append (lo_artifact_root options) (ce_filename e) else ce_filename e) in
      \<lparr>ac_artifact =
         \<lparr>ad_codec_id = lo_codec_id options, ad_model_set_id = ce_model_profile_id e,
          ad_component_id = lo_component_id options, ad_engine_profile_id = ce_engine_profile_id e,
          ad_provider_id = lo_provider_id options, ad_precision = ce_precision e, ad_path = path,
          ad_expected_digest = digest, ad_codec_api_version = \<lparr>v1_major = 1\<rparr>,
          ad_provider_api_version = \<lparr>v1_major = 1\<rparr>, ad_model_set_version = \<lparr>v2_major = 1, v2_minor = 0\<rparr>,
          ad_manifest_schema_version = \<lparr>v2_major = 2, v2_minor = 0\<rparr>\<rparr>,
       ac_target_profile_id = ce_target_profile_id e, ac_target_device = ce_device_name e,
       ac_compute_capability = decimal_string (unat (ce_compute_capability_major e)) @ ''.''
         @ decimal_string (unat (ce_compute_capability_minor e)),
       ac_operating_system = ce_operating_system e, ac_architecture = ce_architecture e,
       ac_runtime_version = decimal_string (unat (ce_tensorrt_version_major e)) @ ''.''
         @ decimal_string (unat (ce_tensorrt_version_minor e)) @ ''.''
         @ decimal_string (unat (ce_tensorrt_version_patch e)),
       ac_cuda_runtime_version = ce_cuda_runtime_version e,
       ac_hardware_compatibility = ce_hardware_compatibility e, ac_digest = digest,
       ac_available = (rooted \<and> regular path), ac_license_restricted = lo_mark_license_restricted options\<rparr>)"

fun append_entries ::
  "(string \<Rightarrow> bool) \<Rightarrow> catalog_load_options \<Rightarrow> catalog_entry list \<Rightarrow> resolver \<Rightarrow> unit result \<times> resolver" where
  "append_entries regular options [] resolver = (Inr (), resolver)"
| "append_entries regular options (e # es) resolver = (case decode_digest (ce_sha256 e) of
       Inl err \<Rightarrow> (Inl err, resolver)
     | Inr digest \<Rightarrow>
       append_entries regular options es (resolver_add (entry_candidate regular options e digest) resolver))"

definition append_candidates ::
  "(string \<Rightarrow> bool) \<Rightarrow> catalog_entry list \<Rightarrow> catalog_load_options \<Rightarrow> resolver \<Rightarrow> unit result \<times> resolver" where
  "append_candidates regular entries options resolver =
     (if lo_codec_id options = [] \<or> lo_provider_id options = [] \<or> lo_component_id options = [] then
        (Inl (catalog_error ''catalog candidate conversion requires codec_id, provider_id, and component_id''),
         resolver)
      else append_entries regular options entries resolver)"

subsection \<open>What the checks establish\<close>

definition entry_ok :: "catalog_entry \<Rightarrow> bool" where
  "entry_ok e \<longleftrightarrow>
     list_all safe_identifier [ce_codec_id e, ce_model_profile_id e, ce_target_profile_id e, ce_engine_profile_id e]
     \<and> ce_engine_profile_id e \<in> set catalog_profiles \<and> ce_precision e = ''fp16'' \<and> ce_operating_system e = ''linux''
     \<and> (ce_architecture e = ''x86_64'' \<or> ce_architecture e = ''aarch64'' \<and> ce_hardware_compatibility e = exact)
     \<and> 0 < ce_size_bytes e \<and> 0 < ce_compute_capability_major e \<and> 0 < ce_multiprocessor_count e
     \<and> 0 < ce_cuda_runtime_version e \<and> 0 < ce_tensorrt_version_major e \<and> valid_hex_digest (ce_sha256 e)
     \<and> ce_filename e = expected_filename e"

lemma check_entry_iff: "check_entry context e = Inr e' \<longleftrightarrow> e' = e \<and> entry_ok e"
  by (auto simp: check_entry_def entry_ok_def word_gt_0)

lemma parse_entry_ok: "parse_entry v i = Inr e \<Longrightarrow> entry_ok e"
  by (auto simp: parse_entry_def Let_def result_simps check_entry_iff split: if_splits)

text \<open>The identity of an entry is a string; joining with a character no identifier has keeps the fields apart.\<close>

definition entry_key :: "catalog_entry \<Rightarrow> string \<times> string \<times> string \<times> string \<times> hardware_compatibility" where
  "entry_key e = (ce_codec_id e, ce_model_profile_id e, ce_target_profile_id e, ce_engine_profile_id e,
     ce_hardware_compatibility e)"

lemma join_separated:
  "c \<notin> set xs \<Longrightarrow> c \<notin> set ys \<Longrightarrow> xs @ c # xs' = ys @ c # ys' \<longleftrightarrow> xs = ys \<and> xs' = ys'"
proof (induction xs arbitrary: ys)
  case Nil
  then show ?case by (cases ys) auto
next
  case (Cons x xs)
  then show ?case by (cases ys) auto
qed

lemma safe_identifier_chars: "safe_identifier s \<Longrightarrow> unit_separator \<notin> set s" "safe_identifier s \<Longrightarrow> CHR ''/'' \<notin> set s"
  by (auto simp: safe_identifier_def list_all_iff unit_separator_def identifier_char_def isalnum_def isdigit_def
        islower_def isupper_def char_code_def)

lemma decimal_string_inj: "decimal_string a = decimal_string b \<longleftrightarrow> a = b"
  by (metis decimal_value_string option.inject)

lemma entry_identity_key:
  assumes "entry_ok a" "entry_ok b"
  shows "entry_identity a = entry_identity b \<longleftrightarrow> entry_key a = entry_key b"
proof -
  have "compatibility_number h = compatibility_number h' \<longleftrightarrow> h = h'" for h h'
    by (cases h; cases h') (simp_all add: compatibility_number_def)
  with assms show ?thesis
    by (simp add: entry_ok_def entry_identity_def entry_key_def join_separated safe_identifier_chars decimal_string_inj)
qed

lemma distinct_identities:
  "list_all entry_ok es \<Longrightarrow> distinct (map entry_identity es) \<longleftrightarrow> distinct (map entry_key es)"
  by (induction es) (auto simp: list_all_iff entry_identity_key image_iff)

definition entries_of :: "nat \<Rightarrow> json_value list \<Rightarrow> catalog_entry list \<Rightarrow> bool" where
  "entries_of i assets es \<longleftrightarrow> list_all2 (\<lambda>(i, a) e. parse_entry a i = Inr e) (enumerate i assets) es"

lemma entries_of_simps [simp]:
  "entries_of i [] es \<longleftrightarrow> es = []"
  "entries_of i (a # assets) es \<longleftrightarrow> (\<exists>e es'. es = e # es' \<and> parse_entry a i = Inr e \<and> entries_of (Suc i) assets es')"
  by (auto simp: entries_of_def list_all2_Cons1)

lemma entries_of_ok: "entries_of i assets es \<Longrightarrow> list_all entry_ok es"
  by (induction assets arbitrary: i es) (auto dest: parse_entry_ok)

lemma parse_assets_iff:
  assumes "distinct (map entry_identity acc)" "distinct (map ce_filename acc)"
  shows "parse_assets assets i acc = Inr es \<longleftrightarrow>
     (\<exists>es'. es = acc @ es' \<and> entries_of i assets es' \<and> distinct (map entry_identity es) \<and> distinct (map ce_filename es))"
  using assms
proof (induction assets i acc rule: parse_assets.induct)
  case (2 asset assets i acc)
  show ?case
  proof (cases "parse_entry asset i")
    case (Inr e)
    show ?thesis
    proof (cases "entry_identity e \<in> set (map entry_identity acc) \<or> ce_filename e \<in> set (map ce_filename acc)")
      case True
      then show ?thesis by (auto simp: Inr)
    next
      case False
      then show ?thesis using 2(1) [OF Inr] 2(2,3) by (auto simp: Inr)
    qed
  qed simp
qed auto

lemma required_string_iff:
  "required_string v key context = Inr s \<longleftrightarrow> c_find v key = Some (CString s) \<and> s \<noteq> []"
  by (auto simp: required_string_def split: option.splits json_value.splits if_splits)

lemma from_json_iff:
  "from_json memory document = Inr es \<longleftrightarrow> memory \<and>
     (\<exists>v assets. c_parse document = Inr v \<and> c_find v ''schema'' = Some (CString catalog_schema)
        \<and> c_find v ''assets'' = Some (CArray assets) \<and> entries_of 0 assets es
        \<and> distinct (map entry_key es) \<and> distinct (map ce_filename es))"
proof -
  have "parse_assets assets 0 [] = Inr es \<longleftrightarrow>
      entries_of 0 assets es \<and> distinct (map entry_key es) \<and> distinct (map ce_filename es)" for assets
    using parse_assets_iff [of "[]" assets 0 es] distinct_identities [of es] entries_of_ok [of 0 assets es] by auto
  then show ?thesis
    by (auto simp: from_json_def result_simps required_string_iff catalog_schema_def
          split: option.split_asm json_value.split_asm)
qed

text \<open>
  Property C26. What a catalog is. \<open>from_json\<close> accepts a document exactly when it is an object of the catalog schema with
  an array of assets that all are valid entries, no two of which agree in codec, model profile, target profile, engine
  profile and compatibility, or in their file name; and it returns the entries in the order of the document. In
  particular the joined identity string never takes two different entries for duplicates.
\<close>

theorem catalog_accepted:
  "from_json memory document = Inr es \<longleftrightarrow> memory \<and>
     (\<exists>v assets. c_parse document = Inr v \<and> c_find v ''schema'' = Some (CString catalog_schema)
        \<and> c_find v ''assets'' = Some (CArray assets) \<and> entries_of 0 assets es
        \<and> distinct (map entry_key es) \<and> distinct (map ce_filename es))"
  by (rule from_json_iff)

lemma from_json_ok: "from_json memory document = Inr es \<Longrightarrow> list_all entry_ok es"
  unfolding from_json_iff using entries_of_ok by blast

lemma decimal_string_plain: "CHR ''/'' \<notin> set (decimal_string n)"
  using decimal_value_string [of n]
  by (auto simp: decimal_value_def list_all_iff isdigit_def char_code_def split: if_splits)

lemma expected_filename_plain:
  assumes "entry_ok e"
  shows "CHR ''/'' \<notin> set (ce_filename e)"
proof -
  have "CHR ''/'' \<notin> set (ce_model_profile_id e)" "CHR ''/'' \<notin> set (ce_target_profile_id e)"
    "CHR ''/'' \<notin> set (ce_engine_profile_id e)"
    using assms by (simp_all add: entry_ok_def safe_identifier_chars)
  then have "CHR ''/'' \<notin> set (expected_filename e)"
    by (cases "ce_hardware_compatibility e") (simp_all add: expected_filename_def Let_def decimal_string_plain)
  then show ?thesis using assms by (simp add: entry_ok_def)
qed

lemma takeWhile_until: "(\<And>x. x \<in> set xs \<Longrightarrow> P x) \<Longrightarrow> \<not> P y \<Longrightarrow> takeWhile P (xs @ y # ys) = xs"
  by (induction xs) auto

lemma path_filename_append:
  assumes "CHR ''/'' \<notin> set name" "base \<noteq> []"
  shows "path_filename (path_append base name) = name"
proof -
  have "\<exists>b. path_append base name = b @ CHR ''/'' # name"
    using assms(2) by (cases base rule: rev_cases) (auto simp: path_append_def)
  then obtain b where b: "path_append base name = b @ CHR ''/'' # name" ..
  have "takeWhile (\<lambda>c. c \<noteq> CHR ''/'') (rev name @ CHR ''/'' # rev b) = rev name"
    by (rule takeWhile_until) (use assms(1) in auto)
  then show ?thesis by (simp add: path_filename_def b)
qed

text \<open>
  Property C27. Every entry of an accepted catalog is well formed: its identifiers consist of harmless characters, it names
  one of the six engine profiles, a platform the program supports and non-zero sizes and versions, its digest has 64
  lower-case hexadecimal digits, and its file name is the one its identity prescribes. In particular the file name has no
  directory part: below whatever artifact directory, the path of the entry names a file of that directory itself.
\<close>

theorem catalog_entries_ok:
  assumes "from_json memory document = Inr es" "base \<noteq> []"
  shows "list_all entry_ok es \<and> list_all (\<lambda>e. path_filename (path_append base (ce_filename e)) = ce_filename e) es"
  using from_json_ok [OF assms(1)] assms(2) expected_filename_plain path_filename_append by (auto simp: list_all_iff)

subsection \<open>Candidates of a catalog\<close>

lemma xdigit_lower:
  assumes "isxdigit c" "isdigit c \<or> islower c"
  shows "xdigit_value c < 16 \<and> hex_digit (xdigit_value c) = c"
proof -
  have code: "char_of (char_code c) = c" by (simp add: char_code_def)
  from assms consider "48 \<le> char_code c" "char_code c \<le> 57" | "97 \<le> char_code c" "char_code c \<le> 102"
    by (auto simp: isxdigit_def isdigit_def islower_def)
  then show ?thesis
  proof cases
    case 1
    then have "xdigit_value c = char_code c - 48" "char_code c - 48 < 10" "48 + (char_code c - 48) = char_code c"
      by (simp_all add: xdigit_value_def isdigit_def)
    then show ?thesis using code by (simp only: hex_digit_def) simp
  next
    case 2
    then have "xdigit_value c = char_code c - 87" "\<not> char_code c - 87 < 10" "87 + (char_code c - 87) = char_code c"
      by (simp_all add: xdigit_value_def isdigit_def)
    then show ?thesis using code 2 by (simp only: hex_digit_def) simp
  qed
qed

lemma to_hex_digest_pairs:
  "even (length s) \<Longrightarrow> list_all (\<lambda>c. isxdigit c \<and> (isdigit c \<or> islower c)) s \<Longrightarrow> to_hex (digest_pairs s) = s"
proof (induction s rule: digest_pairs.induct)
  case (1 a b cs)
  then have ab: "xdigit_value a < 16" "xdigit_value b < 16" "hex_digit (xdigit_value a) = a" "hex_digit (xdigit_value b) = b"
    by (simp_all add: xdigit_lower)
  have "unat (word_of_nat (hex_value [a, b]) :: byte) = xdigit_value a * 16 + xdigit_value b"
    unfolding unat_of_nat using ab by (simp add: hex_value_def)
  then show ?case using 1 ab by (simp add: to_hex_def)
qed (simp_all add: to_hex_def)

lemma decode_digest_hex:
  assumes "valid_hex_digest s"
  shows "decode_digest s = Inr (digest_pairs s)" "to_hex (digest_pairs s) = s"
  using assms to_hex_digest_pairs [of s] by (simp_all add: decode_digest_def valid_hex_digest_def)

lemma append_entries_ok:
  "list_all entry_ok es \<Longrightarrow> append_entries regular options es resolver =
     (Inr (), resolver @ map (\<lambda>e. entry_candidate regular options e (digest_pairs (ce_sha256 e))) es)"
  by (induction es arbitrary: resolver) (simp_all add: entry_ok_def decode_digest_hex resolver_add_def)

text \<open>
  Property C25. Resolution over a catalog. When the resolver holds the candidates of a catalog and a request is resolved,
  the conversion of the catalog succeeded and the chosen artifact is an entry of it: the entry of the requested model
  and engine profile, found as a regular file at the entry's name in the artifact directory, with the digest the catalog
  records; and a catalog that is marked license-restricted yields it only to a request that allows this.
\<close>

theorem catalog_resolution:
  assumes "from_json memory document = Inr es" "append_candidates regular es options [] = (outcome, candidates)"
    "resolve candidates request = Inr r"
  shows "outcome = Inr () \<and> (\<exists>e. e \<in> set es
     \<and> ce_model_profile_id e = rq_model_set_id request \<and> ce_engine_profile_id e = rq_engine_profile_id request
     \<and> ad_path (ac_artifact (ra_candidate r)) = path_append (lo_artifact_root options) (ce_filename e)
     \<and> regular (ad_path (ac_artifact (ra_candidate r)))
     \<and> path_filename (ad_path (ac_artifact (ra_candidate r))) = ce_filename e
     \<and> to_hex (ac_digest (ra_candidate r)) = ce_sha256 e)
     \<and> (\<not> lo_mark_license_restricted options \<or> rq_allow_license_restricted request)"
proof -
  let ?candidate = "\<lambda>e. entry_candidate regular options e (digest_pairs (ce_sha256 e))"
  note ok = from_json_ok [OF assms(1)]
  have "candidates \<noteq> []" using assms(3) by (auto simp: resolve_Inr_iff)
  then have c: "outcome = Inr ()" "candidates = map ?candidate es"
    using assms(2) append_entries_ok [OF ok] by (auto simp: append_candidates_def split: if_splits)
  from assms(3) obtain x xs where x: "map (ranked request) (filter (eligible request) candidates) = x # xs"
    "r = min_element better_match x xs"
    by (auto simp: resolve_Inr_iff)
  have "r \<in> set (x # xs)"
    using min_element_key [of better_match match_key, OF better_match_key] x(2) by blast
  then obtain e where e: "e \<in> set es" "eligible request (?candidate e)" "ra_candidate r = ?candidate e"
    unfolding x(1) [symmetric] c(2) by (auto simp: ranked_def)
  then have base: "lo_artifact_root options \<noteq> []"
    by (auto simp: eligible_def entry_candidate_def Let_def split: if_splits)
  have "entry_ok e" using ok e(1) by (simp add: list_all_iff)
  then have "path_filename (path_append (lo_artifact_root options) (ce_filename e)) = ce_filename e"
    "to_hex (digest_pairs (ce_sha256 e)) = ce_sha256 e"
    using path_filename_append [OF expected_filename_plain base] decode_digest_hex by (simp_all add: entry_ok_def)
  then show ?thesis
    using e c(1) base by (auto simp: eligible_def same_identity_def entry_candidate_def Let_def)
qed

subsection \<open>A catalog\<close>

definition quoted_member :: "string \<times> string \<Rightarrow> string" where
  "quoted_member = (\<lambda>(k, v). [dquote] @ k @ [dquote] @ '':'' @ [dquote] @ v @ [dquote])"

definition number_member :: "string \<times> string \<Rightarrow> string" where
  "number_member = (\<lambda>(k, v). [dquote] @ k @ [dquote] @ '':'' @ v)"

definition sample_catalog :: string where
  "sample_catalog =
     ''{'' @ quoted_member (''schema'', catalog_schema) @ '','' @ number_member (''assets'', ''[{''
       @ join_commas (map quoted_member
         [(''codec_id'', ''c''), (''model_profile_id'', ''m''), (''target_profile_id'', ''t''),
          (''engine_profile_id'', ''cif''), (''precision'', ''fp16''), (''operating_system'', ''linux''),
          (''architecture'', ''x86_64''), (''device_name'', ''d''), (''filename'', ''nvcr-engines-t-m-cif.tar.gz''),
          (''sha256'', replicate 64 (CHR ''a''))])
       @ '','' @ join_commas (map number_member
         [(''size_bytes'', ''1''), (''compute_capability_major'', ''8''), (''compute_capability_minor'', ''6''),
          (''multiprocessor_count'', ''2''), (''cuda_runtime_version'', ''12''), (''tensorrt_version_major'', ''1''),
          (''tensorrt_version_minor'', ''2''), (''tensorrt_version_patch'', ''3'')]) @ ''}]'') @ ''}''"

definition sample_entry :: catalog_entry where
  "sample_entry = \<lparr>ce_codec_id = ''c'', ce_model_profile_id = ''m'', ce_target_profile_id = ''t'',
     ce_engine_profile_id = ''cif'', ce_precision = ''fp16'', ce_operating_system = ''linux'',
     ce_architecture = ''x86_64'', ce_device_name = ''d'', ce_filename = ''nvcr-engines-t-m-cif.tar.gz'',
     ce_size_bytes = 1, ce_sha256 = replicate 64 (CHR ''a''), ce_compute_capability_major = 8,
     ce_compute_capability_minor = 6, ce_multiprocessor_count = 2, ce_cuda_runtime_version = 12,
     ce_tensorrt_version_major = 1, ce_tensorrt_version_minor = 2, ce_tensorrt_version_patch = 3,
     ce_hardware_compatibility = exact\<rparr>"

definition sample_options :: catalog_load_options where
  "sample_options = \<lparr>lo_codec_id = ''c'', lo_provider_id = ''tensorrt'', lo_component_id = engine_bundle_component_id,
     lo_artifact_root = ''a'', lo_mark_license_restricted = False\<rparr>"

definition sample_catalog_request :: artifact_request where
  "sample_catalog_request = \<lparr>rq_codec_id = ''c'', rq_model_set_id = ''m'', rq_component_id = engine_bundle_component_id,
     rq_engine_profile_id = ''cif'', rq_provider_id = [], rq_provider_preference = [], rq_target_profile_id = ''t'',
     rq_target_device = [], rq_compute_capability = [], rq_operating_system = [], rq_architecture = [],
     rq_runtime_version = [], rq_cuda_runtime_version = 0, rq_precision = ''fp16'',
     rq_codec_api_version = \<lparr>v1_major = 1\<rparr>, rq_provider_api_version = \<lparr>v1_major = 1\<rparr>,
     rq_model_set_version = \<lparr>v2_major = 1, v2_minor = 0\<rparr>,
     rq_manifest_schema_version = \<lparr>v2_major = 2, v2_minor = 0\<rparr>, rq_expected_digest = [],
     rq_allow_license_restricted = False\<rparr>"

definition catalog_candidate :: artifact_candidate where
  "catalog_candidate = entry_candidate (\<lambda>_. True) sample_options sample_entry (digest_pairs (ce_sha256 sample_entry))"

lemma sample_catalog_loads: "from_json True sample_catalog = Inr [sample_entry]"
  by code_simp

lemma sample_catalog_appended:
  "append_candidates (\<lambda>_. True) [sample_entry] sample_options [] = (Inr (), [catalog_candidate])"
  using append_entries_ok [OF from_json_ok [OF sample_catalog_loads], of "\<lambda>_. True" sample_options "[]"]
  by (simp add: append_candidates_def sample_options_def catalog_candidate_def engine_bundle_component_id_def)

lemma sample_catalog_resolves:
  "resolve [catalog_candidate] sample_catalog_request = Inr (ranked sample_catalog_request catalog_candidate)"
  by (simp add: resolve_Inr_iff eligible_def complete_request_def same_identity_def wanted_provider_def versions_ok_def
    same_platform_def target_match_rank_def no_match_rank_def cuda_runtime_compatible_def compatible_v1_def
    compatible_v2_def catalog_candidate_def sample_entry_def sample_options_def sample_catalog_request_def
    entry_candidate_def path_append_def engine_bundle_component_id_def)

theorem catalog_entries_ok_witness:
  "list_all entry_ok [sample_entry]
     \<and> list_all (\<lambda>e. path_filename (path_append ''a'' (ce_filename e)) = ce_filename e) [sample_entry]"
  by (rule catalog_entries_ok [OF sample_catalog_loads]) simp

theorem catalog_resolution_witness:
  "to_hex (ac_digest catalog_candidate) = replicate 64 (CHR ''a'')"
  using catalog_resolution [OF sample_catalog_loads sample_catalog_appended sample_catalog_resolves]
  by (simp add: ranked_def sample_entry_def)

end
