(* ===== verification/MemoryPools.thy ===== *)
theory MemoryPools
  imports Errors "HOL-Library.Multiset"
begin

text \<open>
  \<^verbatim>\<open>include/nvcr/memory/memory_pool.hpp\<close>, \<^verbatim>\<open>src/memory/memory_pool.cpp\<close>: the pool of reusable
  buffers. A pointer is a number; the resource's answer to \<open>allocate\<close> is an argument of
  \<open>acquire\<close>, and that it hands out no pointer that is still in use is a premise of the step
  relation. A lease is a value that its owner either holds or releases, once: copying is deleted
  and moving empties the source, so the set of outstanding leases is part of the state.
\<close>

subsection \<open>State\<close>

type_synonym pointer = nat

record free_block =
  fb_pointer :: pointer
  fb_capacity :: nat

record pool_state =
  ps_capacity_bytes :: nat
  ps_allocated_bytes :: nat
  ps_free_blocks :: "free_block list"

record buffer_lease =
  bl_pointer :: "pointer option"
  bl_size :: nat
  bl_capacity :: nat

definition make_pool :: "nat \<Rightarrow> pool_state" where
  "make_pool capacity_bytes =
     \<lparr>ps_capacity_bytes = capacity_bytes, ps_allocated_bytes = 0, ps_free_blocks = []\<rparr>"

definition memory_error :: "error_code \<Rightarrow> string \<Rightarrow> error" where
  "memory_error c msg = Error c msg ''memory''"

definition host_allocate :: "(nat \<Rightarrow> pointer option) \<Rightarrow> nat \<Rightarrow> pointer result" where
  "host_allocate operator_new bytes =
     (if bytes = 0 then Inl (memory_error invalid_argument ''cannot allocate zero bytes'')
      else case operator_new bytes of
        Some p \<Rightarrow> Inr p
      | None \<Rightarrow> Inl (memory_error resource_exhausted ''host allocation failed''))"

subsection \<open>Operations\<close>

text \<open>The loop of \<open>acquire\<close>: the first smallest block that is large enough.\<close>

fun best_fit :: "nat \<Rightarrow> free_block list \<Rightarrow> nat \<Rightarrow> (nat \<times> nat) option \<Rightarrow> nat option" where
  "best_fit bytes [] index best = map_option fst best"
| "best_fit bytes (block # blocks) index best =
     best_fit bytes blocks (Suc index)
       (if fb_capacity block \<ge> bytes
           \<and> (case best of None \<Rightarrow> True | Some (_, capacity) \<Rightarrow> fb_capacity block < capacity)
        then Some (index, fb_capacity block) else best)"

definition available_bytes :: "pool_state \<Rightarrow> nat" where
  "available_bytes st =
     ps_capacity_bytes st - min (ps_allocated_bytes st) (ps_capacity_bytes st)"

definition acquire ::
  "(nat \<Rightarrow> pointer result) \<Rightarrow> nat \<Rightarrow> pool_state \<Rightarrow> buffer_lease result \<times> pool_state" where
  "acquire allocate bytes st =
     (if bytes = 0 then (Inl (memory_error invalid_argument ''cannot lease zero bytes''), st)
      else case best_fit bytes (ps_free_blocks st) 0 None of
        Some i \<Rightarrow>
          (let block = ps_free_blocks st ! i in
           (Inr \<lparr>bl_pointer = Some (fb_pointer block), bl_size = bytes,
                 bl_capacity = fb_capacity block\<rparr>,
            st\<lparr>ps_free_blocks := take i (ps_free_blocks st) @ drop (Suc i) (ps_free_blocks st)\<rparr>))
      | None \<Rightarrow>
          if bytes > ps_capacity_bytes st - min (ps_allocated_bytes st) (ps_capacity_bytes st) then
            (Inl (memory_error resource_exhausted ''memory pool capacity exceeded''), st)
          else case allocate bytes of
            Inl e \<Rightarrow> (Inl e, st)
          | Inr p \<Rightarrow>
            (Inr \<lparr>bl_pointer = Some p, bl_size = bytes, bl_capacity = bytes\<rparr>,
             st\<lparr>ps_allocated_bytes := ps_allocated_bytes st + bytes\<rparr>))"

text \<open>
  \<open>return_block\<close> puts the block on the free list, or gives it back to the resource when the
  list cannot grow.
\<close>

definition return_block :: "bool \<Rightarrow> pointer \<Rightarrow> nat \<Rightarrow> pool_state \<Rightarrow> pool_state" where
  "return_block can_push p capacity st =
     (if can_push then
        st\<lparr>ps_free_blocks := ps_free_blocks st @ [\<lparr>fb_pointer = p, fb_capacity = capacity\<rparr>]\<rparr>
      else st\<lparr>ps_allocated_bytes := ps_allocated_bytes st - capacity\<rparr>)"

definition empty_lease :: buffer_lease where
  "empty_lease = \<lparr>bl_pointer = None, bl_size = 0, bl_capacity = 0\<rparr>"

definition release :: "bool \<Rightarrow> buffer_lease \<Rightarrow> pool_state \<Rightarrow> buffer_lease \<times> pool_state" where
  "release can_push lease st =
     (empty_lease,
      case bl_pointer lease of
        Some p \<Rightarrow> return_block can_push p (bl_capacity lease) st
      | None \<Rightarrow> st)"

text \<open>The move constructor: the new lease and the emptied source.\<close>

definition move_lease :: "buffer_lease \<Rightarrow> buffer_lease \<times> buffer_lease" where
  "move_lease other = (other, empty_lease)"

subsection \<open>Best fit\<close>

definition fits :: "nat \<Rightarrow> free_block list \<Rightarrow> (nat \<times> nat) option \<Rightarrow> bool" where
  "fits bytes blocks best =
     (case best of
        None \<Rightarrow> \<forall>b\<in>set blocks. fb_capacity b < bytes
      | Some (i, c) \<Rightarrow> i < length blocks \<and> c = fb_capacity (blocks ! i) \<and> bytes \<le> c
          \<and> (\<forall>b\<in>set blocks. bytes \<le> fb_capacity b \<longrightarrow> c \<le> fb_capacity b))"

lemma fits_snoc:
  assumes "fits bytes pre best"
  shows "fits bytes (pre @ [b])
     (if fb_capacity b \<ge> bytes
         \<and> (case best of None \<Rightarrow> True | Some (_, capacity) \<Rightarrow> fb_capacity b < capacity)
      then Some (length pre, fb_capacity b) else best)"
proof (cases best)
  case None
  with assms show ?thesis by (auto simp: fits_def nth_append)
next
  case (Some p)
  obtain i c where p: "p = (i, c)" by (cases p)
  from assms have "i < length pre" "c = fb_capacity (pre ! i)" "bytes \<le> c"
    "\<forall>b\<in>set pre. bytes \<le> fb_capacity b \<longrightarrow> c \<le> fb_capacity b"
    by (auto simp: fits_def Some p)
  then show ?thesis
    by (simp add: fits_def Some p nth_append) (metis less_imp_le_nat not_le order_trans)
qed

lemma best_fit_fits:
  assumes "fits bytes pre best"
  shows "\<exists>best'. best_fit bytes blocks (length pre) best = map_option fst best'
     \<and> fits bytes (pre @ blocks) best'"
  using assms
proof (induction blocks arbitrary: pre best)
  case Nil
  then show ?case by auto
next
  case (Cons b blocks)
  from Cons.IH [OF fits_snoc [OF Cons.prems, of b]] show ?case by simp
qed

lemma best_fit_result:
  obtains "best_fit bytes blocks 0 None = None" "\<forall>b\<in>set blocks. fb_capacity b < bytes"
  | i where "best_fit bytes blocks 0 None = Some i" "i < length blocks"
      "bytes \<le> fb_capacity (blocks ! i)"
      "\<forall>b\<in>set blocks. bytes \<le> fb_capacity b \<longrightarrow> fb_capacity (blocks ! i) \<le> fb_capacity b"
proof -
  have "fits bytes [] None" by (simp add: fits_def)
  from best_fit_fits [OF this, of blocks] obtain best where
    best: "best_fit bytes blocks 0 None = map_option fst best" and ok: "fits bytes blocks best"
    by auto
  show thesis
  proof (cases best)
    case None
    then show thesis using best ok that(1) by (simp add: fits_def)
  next
    case (Some p)
    then show thesis using best ok that(2) [of "fst p"] by (auto simp: fits_def split: prod.splits)
  qed
qed

lemma best_fit_Some:
  assumes "best_fit bytes blocks 0 None = Some i"
  shows "i < length blocks \<and> bytes \<le> fb_capacity (blocks ! i)
    \<and> (\<forall>b\<in>set blocks. bytes \<le> fb_capacity b \<longrightarrow> fb_capacity (blocks ! i) \<le> fb_capacity b)"
  by (rule best_fit_result [of bytes blocks]) (use assms in auto)

lemma best_fit_None:
  assumes "best_fit bytes blocks 0 None = None" "b \<in> set blocks"
  shows "fb_capacity b < bytes"
  by (rule best_fit_result [of bytes blocks]) (use assms in auto)

subsection \<open>Invariant\<close>

text \<open>The blocks the resource has handed out: those on the free list and those leased.\<close>

definition live_blocks :: "pool_state \<Rightarrow> buffer_lease list \<Rightarrow> (pointer \<times> nat) list" where
  "live_blocks st leases =
     map (\<lambda>b. (fb_pointer b, fb_capacity b)) (ps_free_blocks st) @
     map (\<lambda>l. (the (bl_pointer l), bl_capacity l)) leases"

definition pool_ok :: "pool_state \<Rightarrow> buffer_lease list \<Rightarrow> bool" where
  "pool_ok st leases \<longleftrightarrow>
     sum_list (map snd (live_blocks st leases)) = ps_allocated_bytes st
     \<and> ps_allocated_bytes st \<le> ps_capacity_bytes st
     \<and> distinct (map fst (live_blocks st leases))
     \<and> (\<forall>l\<in>set leases. bl_pointer l \<noteq> None \<and> 0 < bl_size l \<and> bl_size l \<le> bl_capacity l)"

inductive pool_step :: "pool_state \<times> buffer_lease list \<Rightarrow> pool_state \<times> buffer_lease list \<Rightarrow> bool" where
  step_acquire: "acquire allocate bytes st = (Inr lease, st') \<Longrightarrow>
     (\<And>p. allocate bytes = Inr p \<Longrightarrow> p \<notin> fst ` set (live_blocks st leases)) \<Longrightarrow>
     pool_step (st, leases) (st', lease # leases)"
| step_refused: "acquire allocate bytes st = (Inl e, st') \<Longrightarrow> pool_step (st, leases) (st', leases)"
| step_release: "release can_push lease st = (lease', st') \<Longrightarrow>
     pool_step (st, before @ lease # after) (st', before @ after)"

inductive pool_reachable :: "nat \<Rightarrow> pool_state \<times> buffer_lease list \<Rightarrow> bool" for capacity where
  pool_start: "pool_reachable capacity (make_pool capacity, [])"
| pool_next: "pool_reachable capacity s \<Longrightarrow> pool_step s s' \<Longrightarrow> pool_reachable capacity s'"

inductive_cases pool_stepE: "pool_step (st, leases) s'"

lemma acquire_refused: "acquire allocate bytes st = (Inl e, st') \<Longrightarrow> st' = st"
  by (auto simp: acquire_def Let_def split: if_splits option.splits sum.splits)

lemma live_blocks_remove:
  assumes "i < length (ps_free_blocks st)"
  defines "b \<equiv> ps_free_blocks st ! i"
  shows "mset (live_blocks st leases) =
     mset (live_blocks (st\<lparr>ps_free_blocks := take i (ps_free_blocks st) @ drop (Suc i) (ps_free_blocks st)\<rparr>)
       (\<lparr>bl_pointer = Some (fb_pointer b), bl_size = n, bl_capacity = fb_capacity b\<rparr> # leases))"
proof -
  have split: "mset (map f xs) = add_mset (f b) (mset (map f (ys @ zs)))" if "xs = ys @ b # zs"
    for f :: "free_block \<Rightarrow> pointer \<times> nat" and xs ys zs
    using that by simp
  have "ps_free_blocks st = take i (ps_free_blocks st) @ b # drop (Suc i) (ps_free_blocks st)"
    unfolding b_def using assms(1) by (rule id_take_nth_drop)
  from split [OF this, of "\<lambda>b. (fb_pointer b, fb_capacity b)"] show ?thesis
    by (simp add: live_blocks_def)
qed

lemma pool_ok_mset:
  assumes "mset (live_blocks st leases) = mset (live_blocks st' leases')"
    and "pool_ok st leases" "ps_allocated_bytes st' = ps_allocated_bytes st"
    and "ps_capacity_bytes st' = ps_capacity_bytes st"
    and "\<forall>l\<in>set leases'. bl_pointer l \<noteq> None \<and> 0 < bl_size l \<and> bl_size l \<le> bl_capacity l"
  shows "pool_ok st' leases'"
proof -
  have "sum_list (map snd (live_blocks st' leases')) = sum_list (map snd (live_blocks st leases))"
    using assms(1) by (metis mset_map sum_mset_sum_list)
  moreover have "distinct (map fst (live_blocks st' leases')) = distinct (map fst (live_blocks st leases))"
    using assms(1) by (metis mset_map mset_eq_imp_distinct_iff)
  ultimately show ?thesis
    using assms by (simp add: pool_ok_def)
qed

lemma pool_ok_acquire:
  assumes ok: "pool_ok st leases" and acq: "acquire allocate bytes st = (Inr lease, st')"
    and fresh: "\<And>p. allocate bytes = Inr p \<Longrightarrow> p \<notin> fst ` set (live_blocks st leases)"
  shows "pool_ok st' (lease # leases)"
proof (cases "best_fit bytes (ps_free_blocks st) 0 None")
  case (Some i)
  note fit = best_fit_Some [OF Some]
  from acq Some have "0 < bytes" by (auto simp: acquire_def split: if_splits)
  moreover from acq Some fit have
    "st' = st\<lparr>ps_free_blocks := take i (ps_free_blocks st) @ drop (Suc i) (ps_free_blocks st)\<rparr>"
    "lease = \<lparr>bl_pointer = Some (fb_pointer (ps_free_blocks st ! i)), bl_size = bytes,
       bl_capacity = fb_capacity (ps_free_blocks st ! i)\<rparr>"
    by (auto simp: acquire_def Let_def split: if_splits)
  ultimately show ?thesis
    using pool_ok_mset [OF live_blocks_remove [of i st leases bytes] ok] fit ok
    by (simp add: pool_ok_def)
next
  case None
  from acq None obtain p where p: "allocate bytes = Inr p" "0 < bytes"
    and room: "bytes \<le> ps_capacity_bytes st - min (ps_allocated_bytes st) (ps_capacity_bytes st)"
    and st': "st' = st\<lparr>ps_allocated_bytes := ps_allocated_bytes st + bytes\<rparr>"
    and lease: "lease = \<lparr>bl_pointer = Some p, bl_size = bytes, bl_capacity = bytes\<rparr>"
    by (auto simp: acquire_def not_less split: if_splits sum.splits)
  have "p \<notin> fb_pointer ` set (ps_free_blocks st)" "p \<notin> (\<lambda>l. the (bl_pointer l)) ` set leases"
    using fresh [OF p(1)] by (simp_all add: live_blocks_def image_Un image_image)
  then show ?thesis
    using ok room p(2)
    by (auto simp: pool_ok_def st' lease live_blocks_def)
qed

lemma pool_ok_release:
  assumes ok: "pool_ok st (before @ lease # after)" and rel: "release can_push lease st = (lease', st')"
  shows "pool_ok st' (before @ after)"
proof -
  from ok obtain p where p: "bl_pointer lease = Some p" by (auto simp: pool_ok_def)
  show ?thesis
  proof (cases can_push)
    case True
    have "mset (live_blocks st (before @ lease # after)) = mset (live_blocks st' (before @ after))"
      using rel p True by (auto simp: release_def return_block_def live_blocks_def)
    then show ?thesis
      by (rule pool_ok_mset)
         (use ok rel p True in \<open>auto simp: pool_ok_def release_def return_block_def\<close>)
  next
    case False
    then show ?thesis
      using ok rel p
      by (clarsimp simp: pool_ok_def release_def return_block_def live_blocks_def Int_Un_distrib)
         linarith
  qed
qed

lemma pool_ok_step: "pool_step (st, leases) (st', leases') \<Longrightarrow> pool_ok st leases \<Longrightarrow> pool_ok st' leases'"
  by (erule pool_stepE) (auto intro: pool_ok_acquire pool_ok_release dest: acquire_refused)

lemma step_capacity: "pool_step (st, leases) (st', leases') \<Longrightarrow> ps_capacity_bytes st' = ps_capacity_bytes st"
  by (erule pool_stepE)
     (auto simp: acquire_def release_def return_block_def Let_def
        split: if_splits option.splits sum.splits)

text \<open>
  Property C30. In every state a pool can reach, with any leases outstanding, no two buffers that
  are free or leased overlap in identity, what the pool accounts for is the sum of their
  capacities and never exceeds the configured capacity, and every lease is backed by a block at
  least as large as it asked for.
\<close>

theorem pool_invariant:
  assumes "pool_reachable capacity (st, leases)"
  shows "pool_ok st leases \<and> ps_capacity_bytes st = capacity
     \<and> available_bytes st = capacity - sum_list (map snd (live_blocks st leases))"
proof -
  have "pool_ok (fst s) (snd s) \<and> ps_capacity_bytes (fst s) = capacity"
    if "pool_reachable capacity s" for s
    using that
  proof induction
    case pool_start
    then show ?case by (simp add: pool_ok_def make_pool_def live_blocks_def)
  next
    case (pool_next s s')
    then show ?case
      using pool_ok_step [of "fst s" "snd s" "fst s'" "snd s'"]
        step_capacity [of "fst s" "snd s" "fst s'" "snd s'"]
      by simp
  qed
  from this [OF assms] show ?thesis
    by (simp add: available_bytes_def pool_ok_def)
qed

lemma pool_sample_reachable:
  "pool_reachable 100 (make_pool 100\<lparr>ps_allocated_bytes := 64\<rparr>,
     [\<lparr>bl_pointer = Some 7, bl_size = 64, bl_capacity = 64\<rparr>])"
  by (rule pool_next [OF pool_start], rule step_acquire [of "\<lambda>_. Inr 7" 64])
     (simp_all add: acquire_def make_pool_def live_blocks_def)

theorem pool_invariant_witness:
  "pool_ok (make_pool 100\<lparr>ps_allocated_bytes := 64\<rparr>)
     [\<lparr>bl_pointer = Some 7, bl_size = 64, bl_capacity = 64\<rparr>]"
  using pool_invariant [OF pool_sample_reachable] by blast

text \<open>
  \<open>acquire\<close> reuses: when some free block is large enough it returns one of the
  smallest such blocks and asks the resource for nothing; otherwise it refuses exactly when the
  request does not fit into what is left of the capacity or the resource refuses.
\<close>

lemma acquire_best_fit:
  assumes "0 < bytes"
  shows "if \<exists>b\<in>set (ps_free_blocks st). bytes \<le> fb_capacity b then
       \<exists>b lease st'. acquire allocate bytes st = (Inr lease, st') \<and> b \<in> set (ps_free_blocks st)
         \<and> bl_pointer lease = Some (fb_pointer b) \<and> bl_capacity lease = fb_capacity b
         \<and> bl_size lease = bytes \<and> ps_allocated_bytes st' = ps_allocated_bytes st
         \<and> bytes \<le> fb_capacity b
         \<and> (\<forall>b'\<in>set (ps_free_blocks st). bytes \<le> fb_capacity b' \<longrightarrow> fb_capacity b \<le> fb_capacity b')
     else has_value (fst (acquire allocate bytes st)) =
       (bytes \<le> available_bytes st \<and> has_value (allocate bytes))"
proof (cases "best_fit bytes (ps_free_blocks st) 0 None")
  case (Some i)
  note fit = best_fit_Some [OF Some]
  have mem: "ps_free_blocks st ! i \<in> set (ps_free_blocks st)" using fit by simp
  then have ex: "\<exists>b\<in>set (ps_free_blocks st). bytes \<le> fb_capacity b" using fit by blast
  show ?thesis
    unfolding if_P [OF ex]
    by (rule exI [of _ "ps_free_blocks st ! i"])
       (use assms Some fit mem in \<open>simp add: acquire_def Let_def\<close>)
next
  case None
  have "\<not> (\<exists>b\<in>set (ps_free_blocks st). bytes \<le> fb_capacity b)"
    using best_fit_None [OF None] by (auto simp: not_le)
  then show ?thesis
    using assms None
    by (auto simp: acquire_def available_bytes_def has_value_def not_less split: sum.splits)
qed

lemma acquire_best_fit_witness:
  "\<exists>lease st'. acquire (\<lambda>_. Inl (memory_error resource_exhausted []))
       10 (make_pool 100\<lparr>ps_allocated_bytes := 96, ps_free_blocks :=
         [\<lparr>fb_pointer = 1, fb_capacity = 64\<rparr>, \<lparr>fb_pointer = 2, fb_capacity = 32\<rparr>]\<rparr>) = (Inr lease, st')
     \<and> bl_size lease = 10"
  using acquire_best_fit [of 10 "make_pool 100\<lparr>ps_allocated_bytes := 96, ps_free_blocks :=
         [\<lparr>fb_pointer = 1, fb_capacity = 64\<rparr>, \<lparr>fb_pointer = 2, fb_capacity = 32\<rparr>]\<rparr>"
      "\<lambda>_. Inl (memory_error resource_exhausted [])"]
  by auto

end
