(* ===== verification/DcvcrtPayload.thy ===== *)
theory DcvcrtPayload
  imports ByteIO
begin

text \<open>
  \<^verbatim>\<open>src/dcvcrt/payload.cpp\<close>, \<^verbatim>\<open>src/dcvcrt/payload.hpp\<close>: the headers in front of the entropy-coded
  bytes of DCVC-RT intra and predicted frames, \<open>NVI1\<close> and \<open>NVP1\<close>.
\<close>

subsection \<open>Model\<close>

record intra_payload =
  ip_width :: u32
  ip_height :: u32
  ip_qp :: u32
  ip_two_coders :: bool
  ip_rans :: "byte list"

record predicted_payload =
  pp_width :: u32
  pp_height :: u32
  pp_qp :: u32
  pp_two_coders :: bool
  pp_use_frame_reference :: bool
  pp_rans :: "byte list"

definition payload_error :: "string \<Rightarrow> error" where
  "payload_error msg = Error malformed_bitstream msg ''dcvcrt.payload''"

definition image_qp_count :: u32 where "image_qp_count = 64"
definition video_qp_count :: u32 where "video_qp_count = 72"

definition supported_payload_dimensions :: "u32 \<Rightarrow> u32 \<Rightarrow> bool" where
  "supported_payload_dimensions width height \<longleftrightarrow>
     width \<ge> 64 \<and> height \<ge> 64 \<and> width \<le> 1920 \<and> height \<le> 1080
     \<and> width AND 1 = 0 \<and> height AND 1 = 0"

definition append_u32 :: "byte list \<Rightarrow> u32 \<Rightarrow> byte list" where
  "append_u32 output value =
     fold (\<lambda>shift out. out @ [ucast (drop_bit shift value AND 0xff)]) [0, 8, 16, 24] output"

definition payload_read_u32 :: "byte list \<Rightarrow> nat \<Rightarrow> (u32 \<times> nat) result" where
  "payload_read_u32 input offset =
     (if offset > length input \<or> length input - offset < 4 then
        Inl (payload_error ''truncated DCVC-RT payload header'')
      else
        Inr (fold (\<lambda>index value. value OR push_bit (index * 8) (ucast (input ! (offset + index))))
               [0, 1, 2, 3] 0, offset + 4))"

definition intra_magic :: "byte list" where "intra_magic = [0x4e, 0x56, 0x49, 0x31]"
definition predicted_magic :: "byte list" where "predicted_magic = [0x4e, 0x56, 0x50, 0x31]"

definition make_intra_payload :: "u32 \<Rightarrow> u32 \<Rightarrow> u32 \<Rightarrow> bool \<Rightarrow> byte list \<Rightarrow> byte list" where
  "make_intra_payload width height qp two_coders rans =
     (let output = intra_magic;
          output = append_u32 output width;
          output = append_u32 output height;
          output = append_u32 output qp;
          output = append_u32 output (if two_coders then 1 else 0)
      in output @ rans)"

definition parse_intra_payload :: "byte list \<Rightarrow> intra_payload result" where
  "parse_intra_payload payload =
     (if length payload < 24 \<or> take 4 payload \<noteq> intra_magic then
        Inl (payload_error ''invalid NVCR I-frame payload'')
      else
        res_bind (payload_read_u32 payload 4) (\<lambda>(width, offset).
        res_bind (payload_read_u32 payload offset) (\<lambda>(height, offset).
        res_bind (payload_read_u32 payload offset) (\<lambda>(qp, offset).
        res_bind (payload_read_u32 payload offset) (\<lambda>(flags, offset).
        if \<not> supported_payload_dimensions width height \<or> qp \<ge> image_qp_count \<or> flags > 1 then
          Inl (payload_error ''invalid NVCR I-frame fields'')
        else Inr \<lparr>ip_width = width, ip_height = height, ip_qp = qp, ip_two_coders = (flags = 1),
                  ip_rans = drop offset payload\<rparr>)))))"

definition make_predicted_payload ::
  "u32 \<Rightarrow> u32 \<Rightarrow> u32 \<Rightarrow> bool \<Rightarrow> bool \<Rightarrow> byte list \<Rightarrow> byte list" where
  "make_predicted_payload width height qp two_coders use_frame_reference rans =
     (let output = predicted_magic;
          output = append_u32 output width;
          output = append_u32 output height;
          output = append_u32 output qp;
          output = append_u32 output
            ((if two_coders then 1 else 0) OR (if use_frame_reference then 2 else 0))
      in output @ rans)"

definition parse_predicted_payload :: "byte list \<Rightarrow> predicted_payload result" where
  "parse_predicted_payload payload =
     (if length payload < 24 \<or> take 4 payload \<noteq> predicted_magic then
        Inl (payload_error ''invalid NVCR P-frame payload'')
      else
        res_bind (payload_read_u32 payload 4) (\<lambda>(width, offset).
        res_bind (payload_read_u32 payload offset) (\<lambda>(height, offset).
        res_bind (payload_read_u32 payload offset) (\<lambda>(qp, offset).
        res_bind (payload_read_u32 payload offset) (\<lambda>(flags, offset).
        if \<not> supported_payload_dimensions width height \<or> qp \<ge> video_qp_count \<or> flags > 3 then
          Inl (payload_error ''invalid NVCR P-frame fields'')
        else Inr \<lparr>pp_width = width, pp_height = height, pp_qp = qp,
                  pp_two_coders = (flags AND 1 \<noteq> 0), pp_use_frame_reference = (flags AND 2 \<noteq> 0),
                  pp_rans = drop offset payload\<rparr>)))))"

subsection \<open>Layout\<close>

lemma append_u32_le: "append_u32 out v = out @ le32 v"
proof -
  have "append_u32 [] v = le32 v"
    by (simp add: append_u32_def ucast_and_ff eval_nat_numeral)
  moreover have "append_u32 out v = out @ append_u32 [] v" by (simp add: append_u32_def)
  ultimately show ?thesis by simp
qed

lemma payload_read_u32_at:
  "payload_read_u32 (pre @ post) (length pre) =
     (if length post < 4 then Inl (payload_error ''truncated DCVC-RT payload header'')
      else Inr (le_value (take 4 post), length pre + 4))"
proof (cases "length post < 4")
  case True
  then show ?thesis by (simp add: payload_read_u32_def)
next
  case False
  then have len: "length (take 4 post) = 4" by simp
  have "(pre @ post) ! (length pre + i) = take 4 post ! i" if "i < 4" for i
    using that by (simp add: nth_append)
  then show ?thesis
    using False le_value_4 [OF len] by (simp add: payload_read_u32_def)
qed

lemma payload_read_u32_le:
  "payload_read_u32 (pre @ le32 v @ post) (length pre) = Inr (v, length pre + 4)"
  by (simp add: payload_read_u32_at le_value_bytes_full)

definition header_layout :: "byte list \<Rightarrow> u32 \<Rightarrow> u32 \<Rightarrow> u32 \<Rightarrow> u32 \<Rightarrow> byte list \<Rightarrow> byte list" where
  "header_layout magic a b c d rest = magic @ le32 a @ le32 b @ le32 c @ le32 d @ rest"

lemma header_layout_reads:
  assumes "length magic = 4"
  shows "payload_read_u32 (header_layout magic a b c d rest) 4 = Inr (a, 8)"
    "payload_read_u32 (header_layout magic a b c d rest) 8 = Inr (b, 12)"
    "payload_read_u32 (header_layout magic a b c d rest) 12 = Inr (c, 16)"
    "payload_read_u32 (header_layout magic a b c d rest) 16 = Inr (d, 20)"
    "drop 20 (header_layout magic a b c d rest) = rest"
    "take 4 (header_layout magic a b c d rest) = magic"
    "length (header_layout magic a b c d rest) = 20 + length rest"
  using assms payload_read_u32_le [of magic a "le32 b @ le32 c @ le32 d @ rest"]
    payload_read_u32_le [of "magic @ le32 a" b "le32 c @ le32 d @ rest"]
    payload_read_u32_le [of "magic @ le32 a @ le32 b" c "le32 d @ rest"]
    payload_read_u32_le [of "magic @ le32 a @ le32 b @ le32 c" d rest]
  by (simp_all add: header_layout_def)

lemma header_layout_exists:
  assumes "length payload \<ge> 20" "take 4 payload = magic" "length magic = 4"
  shows "\<exists>a b c d rest. payload = header_layout magic a b c d rest"
proof -
  have step: "\<exists>v rest. bs = le32 v @ rest \<and> length rest = length bs - 4" if "4 \<le> length bs" for bs
  proof -
    from f32.enc_surj [of "take 4 bs"] that obtain v where "take 4 bs = le32 v" by auto
    then have "bs = le32 v @ drop 4 bs" by (metis append_take_drop_id)
    then show ?thesis by (metis length_drop)
  qed
  have l1: "4 \<le> length (drop 4 payload)" using assms(1) by simp
  obtain a r1 where r1: "drop 4 payload = le32 a @ r1" "length r1 = length payload - 8"
    using step [OF l1] by auto
  then have l2: "4 \<le> length r1" using assms(1) by simp
  obtain b r2 where r2: "r1 = le32 b @ r2" "length r2 = length payload - 12"
    using step [OF l2] r1 by auto
  then have l3: "4 \<le> length r2" using assms(1) by simp
  obtain c r3 where r3: "r2 = le32 c @ r3" "length r3 = length payload - 16"
    using step [OF l3] r2 by auto
  then have l4: "4 \<le> length r3" using assms(1) by simp
  obtain d r4 where "r3 = le32 d @ r4"
    using step [OF l4] by auto
  with r1 r2 r3 have "drop 4 payload = le32 a @ le32 b @ le32 c @ le32 d @ r4" by simp
  moreover have "payload = magic @ drop 4 payload"
    using assms(2) append_take_drop_id [of 4 payload] by simp
  ultimately have "payload = header_layout magic a b c d r4"
    by (simp add: header_layout_def)
  then show ?thesis by blast
qed

lemma make_intra_layout:
  "make_intra_payload w h q tc rans =
     header_layout intra_magic w h q (if tc then 1 else 0) rans"
  by (simp add: make_intra_payload_def append_u32_le header_layout_def)

lemma make_predicted_layout:
  "make_predicted_payload w h q tc ref rans =
     header_layout predicted_magic w h q ((if tc then 1 else 0) OR (if ref then 2 else 0)) rans"
  by (simp add: make_predicted_payload_def append_u32_le header_layout_def)

lemma length_payload_magic [simp]: "length intra_magic = 4" "length predicted_magic = 4"
  by (simp_all add: intra_magic_def predicted_magic_def)

lemma parse_intra_layout:
  "parse_intra_payload (header_layout intra_magic w h q f rans) =
     (if length rans < 4 then Inl (payload_error ''invalid NVCR I-frame payload'')
      else if \<not> supported_payload_dimensions w h \<or> q \<ge> image_qp_count \<or> f > 1 then
        Inl (payload_error ''invalid NVCR I-frame fields'')
      else Inr \<lparr>ip_width = w, ip_height = h, ip_qp = q, ip_two_coders = (f = 1), ip_rans = rans\<rparr>)"
  by (simp add: parse_intra_payload_def header_layout_reads)

lemma parse_predicted_layout:
  "parse_predicted_payload (header_layout predicted_magic w h q f rans) =
     (if length rans < 4 then Inl (payload_error ''invalid NVCR P-frame payload'')
      else if \<not> supported_payload_dimensions w h \<or> q \<ge> video_qp_count \<or> f > 3 then
        Inl (payload_error ''invalid NVCR P-frame fields'')
      else Inr \<lparr>pp_width = w, pp_height = h, pp_qp = q, pp_two_coders = (f AND 1 \<noteq> 0),
        pp_use_frame_reference = (f AND 2 \<noteq> 0), pp_rans = rans\<rparr>)"
  by (simp add: parse_predicted_payload_def header_layout_reads)

lemma small_flags:
  "(f :: u32) \<le> 1 \<longleftrightarrow> f = 0 \<or> f = 1"
  "(f :: u32) \<le> 3 \<longleftrightarrow> f = 0 \<or> f = 1 \<or> f = 2 \<or> f = 3"
  by (auto simp: word_le_nat_alt word_unat_eq_iff)

text \<open>
  \<open>parse_intra_payload\<close> accepts exactly the payloads \<open>make_intra_payload\<close>
  builds from supported dimensions (even, 64x64 to 1920x1080), an image QP below 64 and at least
  four bytes of entropy-coded data, and returns the fields they were built from.
\<close>

lemma intra_payload_codec:
  "parse_intra_payload payload = Inr r \<longleftrightarrow>
     payload = make_intra_payload (ip_width r) (ip_height r) (ip_qp r) (ip_two_coders r) (ip_rans r)
     \<and> supported_payload_dimensions (ip_width r) (ip_height r) \<and> ip_qp r < 64
     \<and> 4 \<le> length (ip_rans r)"
  (is "?L \<longleftrightarrow> ?R")
proof
  assume L: ?L
  then have "length payload \<ge> 24" "take 4 payload = intra_magic"
    by (auto simp: parse_intra_payload_def split: if_splits)
  then obtain a b c d rest where "payload = header_layout intra_magic a b c d rest"
    using header_layout_exists [of payload intra_magic] by auto
  with L show ?R
    by (auto simp: parse_intra_layout make_intra_layout image_qp_count_def small_flags not_less not_le
          split: if_splits)
next
  assume ?R
  then show ?L
    by (subst conjunct1 [OF \<open>?R\<close>])
       (simp add: make_intra_layout parse_intra_layout image_qp_count_def not_less not_le)
qed

text \<open>
  The same for predicted frames: \<open>parse_predicted_payload\<close> accepts exactly what
  \<open>make_predicted_payload\<close> builds from supported dimensions, a video QP below 72 and at least
  four bytes of entropy-coded data, both flags included.
\<close>

lemma predicted_payload_codec:
  "parse_predicted_payload payload = Inr r \<longleftrightarrow>
     payload = make_predicted_payload (pp_width r) (pp_height r) (pp_qp r) (pp_two_coders r)
       (pp_use_frame_reference r) (pp_rans r)
     \<and> supported_payload_dimensions (pp_width r) (pp_height r) \<and> pp_qp r < 72
     \<and> 4 \<le> length (pp_rans r)"
  (is "?L \<longleftrightarrow> ?R")
proof
  assume L: ?L
  then have "length payload \<ge> 24" "take 4 payload = predicted_magic"
    by (auto simp: parse_predicted_payload_def split: if_splits)
  then obtain a b c d rest where "payload = header_layout predicted_magic a b c d rest"
    using header_layout_exists [of payload predicted_magic] by auto
  with L show ?R
    by (auto simp: parse_predicted_layout make_predicted_layout video_qp_count_def small_flags
          not_less not_le split: if_splits)
next
  assume ?R
  then show ?L
    by (subst conjunct1 [OF \<open>?R\<close>])
       (auto simp: make_predicted_layout parse_predicted_layout video_qp_count_def not_less not_le)
qed

end
