(* ===== verification/FloatBits.thy ===== *)
theory FloatBits
  imports Prelude Complex_Main "HOL-Library.Log_Nat"
begin

text \<open>
  IEEE 754 single precision as the C++ sources use it: a \<open>float\<close> is its sign and its 31 magnitude
  bits. A finite magnitude is a whole number of units of \<open>2 ^ -149\<close>, so that sums, products and
  quotients are exact rationals, rounded to nearest, ties to even, by one function. Only the payload
  of a NaN, which nothing reads, is left out: every operation returns the same one.
\<close>

subsection \<open>Magnitudes and rounding\<close>

type_synonym f32 = "bool \<times> nat"

definition inf_mag :: nat where "inf_mag = 255 * 2 ^ 23"

definition mag_units :: "nat \<Rightarrow> nat" where
  "mag_units m =
     (let e = m div 2 ^ 23; f = m mod 2 ^ 23 in if e = 0 then f else (2 ^ 23 + f) * 2 ^ (e - 1))"

definition unit_scale :: nat where "unit_scale = 2 ^ 149"

definition round_half_even :: "nat \<Rightarrow> nat \<Rightarrow> nat" where
  "round_half_even n d =
     (let q = n div d; r = n mod d in if 2 * r > d \<or> 2 * r = d \<and> odd q then q + 1 else q)"

text \<open>The magnitude nearest to \<open>n / d\<close> units; a carry out of the mantissa moves the exponent up.\<close>

definition round_shift :: "nat \<Rightarrow> nat \<Rightarrow> nat" where
  "round_shift n d = floorlog 2 (n div d) - 24"

definition round_mag :: "nat \<Rightarrow> nat \<Rightarrow> nat" where
  "round_mag n d =
     (let k = round_shift n d in min (k * 2 ^ 23 + round_half_even n (d * 2 ^ k)) inf_mag)"

subsection \<open>Operations\<close>

definition f32_nan :: f32 where "f32_nan = (False, 0x7fc00000)"

definition is_nan :: "f32 \<Rightarrow> bool" where "is_nan x \<longleftrightarrow> snd x > inf_mag"
definition is_inf :: "f32 \<Rightarrow> bool" where "is_inf x \<longleftrightarrow> snd x = inf_mag"
definition is_finite :: "f32 \<Rightarrow> bool" where "is_finite x \<longleftrightarrow> snd x < inf_mag"

definition f32_bits :: "f32 \<Rightarrow> u32" where
  "f32_bits x = word_of_nat (snd x + (if fst x then 2 ^ 31 else 0))"

definition bits_f32 :: "u32 \<Rightarrow> f32" where
  "bits_f32 w = (2 ^ 31 \<le> unat w, unat w mod 2 ^ 31)"

definition signed_units :: "f32 \<Rightarrow> int" where
  "signed_units x = (if fst x then - int (mag_units (snd x)) else int (mag_units (snd x)))"

definition f32_add :: "f32 \<Rightarrow> f32 \<Rightarrow> f32" where
  "f32_add x y =
     (if is_nan x \<or> is_nan y then f32_nan
      else if is_inf x then (if is_inf y \<and> fst x \<noteq> fst y then f32_nan else x)
      else if is_inf y then y
      else let v = signed_units x + signed_units y in
        if v = 0 then (fst x \<and> fst y, 0) else (v < 0, round_mag (nat \<bar>v\<bar>) 1))"

definition f32_mul :: "f32 \<Rightarrow> f32 \<Rightarrow> f32" where
  "f32_mul x y =
     (let s = (fst x \<noteq> fst y) in
      if is_nan x \<or> is_nan y then f32_nan
      else if is_inf x \<or> is_inf y then
        (if snd x = 0 \<or> snd y = 0 then f32_nan else (s, inf_mag))
      else (s, round_mag (mag_units (snd x) * mag_units (snd y)) unit_scale))"

definition f32_div :: "f32 \<Rightarrow> f32 \<Rightarrow> f32" where
  "f32_div x y =
     (let s = (fst x \<noteq> fst y) in
      if is_nan x \<or> is_nan y \<or> is_inf x \<and> is_inf y \<or> snd x = 0 \<and> snd y = 0 then f32_nan
      else if is_inf x \<or> snd y = 0 then (s, inf_mag)
      else if is_inf y then (s, 0)
      else (s, round_mag (mag_units (snd x) * unit_scale) (mag_units (snd y))))"

definition f32_less :: "f32 \<Rightarrow> f32 \<Rightarrow> bool" where
  "f32_less x y \<longleftrightarrow> \<not> is_nan x \<and> \<not> is_nan y
     \<and> (if fst x then - int (snd x) else int (snd x)) < (if fst y then - int (snd y) else int (snd y))"

definition f32_abs :: "f32 \<Rightarrow> f32" where "f32_abs x = (False, snd x)"

definition f32_clamp :: "f32 \<Rightarrow> f32 \<Rightarrow> f32 \<Rightarrow> f32" where
  "f32_clamp v lo hi = (if f32_less v lo then lo else if f32_less hi v then hi else v)"

definition f32_nearbyint :: "f32 \<Rightarrow> f32" where
  "f32_nearbyint x =
     (if is_finite x then (fst x, round_mag (round_half_even (mag_units (snd x)) unit_scale * unit_scale) 1)
      else x)"

definition f32_of_int :: "int \<Rightarrow> f32" where
  "f32_of_int i = (i < 0, round_mag (nat \<bar>i\<bar> * unit_scale) 1)"

text \<open>Conversion to an integer truncates; it is defined for finite values in the target's range.\<close>

definition f32_trunc :: "f32 \<Rightarrow> int" where
  "f32_trunc x = (let n = int (mag_units (snd x) div unit_scale) in if fst x then - n else n)"

subsection \<open>Exactness and error of rounding\<close>

lemma round_half_even_exact: "0 < d \<Longrightarrow> round_half_even (m * d) d = m"
  by (simp add: round_half_even_def Let_def)

lemma round_half_even_error:
  assumes "0 < d"
  shows "2 * n \<le> 2 * d * round_half_even n d + d" "2 * d * round_half_even n d \<le> 2 * n + d"
proof -
  define a r where "a = d * (n div d)" and "r = n mod d"
  have n: "n = a + r" "r < d" "2 * d * (n div d) = 2 * a" "2 * d * (n div d + 1) = 2 * a + 2 * d"
    using assms by (simp_all add: a_def r_def algebra_simps)
  have "2 * n \<le> 2 * d * round_half_even n d + d \<and> 2 * d * round_half_even n d \<le> 2 * n + d"
    unfolding round_half_even_def Let_def r_def [symmetric] using n by auto
  then show "2 * n \<le> 2 * d * round_half_even n d + d" "2 * d * round_half_even n d \<le> 2 * n + d" by simp_all
qed

lemma round_shift_bound:
  assumes "0 < d"
  shows "n < d * 2 ^ (24 + round_shift n d)" "round_shift n d = 0 \<or> d * 2 ^ (23 + round_shift n d) \<le> n"
proof -
  let ?q = "n div d" and ?k = "round_shift n d"
  have "?q < 2 ^ (24 + ?k)"
  proof (cases "?q = 0")
    case False
    then have "?q < 2 ^ floorlog 2 ?q" using floorlog_bounds [of ?q 2] by simp
    also have "\<dots> \<le> 2 ^ (24 + ?k)" by (simp add: round_shift_def)
    finally show ?thesis .
  qed simp
  then show "n < d * 2 ^ (24 + ?k)" using assms by (simp add: div_less_iff_less_mult mult.commute)
  show "?k = 0 \<or> d * 2 ^ (23 + ?k) \<le> n"
  proof (cases "?k = 0")
    case False
    then have "floorlog 2 ?q - 1 = 23 + ?k" by (simp add: round_shift_def)
    moreover have "?q \<noteq> 0" using False by (metis diff_0_eq_0 floorlog_eq_zero_iff le_zero_eq round_shift_def)
    ultimately have "2 ^ (23 + ?k) \<le> ?q" using floorlog_bounds [of ?q 2] by simp
    then show ?thesis using assms by (simp add: less_eq_div_iff_mult_less_eq mult.commute)
  qed simp
qed

lemma mag_units_rounded:
  assumes "m \<le> 2 ^ 24" "k = 0 \<or> 2 ^ 23 \<le> m"
  shows "mag_units (k * 2 ^ 23 + m) = m * 2 ^ k"
proof -
  consider "m < 2 ^ 23" "k = 0" | f where "m = 2 ^ 23 + f" "f < 2 ^ 23" | "m = 2 ^ 24"
  proof -
    have "m < 2 ^ 23 \<or> (\<exists>f. m = 2 ^ 23 + f \<and> f < 2 ^ 23) \<or> m = 2 ^ 24"
      using assms(1) by (cases "m < 2 ^ 23") (auto intro!: exI [of _ "m - 2 ^ 23"])
    then show thesis using that assms(2) by (metis not_le)
  qed
  then show ?thesis
  proof cases
    case (2 f)
    have "(k * 2 ^ 23 + m) div 2 ^ 23 = Suc k" "(k * 2 ^ 23 + m) mod 2 ^ 23 = f"
      using 2 by (simp_all add: div_add1_eq mod_add_eq)
    then show ?thesis using 2 by (simp add: mag_units_def)
  next
    case 3
    have "k * 2 ^ 23 + m = (k + 2) * 2 ^ 23" using 3 by simp
    then have "(k * 2 ^ 23 + m) div 2 ^ 23 = k + 2" "(k * 2 ^ 23 + m) mod 2 ^ 23 = 0" by simp_all
    then show ?thesis using 3 by (simp add: mag_units_def)
  qed (simp add: mag_units_def)
qed

lemma round_mantissa_le:
  assumes "0 < d"
  shows "round_half_even n (d * 2 ^ round_shift n d) \<le> 2 ^ 24"
proof -
  let ?D = "d * 2 ^ round_shift n d"
  let ?m = "round_half_even n ?D"
  have d: "0 < ?D" using assms by simp
  have "n < ?D * 2 ^ 24" using round_shift_bound(1) [OF assms, of n] by (simp add: power_add ac_simps)
  then have "2 * ?D * ?m < 2 * ?D * 2 ^ 24 + ?D" using round_half_even_error(2) [OF d, of n] by linarith
  also have "\<dots> \<le> 2 * ?D * (2 ^ 24 + 1)" by simp
  finally have "?m < 2 ^ 24 + 1" using d by (simp only: mult_less_cancel1)
  then show ?thesis by simp
qed

lemma round_mag_units:
  assumes "0 < d" "round_mag n d < inf_mag"
  shows "mag_units (round_mag n d) = round_half_even n (d * 2 ^ round_shift n d) * 2 ^ round_shift n d"
proof -
  let ?k = "round_shift n d"
  let ?m = "round_half_even n (d * 2 ^ ?k)"
  have d: "0 < d * 2 ^ ?k" using assms(1) by simp
  note b = round_shift_bound [OF assms(1), of n] and e = round_half_even_error [OF d, of n]
  have "?m \<le> 2 ^ 24" by (rule round_mantissa_le [OF assms(1)])
  moreover have "?k = 0 \<or> 2 ^ 23 \<le> ?m"
  proof (cases "?k = 0")
    case False
    then have "2 * (d * 2 ^ ?k) * 2 ^ 23 \<le> 2 * n" using b(2) by (simp add: power_add algebra_simps)
    then have "2 * (d * 2 ^ ?k) * 2 ^ 23 \<le> 2 * (d * 2 ^ ?k) * ?m + d * 2 ^ ?k" using e(1) by linarith
    also have "\<dots> < 2 * (d * 2 ^ ?k) * (?m + 1)" using d by (simp add: algebra_simps)
    finally have "2 ^ 23 < ?m + 1" using d by (simp only: mult_less_cancel1)
    then show ?thesis by simp
  qed simp
  ultimately have "mag_units (?k * 2 ^ 23 + ?m) = ?m * 2 ^ ?k" by (intro mag_units_rounded) simp_all
  moreover have "round_mag n d = ?k * 2 ^ 23 + ?m" using assms(2) by (simp add: round_mag_def Let_def)
  ultimately show ?thesis by simp
qed

lemma round_mag_error:
  assumes "0 < d" "round_mag n d < inf_mag"
  shows "\<bar>real (mag_units (round_mag n d)) - n / d\<bar> \<le> max (1 / 2) (n / d / 2 ^ 24)"
proof -
  let ?k = "round_shift n d"
  let ?m = "round_half_even n (d * 2 ^ ?k)"
  have d: "0 < d * 2 ^ ?k" "0 < real d" using assms(1) by simp_all
  have "real (2 * n) \<le> real (2 * (d * 2 ^ ?k) * ?m + d * 2 ^ ?k)"
    "real (2 * (d * 2 ^ ?k) * ?m) \<le> real (2 * n + d * 2 ^ ?k)"
    using round_half_even_error [OF d(1), of n] by (simp_all only: of_nat_le_iff)
  then have "\<bar>real d * 2 ^ ?k * ?m - n\<bar> \<le> real d * 2 ^ ?k / 2"
    unfolding abs_le_iff of_nat_add of_nat_mult of_nat_power of_nat_numeral by (auto simp: algebra_simps)
  moreover have "real (?m * 2 ^ ?k) - n / d = (real d * 2 ^ ?k * ?m - n) / d" using d(2) by (simp add: field_simps)
  ultimately have "\<bar>real (?m * 2 ^ ?k) - n / d\<bar> \<le> 2 ^ ?k / 2"
    using d(2) by (simp add: abs_divide pos_divide_le_eq mult.commute)
  moreover have "2 ^ ?k / 2 \<le> max (1 / 2) (real n / d / 2 ^ 24)"
  proof (cases "?k = 0")
    case False
    then have "d * 2 ^ (23 + ?k) \<le> n" using round_shift_bound(2) [OF assms(1), of n] by simp
    then have "real (d * 2 ^ (23 + ?k)) \<le> real n" by (simp only: of_nat_le_iff)
    then have "2 ^ ?k / 2 \<le> real n / d / 2 ^ 24" using d(2) by (simp add: power_add field_simps)
    then show ?thesis by simp
  qed simp
  ultimately show ?thesis unfolding round_mag_units [OF assms] by linarith
qed

lemma round_mag_exact:
  assumes "m < inf_mag" "0 < d"
  shows "round_mag (mag_units m * d) d = m"
proof (cases "m < 2 ^ 23")
  case True
  then have u: "mag_units m = m" by (simp add: mag_units_def)
  have "floorlog 2 m \<le> 24" using True by (intro floorlog_leI) simp_all
  then have "round_shift (m * d) d = 0" using assms(2) by (simp add: round_shift_def)
  then show ?thesis using assms by (simp add: u round_mag_def Let_def round_half_even_exact)
next
  case False
  define e f where "e = m div 2 ^ 23" and "f = m mod 2 ^ 23"
  have m: "m = e * 2 ^ 23 + f" "f < 2 ^ 23" "0 < e" using False by (simp_all add: e_def f_def div_greater_zero_iff)
  have u: "mag_units m = (2 ^ 23 + f) * 2 ^ (e - 1)" using m(3) by (simp add: mag_units_def e_def f_def)
  have fl: "floorlog 2 (2 ^ 23 + f) = 24"
    using m(2) by (intro antisym floorlog_leI floorlog_geI) simp_all
  have "floorlog 2 (mag_units m) = 24 + (e - 1)" unfolding u using floorlog_power [of "2 ^ 23 + f" 2 "e - 1"] fl
    by simp
  then have k: "round_shift (mag_units m * d) d = e - 1" using assms(2) by (simp add: round_shift_def)
  have "round_half_even ((2 ^ 23 + f) * 2 ^ (e - 1) * d) (d * 2 ^ (e - 1)) = 2 ^ 23 + f"
    using round_half_even_exact [of "d * 2 ^ (e - 1)" "2 ^ 23 + f"] assms(2) by (simp add: ac_simps)
  then have "round_mag (mag_units m * d) d = min ((e - 1) * 2 ^ 23 + (2 ^ 23 + f)) inf_mag"
    unfolding round_mag_def Let_def k unfolding u by simp
  also have "(e - 1) * 2 ^ 23 + (2 ^ 23 + f) = m" using m by (cases e) simp_all
  finally show ?thesis using assms(1) by simp
qed

subsection \<open>Order of magnitudes\<close>

lemma mag_units_Suc:
  "mag_units (Suc m) = mag_units m + 2 ^ (m div 2 ^ 23 - 1)"
proof -
  define e f where "e = m div 2 ^ 23" and "f = m mod 2 ^ 23"
  have m: "m = e * 2 ^ 23 + f" "f < 2 ^ 23" by (simp_all add: e_def f_def)
  have u: "mag_units m = (if e = 0 then f else (2 ^ 23 + f) * 2 ^ (e - 1))"
    by (simp add: mag_units_def e_def f_def)
  have "mag_units (Suc m) = mag_units m + 2 ^ (e - 1)"
  proof (cases "Suc f = 2 ^ 23")
    case True
    then have "Suc m = Suc e * 2 ^ 23" using m by simp
    then have "Suc m div 2 ^ 23 = Suc e" "Suc m mod 2 ^ 23 = 0" by simp_all
    then have "mag_units (Suc m) = 2 ^ 23 * 2 ^ e" by (simp add: mag_units_def)
    moreover have "mag_units m + 2 ^ (e - 1) = (2 ^ 23 + f + (if e = 0 then 0 else 1)) * 2 ^ (e - 1) - (if e = 0 then 2 ^ 23 - 1 else 0)"
      unfolding u using True by (simp add: algebra_simps)
    ultimately show ?thesis unfolding u using True by (cases e) (simp_all add: algebra_simps)
  next
    case False
    then have "Suc f < 2 ^ 23" using m(2) by simp
    moreover have "Suc m = e * 2 ^ 23 + Suc f" using m(1) by simp
    ultimately have "Suc m div 2 ^ 23 = e" "Suc m mod 2 ^ 23 = Suc f"
      by (simp_all add: div_add1_eq mod_add_eq)
    then show ?thesis unfolding u by (cases e) (simp_all add: mag_units_def algebra_simps)
  qed
  then show ?thesis by (simp add: e_def)
qed

lemma mag_units_less: "m < m' \<Longrightarrow> mag_units m < mag_units m'"
  by (rule lift_Suc_mono_less) (simp_all add: mag_units_Suc)

lemma mag_units_le_iff: "mag_units m \<le> mag_units m' \<longleftrightarrow> m \<le> m'"
  using mag_units_less [of m m'] mag_units_less [of m' m] by (metis le_less not_le)

lemma mag_units_0 [simp]: "mag_units 0 = 0"
  by (simp add: mag_units_def)

lemma mag_units_power: "0 < e \<Longrightarrow> mag_units (e * 2 ^ 23) = 2 ^ (22 + e)"
  by (cases e) (simp_all add: mag_units_def power_add)

text \<open>Below two, neighbouring magnitudes differ by at most \<open>2 ^ 126\<close> units.\<close>

lemma mag_units_step:
  assumes "m + j \<le> 128 * 2 ^ 23"
  shows "mag_units (m + j) \<le> mag_units m + j * 2 ^ 126"
  using assms
proof (induction j)
  case (Suc j)
  have "(m + j) div 2 ^ 23 - 1 \<le> 126" using Suc.prems by (simp add: less_mult_imp_div_less Suc_le_eq div_le_mono)
  then have "(2::nat) ^ ((m + j) div 2 ^ 23 - 1) \<le> 2 ^ 126" by (rule power_increasing) simp
  then show ?case using Suc mag_units_Suc [of "m + j"] by simp
qed simp

lemma mag_units_near:
  assumes "m \<le> 128 * 2 ^ 23" "m' \<le> 128 * 2 ^ 23" "m \<le> m' + j" "m' \<le> m + j"
  shows "\<bar>real (mag_units m) - real (mag_units m')\<bar> \<le> real j * 2 ^ 126"
proof -
  have "mag_units a \<le> mag_units b + j * 2 ^ 126" if "a \<le> 128 * 2 ^ 23" "b \<le> 128 * 2 ^ 23" "a \<le> b + j" for a b
  proof (cases "a \<le> b")
    case False
    then have "mag_units a \<le> mag_units b + (a - b) * 2 ^ 126" using mag_units_step [of b "a - b"] that by simp
    also have "\<dots> \<le> mag_units b + j * 2 ^ 126" using that(3) by simp
    finally show ?thesis .
  qed (use mag_units_le_iff [of a b] in simp)
  from this [of m m'] this [of m' m] assms
  have "real (mag_units m) \<le> real (mag_units m' + j * 2 ^ 126)" "real (mag_units m') \<le> real (mag_units m + j * 2 ^ 126)"
    by (simp_all only: of_nat_le_iff)
  then show ?thesis by (simp add: abs_le_iff)
qed

subsection \<open>Small values\<close>

lemma round_mag_finite:
  assumes "0 < d" "n < d * 2 ^ 270"
  shows "round_mag n d < inf_mag"
proof -
  let ?k = "round_shift n d"
  let ?m = "round_half_even n (d * 2 ^ ?k)"
  have k: "?k \<le> 246"
  proof (rule ccontr)
    assume "\<not> ?k \<le> 246"
    then have "d * 2 ^ (23 + ?k) \<le> n" "(2::nat) ^ 270 \<le> 2 ^ (23 + ?k)"
      using round_shift_bound(2) [OF assms(1), of n] by (simp, intro power_increasing) simp_all
    then have "d * 2 ^ 270 \<le> n" by (meson le_trans mult_le_mono2)
    then show False using assms(2) by simp
  qed
  have "?m \<le> 2 ^ 24" by (rule round_mantissa_le [OF assms(1)])
  moreover have "?k * 2 ^ 23 \<le> 246 * 2 ^ 23" using k by simp
  ultimately show ?thesis by (simp add: round_mag_def Let_def inf_mag_def)
qed

lemma round_mag_0 [simp]: "round_mag 0 d = 0"
  by (simp add: round_mag_def round_shift_def round_half_even_def floorlog_def Let_def inf_mag_def)

lemma f32_of_int_units:
  assumes "0 \<le> i" "i \<le> 2 ^ 16"
  shows "mag_units (snd (f32_of_int i)) = nat i * unit_scale" "snd (f32_of_int i) < inf_mag"
proof -
  let ?n = "nat i * unit_scale"
  have small: "?n < 1 * 2 ^ 270" using assms by (simp add: unit_scale_def)
  then have fin: "round_mag ?n 1 < inf_mag" by (intro round_mag_finite) simp_all
  then show "snd (f32_of_int i) < inf_mag" using assms by (simp add: f32_of_int_def)
  have "floorlog 2 ?n \<le> 24 + 149"
    using assms by (intro floorlog_leI) (simp_all add: unit_scale_def)
  then have k: "round_shift ?n 1 \<le> 149" by (simp add: round_shift_def)
  define K where "K = round_shift ?n 1"
  have e: "?n = nat i * 2 ^ (149 - K) * 2 ^ K"
    using k by (simp add: unit_scale_def K_def flip: power_add)
  have "round_half_even ?n (1 * 2 ^ K) * 2 ^ K = ?n"
    unfolding e using round_half_even_exact [of "2 ^ K" "nat i * 2 ^ (149 - K)"] by simp
  then show "mag_units (snd (f32_of_int i)) = ?n"
    using round_mag_units [OF _ fin] assms by (simp add: f32_of_int_def K_def)
qed

lemma round_half_even_near:
  assumes "0 < d" "\<bar>real n - real m * d\<bar> < d / 2"
  shows "round_half_even n d = m"
proof -
  have "\<bar>real n - real d * round_half_even n d\<bar> \<le> real d / 2"
  proof -
    have "real (2 * n) \<le> real (2 * d * round_half_even n d + d)" "real (2 * d * round_half_even n d) \<le> real (2 * n + d)"
      using round_half_even_error [OF assms(1), of n] by (simp_all only: of_nat_le_iff)
    then show ?thesis unfolding abs_le_iff of_nat_add of_nat_mult of_nat_numeral by (auto simp: algebra_simps)
  qed
  then have "\<bar>real m * d - real d * round_half_even n d\<bar> < real d" using assms(2) by linarith
  then have "\<bar>real d * (real m - real (round_half_even n d))\<bar> < real d" by (simp add: algebra_simps)
  then have "\<bar>real m - real (round_half_even n d)\<bar> < 1" using assms(1) by (simp add: abs_mult)
  then have "\<bar>real_of_int (int m - int (round_half_even n d))\<bar> < 1" by simp
  then show ?thesis by linarith
qed

end
