(* ===== verification/MlvcBundle.thy ===== *)
theory MlvcBundle
  imports Errors
begin

text \<open>
  \<^verbatim>\<open>src/mlvc/bundle.hpp\<close>, \<^verbatim>\<open>src/mlvc/bundle.cpp\<close> and the geometry of
  \<^verbatim>\<open>src/mlvc/host_ops.cpp\<close>: the parameters of an MLVC model, the consistency checks a bundle
  has to pass, the selection of a canvas for a frame, the placement of the frame on it and the
  shapes of the latents. A file-system path is its string; the PMF tables shared by the models
  of a bundle are held by value.
\<close>

subsection \<open>Models\<close>

datatype mlvc_precision = fp16 | fp32

record pmf_table =
  pmf_lengths :: "i32 list"
  pmf_offsets :: "i32 list"
  pmf_entries :: "i32 list"

record gaussian_pmf =
  ga_pmf :: pmf_table
  ga_scale_levels :: u32

record bit_estimator_pmf =
  be_pmf :: pmf_table
  be_qp_num :: u32
  be_channels :: u32

record model_parameters =
  mp_width :: u32
  mp_height :: u32
  mp_qp_num :: u32
  mp_total_qp_num :: u32
  mp_frame_index_map :: "u32 list"
  mp_qp_shift :: "u32 list"
  mp_feature_channels :: u32
  mp_latent_channels :: u32
  mp_hyperprior_channels :: u32
  mp_downsample_feature :: u32
  mp_downsample_latent :: u32
  mp_downsample_hyperprior :: u32
  mp_y_scale_repeat :: u32
  mp_iframe_period :: "u32 option"
  mp_reset_period :: "u32 option"
  mp_ltr_start_idx :: u32
  mp_ltr_period :: "u32 option"

record model_part =
  part_component_id :: string
  part_model_path :: string
  part_weights_path :: string
  part_sha256 :: string

record bundle_model =
  bm_canvas_id :: string
  bm_stream_identity :: string
  bm_parameters :: model_parameters
  bm_precision :: mlvc_precision
  bm_encoder :: model_part
  bm_decoder :: model_part
  bm_gaussian :: gaussian_pmf
  bm_bit_estimator :: bit_estimator_pmf

record model_bundle =
  bu_root :: string
  bu_name :: string
  bu_target_device :: string
  bu_models :: "bundle_model list"

definition bundle_error :: "string \<Rightarrow> error" where
  "bundle_error msg = Error invalid_argument msg ''mlvc.bundle''"

text \<open>What distinguishes the models of a bundle: their canvases, and with them the identities in the stream.\<close>

definition bundle_ok :: "model_bundle \<Rightarrow> bool" where
  "bundle_ok b \<longleftrightarrow> distinct (map bm_canvas_id (bu_models b))
     \<and> (\<forall>m \<in> set (bu_models b). bm_stream_identity m = bu_name b @ ''-'' @ bm_canvas_id m)"

lemma bundle_canvas_unique:
  "bundle_ok b \<Longrightarrow> m \<in> set (bu_models b) \<Longrightarrow> m' \<in> set (bu_models b) \<Longrightarrow> bm_canvas_id m = bm_canvas_id m' \<Longrightarrow> m = m'"
  unfolding bundle_ok_def distinct_map by (metis inj_onD)

subsection \<open>Consistency of the parameters\<close>

definition shapes_valid :: "model_parameters \<Rightarrow> bool" where
  "shapes_valid p \<longleftrightarrow>
     mp_width p > 0 \<and> mp_height p > 0 \<and> mp_downsample_latent p > 0 \<and>
     mp_downsample_feature p > 0 \<and> mp_downsample_hyperprior p > 0 \<and>
     mp_width p mod mp_downsample_latent p = 0 \<and> mp_height p mod mp_downsample_latent p = 0 \<and>
     mp_width p mod mp_downsample_feature p = 0 \<and> mp_height p mod mp_downsample_feature p = 0 \<and>
     mp_feature_channels p > 0 \<and> mp_latent_channels p > 0 \<and> mp_latent_channels p mod 2 = 0 \<and>
     mp_y_scale_repeat p > 0 \<and> mp_latent_channels p mod mp_y_scale_repeat p = 0 \<and>
     mp_latent_channels p div mp_y_scale_repeat p \<le> mp_hyperprior_channels p"

fun maximum_shift_loop :: "string \<Rightarrow> u32 list \<Rightarrow> u32 list \<Rightarrow> u32 \<Rightarrow> u32 result" where
  "maximum_shift_loop loc qp_shift [] maximum_shift = Inr maximum_shift"
| "maximum_shift_loop loc qp_shift (index # rest) maximum_shift =
     (if unat index \<ge> length qp_shift then
        Inl (bundle_error (loc @ '' frame_index_map exceeds qp_shift''))
      else maximum_shift_loop loc qp_shift rest (max maximum_shift (qp_shift ! unat index)))"

definition validate_parameters :: "string \<Rightarrow> model_parameters \<Rightarrow> model_parameters result" where
  "validate_parameters loc p =
     (if \<not> shapes_valid p then Inl (bundle_error (loc @ '' has inconsistent dimensions''))
      else if mp_qp_num p = 0 \<or> mp_frame_index_map p = [] \<or> mp_qp_shift p = [] then
        Inl (bundle_error (loc @ '' has an empty Q schedule''))
      else res_bind (maximum_shift_loop loc (mp_qp_shift p) (mp_frame_index_map p) 0)
        (\<lambda>maximum_shift.
        if (ucast (mp_qp_num p) - 1 + ucast maximum_shift :: u64) \<ge> ucast (mp_total_qp_num p) then
          Inl (bundle_error (loc @ '' shifted Q exceeds total_qp_num''))
        else if mp_iframe_period p = Some 0 \<or> mp_reset_period p = Some 0
            \<or> mp_ltr_period p = Some 0 then
          Inl (bundle_error (loc @ '' has a zero period''))
        else Inr p))"

subsection \<open>Canvas selection and placement\<close>

definition dimensions_string :: "u32 \<Rightarrow> u32 \<Rightarrow> string" where
  "dimensions_string w h = decimal_string (unat w) @ ''x'' @ decimal_string (unat h)"

definition fits :: "u32 \<Rightarrow> u32 \<Rightarrow> bundle_model \<Rightarrow> bool \<Rightarrow> bool" where
  "fits frame_width frame_height model rotated =
     (let width = (if rotated then frame_height else frame_width);
          height = (if rotated then frame_width else frame_height) in
      width \<le> mp_width (bm_parameters model) \<and> height \<le> mp_height (bm_parameters model))"

definition select_model :: "model_bundle \<Rightarrow> u32 \<Rightarrow> u32 \<Rightarrow> string \<Rightarrow> bundle_model result" where
  "select_model b frame_width frame_height canvas_id =
     (if canvas_id \<noteq> [] then
        (case find (\<lambda>model. bm_canvas_id model = canvas_id) (bu_models b) of
           Some model \<Rightarrow>
             if \<not> fits frame_width frame_height model False
                \<and> \<not> fits frame_width frame_height model True then
               Inl (bundle_error (dimensions_string frame_width frame_height @
                 '' does not fit MLVC canvas '' @ bm_canvas_id model))
             else Inr model
         | None \<Rightarrow> Inl (Error missing_artifact (''bundle has no MLVC canvas '' @ canvas_id)
             ''mlvc.bundle''))
      else
        case find (\<lambda>model. fits frame_width frame_height model False) (bu_models b) of
          Some model \<Rightarrow> Inr model
        | None \<Rightarrow>
          (case find (\<lambda>model. fits frame_width frame_height model True) (bu_models b) of
             Some model \<Rightarrow> Inr model
           | None \<Rightarrow> Inl (bundle_error (dimensions_string frame_width frame_height @
               '' is larger than every MLVC canvas in the bundle; MLVC does not scale''))))"

record placement =
  pm_frame_width :: u32
  pm_frame_height :: u32
  pm_canvas_width :: u32
  pm_canvas_height :: u32
  pm_transposed :: bool

definition host_error :: "string \<Rightarrow> error" where
  "host_error msg = Error invalid_argument msg ''mlvc.host''"

definition place :: "u32 \<Rightarrow> u32 \<Rightarrow> model_parameters \<Rightarrow> placement result" where
  "place frame_width frame_height model =
     (if frame_width = 0 \<or> frame_height = 0 \<or> frame_width mod 2 \<noteq> 0 \<or> frame_height mod 2 \<noteq> 0 then
        Inl (host_error ''MLVC requires positive, even I420 frame dimensions'')
      else
        let placement = \<lparr>pm_frame_width = frame_width, pm_frame_height = frame_height,
              pm_canvas_width = mp_width model, pm_canvas_height = mp_height model,
              pm_transposed = False\<rparr> in
        if frame_width \<le> mp_width model \<and> frame_height \<le> mp_height model then Inr placement
        else if frame_height \<le> mp_width model \<and> frame_width \<le> mp_height model then
          Inr (placement\<lparr>pm_transposed := True\<rparr>)
        else Inl (host_error (''frame '' @ dimensions_string frame_width frame_height @
          '' is larger than the MLVC canvas '' @
          dimensions_string (mp_width model) (mp_height model))))"

subsection \<open>Latent shapes\<close>

record latent_shape =
  ls_y_channels :: u32
  ls_y_height :: u32
  ls_y_width :: u32
  ls_z_channels :: u32
  ls_z_height :: u32
  ls_z_width :: u32

definition y_elements :: "latent_shape \<Rightarrow> u64" where
  "y_elements s = ucast (ls_y_channels s) * ucast (ls_y_height s) * ucast (ls_y_width s)"

definition z_elements :: "latent_shape \<Rightarrow> u64" where
  "z_elements s = ucast (ls_z_channels s) * ucast (ls_z_height s) * ucast (ls_z_width s)"

definition latent_shape_of :: "model_parameters \<Rightarrow> latent_shape" where
  "latent_shape_of model =
     (let z_stride = mp_downsample_latent model * mp_downsample_hyperprior model in
      \<lparr>ls_y_channels = mp_latent_channels model div 2,
       ls_y_height = mp_height model div mp_downsample_latent model,
       ls_y_width = mp_width model div mp_downsample_latent model,
       ls_z_channels = mp_hyperprior_channels model,
       ls_z_height = (mp_height model + z_stride - 1) div z_stride,
       ls_z_width = (mp_width model + z_stride - 1) div z_stride\<rparr>)"

subsection \<open>What the checks guarantee\<close>

lemma maximum_shift_loop_ok:
  "maximum_shift_loop w qs xs m = Inr n \<longleftrightarrow>
     (\<forall>i \<in> set xs. unat i < length qs) \<and> n = fold (\<lambda>i m. max m (qs ! unat i)) xs m"
  by (induction xs arbitrary: m) (auto simp: not_le)

lemma fold_max_shift:
  fixes qs :: "u32 list" and xs :: "u32 list"
  shows "m \<le> fold (\<lambda>i m. max m (qs ! unat i)) xs m"
    "i \<in> set xs \<Longrightarrow> qs ! unat i \<le> fold (\<lambda>i m. max m (qs ! unat i)) xs m"
proof (induction xs arbitrary: m)
  case Nil
  { case 1 then show ?case by simp next case 2 then show ?case by simp }
next
  case (Cons x xs)
  { case 1 then show ?case using Cons(1) [of "max m (qs ! unat x)"] by simp
  next
    case 2 then show ?case
      using Cons(1) [of "max m (qs ! unat x)"] Cons(2) [of "max m (qs ! unat x)"] by auto }
qed

lemma validate_parameters_ok:
  assumes "validate_parameters w p = Inr p'"
  shows "p' = p" "shapes_valid p" "mp_frame_index_map p \<noteq> []"
    "mp_iframe_period p \<noteq> Some 0" "mp_reset_period p \<noteq> Some 0" "mp_ltr_period p \<noteq> Some 0"
    "\<And>i. i \<in> set (mp_frame_index_map p) \<Longrightarrow> unat i < length (mp_qp_shift p)"
    "\<And>i. i \<in> set (mp_frame_index_map p) \<Longrightarrow>
       unat (mp_qp_num p) - 1 + unat (mp_qp_shift p ! unat i) < unat (mp_total_qp_num p)"
    "0 < mp_qp_num p"
proof -
  from assms obtain n where n: "maximum_shift_loop w (mp_qp_shift p) (mp_frame_index_map p) 0 = Inr n"
    and lt: "(ucast (mp_qp_num p) - 1 + ucast n :: u64) < ucast (mp_total_qp_num p)"
    and q0: "mp_qp_num p \<noteq> 0" and p': "p' = p" "shapes_valid p" "mp_frame_index_map p \<noteq> []"
    "mp_iframe_period p \<noteq> Some 0" "mp_reset_period p \<noteq> Some 0" "mp_ltr_period p \<noteq> Some 0"
    unfolding validate_parameters_def result_simps not_le de_Morgan_disj
    by blast
  show "p' = p" "shapes_valid p" "mp_frame_index_map p \<noteq> []"
    "mp_iframe_period p \<noteq> Some 0" "mp_reset_period p \<noteq> Some 0" "mp_ltr_period p \<noteq> Some 0"
    by (fact p')+
  show "0 < mp_qp_num p" using q0 by (simp add: word_gt_0)
  show "unat i < length (mp_qp_shift p)" if "i \<in> set (mp_frame_index_map p)" for i
    using n that by (simp add: maximum_shift_loop_ok)
  have q: "0 < unat (mp_qp_num p)" using q0 by (simp add: unat_gt_0)
  have b: "unat (mp_qp_num p) < 2 ^ 32" "unat n < 2 ^ 32"
    using unsigned_less [of "mp_qp_num p", where ?'a = nat] unsigned_less [of n, where ?'a = nat]
    by simp_all
  have e: "(ucast (mp_qp_num p) - 1 + ucast n :: u64) = word_of_nat (unat (mp_qp_num p) - 1 + unat n)"
    using q by (simp add: of_nat_diff)
  have "unat (ucast (mp_qp_num p) - 1 + ucast n :: u64) = unat (mp_qp_num p) - 1 + unat n"
    unfolding e using b by (simp only: unsigned_of_nat) (simp add: take_bit_nat_eq_self)
  with lt have lt': "unat (mp_qp_num p) - 1 + unat n < unat (mp_total_qp_num p)"
    by (simp add: word_less_nat_alt unat_ucast_up)
  show "unat (mp_qp_num p) - 1 + unat (mp_qp_shift p ! unat i) < unat (mp_total_qp_num p)"
    if "i \<in> set (mp_frame_index_map p)" for i
  proof -
    have "mp_qp_shift p ! unat i \<le> n"
      using n that fold_max_shift(2) [of i "mp_frame_index_map p" "mp_qp_shift p" 0]
      by (simp add: maximum_shift_loop_ok)
    then show ?thesis using lt' by (simp add: word_le_nat_alt)
  qed
qed

lemma find_first:
  "find P xs = Some x \<longleftrightarrow> (\<exists>ys zs. xs = ys @ x # zs \<and> P x \<and> (\<forall>y \<in> set ys. \<not> P y))"
  unfolding find_Some_iff
proof (intro iffI; elim exE conjE)
  fix i assume i: "i < length xs" "P (xs ! i)" "x = xs ! i" "\<forall>j<i. \<not> P (xs ! j)"
  then show "\<exists>ys zs. xs = ys @ x # zs \<and> P x \<and> (\<forall>y \<in> set ys. \<not> P y)"
    by (intro exI [of _ "take i xs"] exI [of _ "drop (Suc i) xs"])
       (auto simp: id_take_nth_drop [symmetric] in_set_conv_nth)
next
  fix ys zs assume "xs = ys @ x # zs" "P x" "\<forall>y \<in> set ys. \<not> P y"
  then show "\<exists>i<length xs. P (xs ! i) \<and> x = xs ! i \<and> (\<forall>j<i. \<not> P (xs ! j))"
    by (intro exI [of _ "length ys"]) (auto simp: nth_append)
qed

definition area :: "bundle_model \<Rightarrow> nat" where
  "area m = unat (mp_width (bm_parameters m)) * unat (mp_height (bm_parameters m))"

lemma find_smallest:
  assumes "find P ms = Some m" "sorted (map area ms)" "m' \<in> set ms" "P m'"
  shows "area m \<le> area m'"
proof -
  from assms(1) obtain ys zs where d: "ms = ys @ m # zs" "\<forall>y \<in> set ys. \<not> P y"
    by (auto simp: find_first)
  with assms(3,4) have "m' = m \<or> m' \<in> set zs" by auto
  with assms(2) d(1) show ?thesis by (auto simp: sorted_append)
qed

text \<open>
  Property C24. For a frame with positive, even dimensions, automatic canvas selection and
  placement agree. A selected canvas belongs to the bundle and the frame is placed on it, inside
  its bounds; it is placed untransposed exactly when some canvas fits natively, and among the
  canvases fitting that way the selected one has the smallest area. Selection fails only when no
  canvas of the bundle takes the frame in either orientation.
\<close>

theorem select_model_placed:
  assumes "sorted (map area (bu_models b))"
    and "w > 0" "h > 0" "w mod 2 = 0" "h mod 2 = 0"
  shows "case select_model b w h [] of
      Inl e \<Rightarrow> code e = invalid_argument
        \<and> (\<forall>m \<in> set (bu_models b). \<not> has_value (place w h (bm_parameters m)))
    | Inr m \<Rightarrow> m \<in> set (bu_models b)
        \<and> (\<exists>pl. place w h (bm_parameters m) = Inr pl
             \<and> (pm_transposed pl \<longleftrightarrow> \<not> (\<exists>m' \<in> set (bu_models b). fits w h m' False))
             \<and> (if pm_transposed pl then h \<le> pm_canvas_width pl \<and> w \<le> pm_canvas_height pl
                else w \<le> pm_canvas_width pl \<and> h \<le> pm_canvas_height pl)
             \<and> (\<forall>m' \<in> set (bu_models b). fits w h m' (pm_transposed pl) \<longrightarrow> area m \<le> area m'))"
proof -
  let ?ms = "bu_models b"
  have pl: "place w h p = (if w \<le> mp_width p \<and> h \<le> mp_height p then Inr (Abs False)
      else if h \<le> mp_width p \<and> w \<le> mp_height p then Inr (Abs True)
      else Inl (host_error (''frame '' @ dimensions_string w h @
          '' is larger than the MLVC canvas '' @ dimensions_string (mp_width p) (mp_height p))))"
    if "Abs = (\<lambda>t. \<lparr>pm_frame_width = w, pm_frame_height = h, pm_canvas_width = mp_width p,
              pm_canvas_height = mp_height p, pm_transposed = t\<rparr>)" for p Abs
    using assms that by (auto simp: place_def Let_def)
  show ?thesis
  proof (cases "find (\<lambda>m. fits w h m False) ?ms")
    case (Some m)
    then have "m \<in> set ?ms" "fits w h m False" by (auto simp: find_first)
    with Some find_smallest [OF Some assms(1)] show ?thesis
      by (auto simp: select_model_def pl [OF refl] fits_def)
  next
    case None
    then have no: "\<forall>m \<in> set ?ms. \<not> fits w h m False" by (simp add: find_eq_None)
    show ?thesis
    proof (cases "find (\<lambda>m. fits w h m True) ?ms")
      case (Some m)
      then have "m \<in> set ?ms" "fits w h m True" by (auto simp: find_first)
      with Some None no find_smallest [OF Some assms(1)] show ?thesis
        by (auto simp: select_model_def pl [OF refl] fits_def)
    next
      case no2: None
      then have "\<forall>m \<in> set ?ms. \<not> fits w h m True" by (simp add: find_eq_None)
      with None no2 no show ?thesis
        by (auto simp: select_model_def pl [OF refl] fits_def bundle_error_def has_value_def)
    qed
  qed
qed

definition sample_parameters :: "u32 \<Rightarrow> u32 \<Rightarrow> model_parameters" where
  "sample_parameters w h = \<lparr>mp_width = w, mp_height = h, mp_qp_num = 64, mp_total_qp_num = 72,
     mp_frame_index_map = [0, 1, 0, 2], mp_qp_shift = [0, 8, 4], mp_feature_channels = 48,
     mp_latent_channels = 128, mp_hyperprior_channels = 128, mp_downsample_feature = 8,
     mp_downsample_latent = 16, mp_downsample_hyperprior = 4, mp_y_scale_repeat = 1,
     mp_iframe_period = Some 64, mp_reset_period = Some 32, mp_ltr_start_idx = 8,
     mp_ltr_period = Some 16\<rparr>"

definition sample_pmf :: pmf_table where
  "sample_pmf = \<lparr>pmf_lengths = [2], pmf_offsets = [0], pmf_entries = [0x8000, 0x8000]\<rparr>"

definition sample_part :: "string \<Rightarrow> model_part" where
  "sample_part n = \<lparr>part_component_id = n, part_model_path = n @ ''.onnx'',
     part_weights_path = ''weights.bin'', part_sha256 = replicate 64 CHR ''0''\<rparr>"

definition sample_model :: "u32 \<Rightarrow> u32 \<Rightarrow> string \<Rightarrow> bundle_model" where
  "sample_model w h canvas = \<lparr>bm_canvas_id = canvas, bm_stream_identity = ''MLVC-S-'' @ canvas,
     bm_parameters = sample_parameters w h, bm_precision = fp16,
     bm_encoder = sample_part ''MLVCEncoder'', bm_decoder = sample_part ''MLVCDecoder'',
     bm_gaussian = \<lparr>ga_pmf = sample_pmf, ga_scale_levels = 1\<rparr>,
     bm_bit_estimator = \<lparr>be_pmf = sample_pmf, be_qp_num = 64, be_channels = 128\<rparr>\<rparr>"

definition sample_bundle :: model_bundle where
  "sample_bundle = \<lparr>bu_root = ''/bundle'', bu_name = ''MLVC-S'', bu_target_device = ''cpu'',
     bu_models = [sample_model 320 192 ''320x192'', sample_model 640 368 ''640x368'']\<rparr>"

lemmas sample_defs =
  sample_bundle_def sample_model_def sample_parameters_def sample_part_def sample_pmf_def

theorem select_model_placed_witness:
  "\<exists>pl. select_model sample_bundle 360 640 [] = Inr (sample_model 640 368 ''640x368'')
     \<and> place 360 640 (bm_parameters (sample_model 640 368 ''640x368'')) = Inr pl
     \<and> pm_transposed pl"
proof -
  have sel: "select_model sample_bundle 360 640 [] = Inr (sample_model 640 368 ''640x368'')"
    by (simp add: select_model_def fits_def sample_defs)
  have "sorted (map area (bu_models sample_bundle))"
    by (simp add: area_def sample_defs)
  from select_model_placed [OF this, of 360 640] sel show ?thesis
    by (auto simp: fits_def sample_defs)
qed

lemma unat_mult_small:
  fixes a b :: u32
  assumes "unat a * unat b < 2 ^ 32"
  shows "unat (a * b) = unat a * unat b"
  using assms by (simp add: unat_word_ariths)

lemma unat_ceil_div:
  fixes n s :: u32
  assumes "0 < s" "unat n + unat s \<le> 2 ^ 32"
  shows "unat ((n + s - 1) div s) = (unat n + unat s - 1) div unat s"
proof -
  have s: "0 < unat s" using assms(1) by (simp add: word_gt_0 unat_gt_0)
  have e: "n + s - 1 = word_of_nat (unat n + unat s - 1)"
    using s by (simp add: of_nat_diff)
  have "unat (n + s - 1) = unat n + unat s - 1"
    unfolding e using assms(2) s by (simp only: unsigned_of_nat) (simp add: take_bit_nat_eq_self)
  then show ?thesis by (simp add: unat_div)
qed


end
