(* ===== verification/MlvcHost.thy ===== *)
theory MlvcHost
  imports FloatBits MlvcBundle ByteIO
begin

text \<open>
  The tensor operators of \<^verbatim>\<open>src/mlvc/host_ops.cpp\<close> and the symbol conversions of
  \<^verbatim>\<open>src/mlvc/session.cpp\<close>: half precision, the I420 frame laid out on the model's canvas, the frame read
  back from it, and the scale indices of the entropy model. A half is its sign and its 15 magnitude
  bits. A tensor is its bytes, little-endian; the loops over disjoint indices are lists over the index.
  The lookup tables of the source hold the values of the scalar functions and are those functions here.
\<close>

subsection \<open>Half precision\<close>

type_synonym half = "bool \<times> nat"

definition f16_overflow :: nat where "f16_overflow = (127 + 16) * 2 ^ 23"
definition denormal_magic :: nat where "denormal_magic = (127 - 15 + (23 - 10) + 1) * 2 ^ 23"

definition to_half :: "f32 \<Rightarrow> half" where
  "to_half value =
     (let bits = snd value in
      (fst value,
       if bits \<ge> f16_overflow then (if bits > inf_mag then 0x7e00 else 0x7c00)
       else if bits < 113 * 2 ^ 23 then snd (f32_add (False, bits) (False, denormal_magic)) - denormal_magic
       else
         let mantissa_odd = bits div 2 ^ 13 mod 2;
             bits = (bits + ((2 ^ 32 - 112 * 2 ^ 23) + 0xfff)) mod 2 ^ 32;
             bits = (bits + mantissa_odd) mod 2 ^ 32 in
         bits div 2 ^ 13))"

definition to_float :: "half \<Rightarrow> f32" where
  "to_float value =
     (let exponent = snd value div 2 ^ 10 mod 32; mantissa = snd value mod 2 ^ 10 in
      if exponent = 0 then (fst value, snd (f32_mul (f32_of_int (int mantissa)) (False, 103 * 2 ^ 23)))
      else if exponent = 31 then (fst value, inf_mag + mantissa * 2 ^ 13)
      else (fst value, (exponent + 112) * 2 ^ 23 + mantissa * 2 ^ 13))"

definition half_bits :: "half \<Rightarrow> u16" where
  "half_bits h = word_of_nat (snd h + (if fst h then 2 ^ 15 else 0))"

definition bits_half :: "u16 \<Rightarrow> half" where
  "bits_half w = (2 ^ 15 \<le> unat w, unat w mod 2 ^ 15)"

subsection \<open>Tensor elements\<close>

fun element_size :: "mlvc_precision \<Rightarrow> nat" where
  "element_size fp16 = 2"
| "element_size fp32 = 4"

definition element_at :: "nat \<Rightarrow> byte list \<Rightarrow> nat \<Rightarrow> byte list" where
  "element_at sz tensor index = take sz (drop (index * sz) tensor)"

definition half_at :: "byte list \<Rightarrow> nat \<Rightarrow> half" where
  "half_at tensor index = bits_half (le_value (element_at 2 tensor index))"

definition load :: "byte list \<Rightarrow> mlvc_precision \<Rightarrow> nat \<Rightarrow> f32" where
  "load tensor precision index =
     (case precision of
        fp16 \<Rightarrow> to_float (half_at tensor index)
      | fp32 \<Rightarrow> bits_f32 (le_value (element_at 4 tensor index)))"

definition to_u8 :: "f32 \<Rightarrow> byte" where
  "to_u8 value =
     (if is_nan value then 0
      else
        let scaled = f32_nearbyint (f32_mul (f32_of_int 255) value);
            clipped = f32_clamp scaled (f32_of_int 0) (f32_of_int 255) in
        word_of_int (f32_trunc clipped))"

definition input_value :: "byte \<Rightarrow> f32" where
  "input_value sample = f32_div (f32_of_int (uint sample)) (f32_of_int 255)"

definition store :: "mlvc_precision \<Rightarrow> f32 \<Rightarrow> byte list" where
  "store precision value =
     (case precision of fp16 \<Rightarrow> le_bytes 2 (half_bits (to_half value)) | fp32 \<Rightarrow> le_bytes 4 (f32_bits value))"

subsection \<open>Frames and canvases\<close>

definition plane_size :: "placement \<Rightarrow> nat" where
  "plane_size p = unat (pm_canvas_width p) * unat (pm_canvas_height p)"

text \<open>The sample that goes to position \<open>index\<close> of one canvas plane; \<open>channel\<close> 0 is luma.\<close>

definition source_row :: "placement \<Rightarrow> nat \<Rightarrow> nat" where
  "source_row p index =
     (let y = index div unat (pm_canvas_width p); x = index mod unat (pm_canvas_width p) in
      if pm_transposed p then min x (unat (pm_frame_height p) - 1) else min y (unat (pm_frame_height p) - 1))"

definition source_column :: "placement \<Rightarrow> nat \<Rightarrow> nat" where
  "source_column p index =
     (let y = index div unat (pm_canvas_width p); x = index mod unat (pm_canvas_width p) in
      if pm_transposed p then min y (unat (pm_frame_width p) - 1) else min x (unat (pm_frame_width p) - 1))"

definition i420_sample :: "byte list \<Rightarrow> nat \<Rightarrow> nat \<Rightarrow> nat \<Rightarrow> nat \<Rightarrow> nat \<Rightarrow> byte" where
  "i420_sample i420 width height channel row column =
     (let chroma = (row div 2) * (width div 2) + column div 2;
          cb = width * height; cr = cb + (width div 2) * (height div 2) in
      i420 ! (if channel = 0 then row * width + column else if channel = 1 then cb + chroma else cr + chroma))"

definition prepare_input :: "byte list \<Rightarrow> placement \<Rightarrow> mlvc_precision \<Rightarrow> byte list \<Rightarrow> byte list" where
  "prepare_input i420 p precision output =
     (let plane = plane_size p;
          put = (\<lambda>index. store precision (input_value (i420_sample i420
            (unat (pm_frame_width p)) (unat (pm_frame_height p)) (index div plane)
            (source_row p (index mod plane)) (source_column p (index mod plane))))) in
      concat (map put [0..<3 * plane]) @ drop (3 * plane * element_size precision) output)"

definition canvas_index :: "placement \<Rightarrow> nat \<Rightarrow> nat \<Rightarrow> nat \<Rightarrow> nat" where
  "canvas_index p channel row column =
     (let y = (if pm_transposed p then column else row); x = (if pm_transposed p then row else column) in
      channel * plane_size p + y * unat (pm_canvas_width p) + x)"

definition chroma_mean :: "byte list \<Rightarrow> placement \<Rightarrow> mlvc_precision \<Rightarrow> nat \<Rightarrow> nat \<Rightarrow> nat \<Rightarrow> f32" where
  "chroma_mean x_hat p precision channel row column =
     (let value = (\<lambda>row column. load x_hat precision (canvas_index p channel row column));
          sum = value (2 * row) (2 * column);
          sum = f32_add sum (value (2 * row) (2 * column + 1));
          sum = f32_add sum (value (2 * row + 1) (2 * column));
          sum = f32_add sum (value (2 * row + 1) (2 * column + 1)) in
      f32_div sum (f32_of_int 4))"

definition finish_output :: "byte list \<Rightarrow> placement \<Rightarrow> mlvc_precision \<Rightarrow> byte list" where
  "finish_output x_hat p precision =
     (let width = unat (pm_frame_width p); height = unat (pm_frame_height p);
          luma = map (\<lambda>i. to_u8 (load x_hat precision (canvas_index p 0 (i div width) (i mod width))))
            [0..<height * width];
          chroma = (\<lambda>channel. map (\<lambda>i.
            let mean = chroma_mean x_hat p precision channel (i div (width div 2)) (i mod (width div 2)) in
            (case precision of fp16 \<Rightarrow> to_u8 (to_float (to_half mean)) | fp32 \<Rightarrow> to_u8 mean))
            [0..<(height div 2) * (width div 2)]) in
      luma @ chroma 1 @ chroma 2)"

subsection \<open>Entropy-model indices\<close>

record scale_indices =
  sc_scales_0 :: "int list"
  sc_scales_1 :: "int list"

definition scale_source :: "model_parameters \<Rightarrow> nat \<Rightarrow> nat \<Rightarrow> nat \<Rightarrow> nat" where
  "scale_source model channel y x =
     (let shape = latent_shape_of model; repeat = unat (mp_y_scale_repeat model);
          spatial = unat (mp_downsample_hyperprior model) in
      ((channel div repeat) * unat (ls_z_height shape) + y div spatial) * unat (ls_z_width shape) + x div spatial)"

definition scale_at :: "f32 list \<Rightarrow> model_parameters \<Rightarrow> u32 \<Rightarrow> nat \<Rightarrow> nat \<Rightarrow> nat \<Rightarrow> f32" where
  "scale_at z model scale_levels channel y x =
     (let maximum = f32_of_int (uint (scale_levels - 1)) in
      f32_clamp (f32_abs (z ! scale_source model channel y x)) (f32_of_int 0) maximum)"

definition extract_scales :: "f32 list \<Rightarrow> model_parameters \<Rightarrow> u32 \<Rightarrow> scale_indices" where
  "extract_scales z model scale_levels =
     (let shape = latent_shape_of model;
          half = unat (ls_y_channels shape);
          y_height = unat (ls_y_height shape); y_width = unat (ls_y_width shape);
          both = map (\<lambda>index.
            let x = index mod y_width; y = index div y_width mod y_height; channel = index div y_width div y_height;
                even = ((y + x) mod 2 = 0);
                first = scale_at z model scale_levels channel y x;
                second = scale_at z model scale_levels (channel + half) y x in
            (f32_trunc (if even then first else second), f32_trunc (if even then second else first)))
            [0..<half * y_height * y_width] in
      \<lparr>sc_scales_0 = map fst both, sc_scales_1 = map snd both\<rparr>)"

subsection \<open>Latents and symbols\<close>

definition mlvc_error :: "error_code \<Rightarrow> string \<Rightarrow> error" where
  "mlvc_error c msg = Error c msg ''mlvc''"

text \<open>
  The bounds of the range check are \<open>float\<close> literals: \<open>-2147483649.0F\<close> and \<open>2147483648.0F\<close> both have
  the magnitude \<open>2 ^ 31\<close>.
\<close>

definition symbol_of :: "f32 \<Rightarrow> int option" where
  "symbol_of value =
     (if \<not> is_finite value \<or> \<not> f32_less (f32_of_int (- 2147483649)) value
         \<or> \<not> f32_less value (f32_of_int 2147483648) then None
      else Some (f32_trunc value))"

fun symbols_from :: "byte list \<Rightarrow> mlvc_precision \<Rightarrow> nat list \<Rightarrow> int list result" where
  "symbols_from tensor precision [] = Inr []"
| "symbols_from tensor precision (index # rest) =
     (case symbol_of (load tensor precision index) of
        None \<Rightarrow> Inl (mlvc_error backend_error ''MLVC encoder produced a non-integer-representable latent'')
      | Some symbol \<Rightarrow> res_bind (symbols_from tensor precision rest) (\<lambda>symbols. Inr (symbol # symbols)))"

definition to_symbols :: "byte list \<Rightarrow> nat \<Rightarrow> mlvc_precision \<Rightarrow> int list result" where
  "to_symbols tensor count precision = symbols_from tensor precision [0..<count]"

definition from_symbols :: "int list \<Rightarrow> mlvc_precision \<Rightarrow> byte list \<Rightarrow> byte list" where
  "from_symbols symbols precision tensor =
     concat (map (\<lambda>symbol. store precision (f32_of_int symbol)) symbols)
       @ drop (length symbols * element_size precision) tensor"

subsection \<open>Samples survive the conversions\<close>

lemma round_mag_small_error:
  assumes "0 < d" "real n / d \<le> 2 ^ 160"
  shows "round_mag n d < inf_mag"
    "\<bar>real (mag_units (round_mag n d)) - real n / d\<bar> \<le> 1 / 2 + real n / d / 2 ^ 24"
proof -
  have "real n \<le> 2 ^ 160 * real d" using assms by (simp add: field_simps)
  also have "\<dots> < real d * 2 ^ 270" using assms(1) by simp
  finally have "real n < real (d * 2 ^ 270)" by simp
  then have "n < d * 2 ^ 270" by (simp only: of_nat_less_iff)
  then show fin: "round_mag n d < inf_mag" by (rule round_mag_finite [OF assms(1)])
  have "0 \<le> real n / d / 2 ^ 24" by simp
  then show "\<bar>real (mag_units (round_mag n d)) - real n / d\<bar> \<le> 1 / 2 + real n / d / 2 ^ 24"
    using round_mag_error [OF assms(1) fin] by linarith
qed

lemma not_special: "m < inf_mag \<Longrightarrow> \<not> is_nan (s, m) \<and> \<not> is_inf (s, m) \<and> is_finite (s, m)"
  by (simp add: is_nan_def is_inf_def is_finite_def)

lemma f32_of_int_sign: "0 \<le> i \<Longrightarrow> fst (f32_of_int i) = False"
  by (simp add: f32_of_int_def)

lemma f32_of_int_pair: "0 \<le> i \<Longrightarrow> f32_of_int i = (False, snd (f32_of_int i))"
  by (simp add: f32_of_int_def)

lemma half_from_parts:
  fixes U :: real
  assumes "0 < U" "\<bar>b - c\<bar> \<le> 2 / 5 * U" "\<bar>a - b\<bar> \<le> e" "e \<le> U / 100"
  shows "\<bar>a - c\<bar> < U / 2"
  using assms by linarith

lemma to_u8_near:
  assumes m: "m < inf_mag" and s: "s \<le> 255"
    and near: "\<bar>255 * real (mag_units m) - real s * 2 ^ 149\<bar> \<le> 2 / 5 * 2 ^ 149"
  shows "to_u8 (False, m) = word_of_nat s"
proof -
  let ?W = "round_mag (255 * unit_scale * mag_units m) unit_scale"
  have c: "mag_units (snd (f32_of_int 255)) = 255 * unit_scale" "snd (f32_of_int 255) < inf_mag"
    using f32_of_int_units [of 255] by simp_all
  have u: "0 < unit_scale" "real unit_scale = 2 ^ 149" by (simp_all add: unit_scale_def)
  have q: "real (255 * unit_scale * mag_units m) / unit_scale = 255 * real (mag_units m)" using u by simp
  have "real s * 2 ^ 149 \<le> 255 * 2 ^ 149" using s by simp
  then have "255 * real (mag_units m) \<le> 256 * 2 ^ 149" using near by linarith
  then have w: "?W < inf_mag"
    "\<bar>real (mag_units ?W) - 255 * real (mag_units m)\<bar> \<le> 1 / 2 + 255 * real (mag_units m) / 2 ^ 24"
    using round_mag_small_error [OF u(1), of "255 * unit_scale * mag_units m"] unfolding q by simp_all
  have mul: "f32_mul (f32_of_int 255) (False, m) = (False, ?W)"
    using m c by (simp add: f32_mul_def f32_of_int_sign is_nan_def is_inf_def)
  have "1 / 2 + 255 * real (mag_units m) / 2 ^ 24 \<le> 2 ^ 149 / 100"
    using \<open>255 * real (mag_units m) \<le> 256 * 2 ^ 149\<close> by simp
  then have "\<bar>real (mag_units ?W) - real s * unit_scale\<bar> < unit_scale / 2"
    unfolding u(2) by (intro half_from_parts [OF _ near w(2)]) simp_all
  then have r: "round_half_even (mag_units ?W) unit_scale = s" by (rule round_half_even_near [OF u(1)])
  have near_int: "f32_nearbyint (False, ?W) = f32_of_int (int s)"
    using not_special [OF w(1)] by (simp add: f32_nearbyint_def r f32_of_int_def)
  note si = f32_of_int_units [of "int s"]
  have "mag_units (snd (f32_of_int (int s))) \<le> mag_units (snd (f32_of_int 255))"
    using si s c(1) by simp
  then have "snd (f32_of_int (int s)) \<le> snd (f32_of_int 255)" by (simp only: mag_units_le_iff)
  then have "f32_clamp (f32_of_int (int s)) (f32_of_int 0) (f32_of_int 255) = f32_of_int (int s)"
    by (simp add: f32_clamp_def f32_less_def f32_of_int_sign) (simp add: f32_of_int_def)
  then show ?thesis
    using not_special [OF m, of False] si s u(1)
    by (simp add: to_u8_def mul near_int f32_trunc_def f32_of_int_sign)
qed

lemma f32_of_int_ordinary:
  assumes "0 \<le> i" "i \<le> 2 ^ 16"
  shows "\<not> is_nan (f32_of_int i)" "\<not> is_inf (f32_of_int i)" "is_finite (f32_of_int i)"
    "snd (f32_of_int i) = 0 \<longleftrightarrow> i = 0"
proof -
  note u = f32_of_int_units [OF assms]
  show "\<not> is_nan (f32_of_int i)" "\<not> is_inf (f32_of_int i)" "is_finite (f32_of_int i)"
    using u(2) by (simp_all add: is_nan_def is_inf_def is_finite_def)
  have "snd (f32_of_int i) = 0 \<longleftrightarrow> mag_units (snd (f32_of_int i)) = 0"
    using mag_units_le_iff [of "snd (f32_of_int i)" 0] by simp
  also have "\<dots> \<longleftrightarrow> i = 0" using assms(1) by (auto simp: u(1) unit_scale_def)
  finally show "snd (f32_of_int i) = 0 \<longleftrightarrow> i = 0" .
qed

text \<open>Division of a non-negative finite value by a small positive integer.\<close>

lemma f32_div_of_int:
  assumes "m < inf_mag" "0 < i" "i \<le> 2 ^ 16"
  shows "f32_div (False, m) (f32_of_int i) = (False, round_mag (mag_units m * unit_scale) (nat i * unit_scale))"
  using assms f32_of_int_ordinary [of i] f32_of_int_units [of i]
  by (simp add: f32_div_def not_special f32_of_int_sign)

lemma round_quotient:
  assumes "real n / real c \<le> 2 ^ 160" "0 < c"
  shows "round_mag (n * unit_scale) (c * unit_scale) < inf_mag"
    "\<bar>real (mag_units (round_mag (n * unit_scale) (c * unit_scale))) - real n / c\<bar> \<le> 1 / 2 + real n / c / 2 ^ 24"
proof -
  have u: "0 < unit_scale" by (simp add: unit_scale_def)
  then have q: "real (n * unit_scale) / real (c * unit_scale) = real n / real c" by simp
  note e = round_mag_small_error [of "c * unit_scale" "n * unit_scale", unfolded q]
  show "round_mag (n * unit_scale) (c * unit_scale) < inf_mag"
    "\<bar>real (mag_units (round_mag (n * unit_scale) (c * unit_scale))) - real n / c\<bar> \<le> 1 / 2 + real n / c / 2 ^ 24"
    using e assms u by simp_all
qed

text \<open>The value of a sample: as a single and, rounded, as a half.\<close>

lemma input_value_near:
  shows "fst (input_value sample) = False" "snd (input_value sample) < inf_mag"
    "\<bar>real (mag_units (snd (input_value sample))) - real (unat sample) * 2 ^ 149 / 255\<bar> \<le> 2 ^ 127"
proof -
  define n where "n = unat sample"
  let ?r = "round_mag (n * unit_scale * unit_scale) (255 * unit_scale)"
  have s: "n \<le> 255" "uint sample \<le> 255"
    using unsigned_less [of sample, where ?'a = nat] unsigned_less [of sample, where ?'a = int] by (simp_all add: n_def)
  then have c: "mag_units (snd (f32_of_int (uint sample))) = n * unit_scale" "snd (f32_of_int (uint sample)) < inf_mag"
    using f32_of_int_units [of "uint sample"] by (simp_all add: n_def)
  have f: "f32_of_int (uint sample) = (False, snd (f32_of_int (uint sample)))"
    by (rule f32_of_int_pair) simp
  have v: "input_value sample = (False, ?r)"
    unfolding input_value_def using f32_div_of_int [OF c(2), of 255] f c(1) by simp
  have q: "real (n * unit_scale) / real 255 = real n * 2 ^ 149 / 255" by (simp add: unit_scale_def)
  have b: "real n * 2 ^ 149 / 255 \<le> 2 ^ 149" using s by simp
  then have e: "?r < inf_mag"
    "\<bar>real (mag_units ?r) - real n * 2 ^ 149 / 255\<bar> \<le> 1 / 2 + real n * 2 ^ 149 / 255 / 2 ^ 24"
    using round_quotient [of "n * unit_scale" 255, unfolded q] by simp_all
  show "fst (input_value sample) = False" "snd (input_value sample) < inf_mag" using v e(1) by simp_all
  have "1 / 2 + real n * 2 ^ 149 / 255 / 2 ^ 24 \<le> 2 ^ 127" using b by simp
  then show "\<bar>real (mag_units (snd (input_value sample))) - real (unat sample) * 2 ^ 149 / 255\<bar> \<le> 2 ^ 127"
    using e(2) unfolding v snd_conv n_def [symmetric] by (rule order.trans [rotated])
qed

text \<open>A magnitude that is finite and within \<open>e\<close> units of \<open>x\<close>.\<close>

definition close_to :: "nat \<Rightarrow> real \<Rightarrow> real \<Rightarrow> bool" where
  "close_to m x e \<longleftrightarrow> m < inf_mag \<and> \<bar>real (mag_units m) - x\<bar> \<le> e"

lemma close_to_weaken: "close_to m x e \<Longrightarrow> e \<le> e' \<Longrightarrow> close_to m x e'"
  by (simp add: close_to_def)

lemma close_to_trans: "close_to m x e \<Longrightarrow> \<bar>x - y\<bar> \<le> d \<Longrightarrow> close_to m y (e + d)"
  unfolding close_to_def by linarith

lemma close_to_round:
  assumes "0 < d" "real n / real d \<le> 2 ^ 153"
  shows "close_to (round_mag n d) (real n / d) (2 ^ 130)"
proof -
  have "real n / real d \<le> 2 ^ 160" using assms(2) by simp
  note e = round_mag_small_error [OF assms(1) this]
  have "1 / 2 + real n / d / 2 ^ 24 \<le> 2 ^ 130" using assms(2) by simp
  with e show ?thesis unfolding close_to_def by linarith
qed

lemma f32_add_close:
  assumes "close_to a x e" "close_to b y f" "x + y \<le> 2 ^ 152" "e + f \<le> 2 ^ 152"
  shows "\<exists>c. f32_add (False, a) (False, b) = (False, c) \<and> close_to c (x + y) (e + f + 2 ^ 130)"
proof -
  let ?n = "mag_units a + mag_units b"
  have "f32_add (False, a) (False, b) = (False, round_mag ?n 1)"
    using assms(1,2) by (auto simp: f32_add_def close_to_def is_nan_def is_inf_def signed_units_def Let_def
      simp flip: of_nat_add)
  moreover have n: "\<bar>real ?n - (x + y)\<bar> \<le> e + f"
    using assms(1,2) unfolding close_to_def of_nat_add by linarith
  then have "real ?n / real 1 \<le> 2 ^ 153" using assms(3,4) by (simp add: abs_le_iff)
  then have "close_to (round_mag ?n 1) (real ?n / real 1) (2 ^ 130)" by (intro close_to_round) simp_all
  then have "close_to (round_mag ?n 1) (x + y) (2 ^ 130 + (e + f))"
    by (rule close_to_trans) (use n in simp)
  ultimately show ?thesis by (simp add: add.commute)
qed

lemma f32_quarter_close:
  assumes "close_to a x e" "x \<le> 2 ^ 152" "e \<le> 2 ^ 152"
  shows "\<exists>c. f32_div (False, a) (f32_of_int 4) = (False, c) \<and> close_to c (x / 4) (e / 4 + 2 ^ 130)"
proof -
  let ?n = "mag_units a * unit_scale" and ?d = "nat 4 * unit_scale"
  have u: "real ?n / real ?d = real (mag_units a) / 4" "0 < ?d" by (simp_all add: unit_scale_def)
  have n: "\<bar>real (mag_units a) - x\<bar> \<le> e" and a: "a < inf_mag" using assms(1) by (simp_all add: close_to_def)
  then have "real ?n / real ?d \<le> 2 ^ 153" unfolding u(1) using assms(2,3) by (simp add: abs_le_iff)
  note close_to_round [OF u(2) this, unfolded u(1)]
  moreover have "\<bar>real (mag_units a) / 4 - x / 4\<bar> \<le> e / 4" using n by linarith
  ultimately have "close_to (round_mag ?n ?d) (x / 4) (2 ^ 130 + e / 4)" by (rule close_to_trans)
  then show ?thesis using f32_div_of_int [OF a, of 4] by (simp add: add.commute)
qed

text \<open>A half keeps eleven bits of the values between \<open>2 ^ -14\<close> and \<open>2\<close>.\<close>

lemma carry_bounds:
  assumes "(r::nat) < 2 ^ 13" "b \<le> 1"
  shows "(r + 0xfff + b) div 2 ^ 13 \<le> 1 \<and> r \<le> (r + 0xfff + b) div 2 ^ 13 * 2 ^ 13 + 2 ^ 12
    \<and> (r + 0xfff + b) div 2 ^ 13 * 2 ^ 13 \<le> r + 2 ^ 12"
proof (cases "r + 0xfff + b < 2 ^ 13")
  case False
  then have "(r + 0xfff + b) div 2 ^ 13 = 1"
    using assms by (intro div_nat_eqI) simp_all
  then show ?thesis using False assms by simp
qed (use assms in simp)

lemma half_round_trip:
  assumes "113 * 2 ^ 23 \<le> m" "m < 128 * 2 ^ 23"
  shows "\<exists>m'. to_float (to_half (False, m)) = (False, m') \<and> m' \<le> 128 * 2 ^ 23 \<and> m \<le> m' + 2 ^ 12 \<and> m' \<le> m + 2 ^ 12
    \<and> snd (to_half (False, m)) < 2 ^ 15"
proof -
  define n q r where "n = m - 112 * 2 ^ 23" and "q = n div 2 ^ 13" and "r = n mod 2 ^ 13"
  have m: "m = n + 112 * 2 ^ 23" "2 ^ 23 \<le> n" "n < 2 ^ 27" and n: "n = q * 2 ^ 13 + r" "r < 2 ^ 13"
    using assms by (simp_all add: n_def q_def r_def)
  have q: "2 ^ 10 \<le> q" "q < 2 ^ 14" using m n by simp_all
  define h where "h = q + (r + 0xfff + q mod 2) div 2 ^ 13"
  have odd: "m div 2 ^ 13 mod 2 = q mod 2"
  proof -
    have "m div 2 ^ 13 = q + 112 * 2 ^ 10" using m(1) by (simp add: q_def)
    also have "\<dots> mod 2 = q mod 2" by simp presburger
    finally show ?thesis .
  qed
  have bits: "((m + ((2 ^ 32 - 112 * 2 ^ 23) + 0xfff)) mod 2 ^ 32 + q mod 2) mod 2 ^ 32 = n + 0xfff + q mod 2"
  proof -
    have "m + ((2 ^ 32 - 112 * 2 ^ 23) + 0xfff) = n + 0xfff + 2 ^ 32" using m by simp
    moreover have "(n + 0xfff + 2 ^ 32) mod 2 ^ 32 = n + 0xfff" using m(3) by (simp only: mod_add_self2) simp
    ultimately show ?thesis using m(3) by (simp only:) (simp add: mod_less less_le_trans)
  qed
  have "snd (to_half (False, m)) = (n + 0xfff + q mod 2) div 2 ^ 13"
    using assms odd bits by (simp add: to_half_def f16_overflow_def Let_def)
  also have "n + 0xfff + q mod 2 = q * 2 ^ 13 + (r + 0xfff + q mod 2)" using n(1) by simp
  also have "\<dots> div 2 ^ 13 = h" unfolding h_def by (rule div_mult_self3) simp
  finally have half: "to_half (False, m) = (False, h)" by (simp add: to_half_def Let_def prod_eq_iff)
  have carry: "(r + 0xfff + q mod 2) div 2 ^ 13 \<le> 1"
    "r \<le> (r + 0xfff + q mod 2) div 2 ^ 13 * 2 ^ 13 + 2 ^ 12" "(r + 0xfff + q mod 2) div 2 ^ 13 * 2 ^ 13 \<le> r + 2 ^ 12"
    using carry_bounds [OF n(2), of "q mod 2"] by simp_all
  then have h: "2 ^ 10 \<le> h" "h \<le> 2 ^ 14" "n \<le> h * 2 ^ 13 + 2 ^ 12" "h * 2 ^ 13 \<le> n + 2 ^ 12"
    using q n(1) by (simp_all add: h_def algebra_simps)
  define e where "e = h div 2 ^ 10"
  have e: "e mod 32 = e" "0 < e" "e < 31" using h by (simp_all add: e_def)
  have "to_float (False, h) = (False, (e + 112) * 2 ^ 23 + h mod 2 ^ 10 * 2 ^ 13)"
    using e by (simp add: to_float_def Let_def e_def)
  also have "(e + 112) * 2 ^ 23 + h mod 2 ^ 10 * 2 ^ 13 = h * 2 ^ 13 + 112 * 2 ^ 23"
  proof -
    have "e * 2 ^ 10 + h mod 2 ^ 10 = h" unfolding e_def by (rule div_mult_mod_eq)
    then show ?thesis by simp
  qed
  finally show ?thesis using half h m by simp
qed

lemma half_round_trip_close:
  assumes "close_to m x e" "e \<le> 2 ^ 140" "2 ^ 141 \<le> x" "x \<le> 2 ^ 149"
  shows "\<exists>m'. to_float (to_half (False, m)) = (False, m') \<and> close_to m' x (e + 2 ^ 138)
    \<and> snd (to_half (False, m)) < 2 ^ 15"
proof -
  have near: "\<bar>real (mag_units m) - x\<bar> \<le> e" using assms(1) by (simp add: close_to_def)
  then have "real (2 ^ 135) \<le> real (mag_units m)" "real (mag_units m) < real (2 ^ 150)"
    using assms(2-4) by (simp_all add: abs_le_iff)
  then have "mag_units (113 * 2 ^ 23) \<le> mag_units m" "\<not> mag_units (128 * 2 ^ 23) \<le> mag_units m"
    unfolding of_nat_le_iff of_nat_less_iff by (simp_all only: mag_units_power) simp_all
  then have "113 * 2 ^ 23 \<le> m" "m < 128 * 2 ^ 23" unfolding mag_units_le_iff by simp_all
  from half_round_trip [OF this] obtain m' where m': "to_float (to_half (False, m)) = (False, m')" "m' \<le> 128 * 2 ^ 23"
    "m \<le> m' + 2 ^ 12" "m' \<le> m + 2 ^ 12" "snd (to_half (False, m)) < 2 ^ 15" by blast
  have "\<bar>real (mag_units m') - real (mag_units m)\<bar> \<le> real (2 ^ 12) * 2 ^ 126"
    using m' \<open>m < 128 * 2 ^ 23\<close> by (intro mag_units_near) simp_all
  then have "\<bar>real (mag_units m') - real (mag_units m)\<bar> \<le> 2 ^ 138" by simp
  moreover have "m' < inf_mag" using m'(2) by (simp add: inf_mag_def)
  ultimately have "close_to m' x (e + 2 ^ 138)" using near unfolding close_to_def by linarith
  then show ?thesis using m'(1,5) by blast
qed

lemma half_zero: "to_half (False, 0) = (False, 0)" "to_float (False, 0) = (False, 0)"
proof -
  have d: "denormal_magic < inf_mag" by (simp add: denormal_magic_def inf_mag_def)
  have "round_mag (mag_units denormal_magic) 1 = denormal_magic"
    using round_mag_exact [OF d, of 1] by simp
  then show "to_half (False, 0) = (False, 0)"
    using d by (auto simp: to_half_def f32_add_def is_nan_def is_inf_def signed_units_def f16_overflow_def Let_def)
  show "to_float (False, 0) = (False, 0)"
    by (simp add: to_float_def f32_mul_def f32_of_int_def is_nan_def is_inf_def inf_mag_def Let_def)
qed

lemma byte_le_255: "unat (sample :: byte) \<le> 255"
  using unsigned_less [of sample, where ?'a = nat] by simp

text \<open>What a tensor holds for a sample, and what becomes of it.\<close>

definition stored_value :: "mlvc_precision \<Rightarrow> byte \<Rightarrow> f32" where
  "stored_value precision sample =
     (case precision of fp16 \<Rightarrow> to_float (to_half (input_value sample)) | fp32 \<Rightarrow> input_value sample)"

definition finished_value :: "mlvc_precision \<Rightarrow> f32 \<Rightarrow> byte" where
  "finished_value precision mean =
     (case precision of fp16 \<Rightarrow> to_u8 (to_float (to_half mean)) | fp32 \<Rightarrow> to_u8 mean)"

lemma input_value_0: "input_value 0 = (False, 0)"
  using f32_div_of_int [of 0 255] by (simp add: input_value_def f32_of_int_def inf_mag_def)

lemma input_value_close:
  "input_value sample = (False, snd (input_value sample))"
  "close_to (snd (input_value sample)) (real (unat sample) * 2 ^ 149 / 255) (2 ^ 127)"
  using input_value_near [of sample] by (simp_all add: close_to_def prod_eq_iff)

lemma sample_range:
  fixes sample :: byte
  assumes "sample \<noteq> 0"
  shows "2 ^ 141 \<le> real (unat sample) * 2 ^ 149 / 255" "real (unat sample) * 2 ^ 149 / 255 \<le> 2 ^ 149"
proof -
  have "1 \<le> unat sample" "unat sample \<le> 255"
    using byte_le_255 [of sample] assms unat_gt_0 [of sample] by simp_all
  then have "real 1 \<le> real (unat sample)" "real (unat sample) \<le> real 255"
    unfolding of_nat_le_iff .
  then show "2 ^ 141 \<le> real (unat sample) * 2 ^ 149 / 255" "real (unat sample) * 2 ^ 149 / 255 \<le> 2 ^ 149"
    by simp_all
qed

lemma stored_value_close:
  assumes "sample \<noteq> 0"
  shows "\<exists>m. stored_value precision sample = (False, m)
    \<and> close_to m (real (unat sample) * 2 ^ 149 / 255) (2 ^ 127 + 2 ^ 138)"
proof (cases precision)
  case fp16
  have "close_to (snd (input_value sample)) (real (unat sample) * 2 ^ 149 / 255) (2 ^ 127)"
    by (rule input_value_close)
  from half_round_trip_close [OF this _ sample_range [OF assms]] show ?thesis
    using fp16 input_value_close(1) [of sample] by (auto simp: stored_value_def)
next
  case fp32
  have "close_to (snd (input_value sample)) (real (unat sample) * 2 ^ 149 / 255) (2 ^ 127 + 2 ^ 138)"
    by (rule close_to_weaken [OF input_value_close(2)]) simp
  then show ?thesis using fp32 input_value_close(1) [of sample] by (auto simp: stored_value_def)
qed

lemma to_u8_close:
  assumes "close_to m (real (unat sample) * 2 ^ 149 / 255) e" "e \<le> 2 ^ 139 + 2 ^ 132"
  shows "to_u8 (False, m) = sample"
proof -
  note byte_le_255 [of sample]
  moreover have "\<bar>255 * real (mag_units m) - real (unat sample) * 2 ^ 149\<bar> \<le> 255 * e"
    using assms(1) unfolding close_to_def by (simp add: abs_le_iff)
  moreover have "255 * e \<le> 2 / 5 * 2 ^ 149" using assms(2) by simp
  ultimately have "to_u8 (False, m) = word_of_nat (unat sample)"
    using assms(1) by (intro to_u8_near) (simp_all only: close_to_def)
  then show ?thesis by simp
qed

lemma to_u8_0: "to_u8 (False, 0) = 0"
  using to_u8_close [of 0 0 0] by (simp add: close_to_def inf_mag_def)

lemma luma_identity: "to_u8 (stored_value precision sample) = sample"
proof (cases "sample = 0")
  case True
  then show ?thesis by (cases precision) (simp_all add: stored_value_def input_value_0 half_zero to_u8_0)
next
  case False
  from stored_value_close [OF this, of precision] obtain m
    where "stored_value precision sample = (False, m)"
      "close_to m (real (unat sample) * 2 ^ 149 / 255) (2 ^ 127 + 2 ^ 138)" by blast
  then show ?thesis using to_u8_close [of m sample "2 ^ 127 + 2 ^ 138"] by simp
qed

definition mean_of :: "f32 \<Rightarrow> f32" where
  "mean_of v = f32_div (f32_add (f32_add (f32_add v v) v) v) (f32_of_int 4)"

lemma mean_of_0: "mean_of (False, 0) = (False, 0)"
  using f32_div_of_int [of 0 4]
  by (simp add: mean_of_def f32_add_def is_nan_def is_inf_def signed_units_def inf_mag_def)

lemma mean_of_close:
  assumes "close_to m x (2 ^ 127 + 2 ^ 138)" "x \<le> 2 ^ 149"
  shows "\<exists>c. mean_of (False, m) = (False, c) \<and> close_to c x (2 ^ 138 + 2 ^ 132)"
proof -
  let ?e = "2 ^ 127 + 2 ^ 138 :: real"
  from f32_add_close [OF assms(1,1)] assms(2) obtain a
    where a: "f32_add (False, m) (False, m) = (False, a)" "close_to a (x + x) (?e + ?e + 2 ^ 130)" by auto
  from f32_add_close [OF a(2) assms(1)] assms(2) obtain b
    where b: "f32_add (False, a) (False, m) = (False, b)" "close_to b (x + x + x) (?e + ?e + 2 ^ 130 + ?e + 2 ^ 130)"
    by auto
  from f32_add_close [OF b(2) assms(1)] assms(2) obtain c
    where c: "f32_add (False, b) (False, m) = (False, c)"
      "close_to c (x + x + x + x) (?e + ?e + 2 ^ 130 + ?e + 2 ^ 130 + ?e + 2 ^ 130)" by auto
  from f32_quarter_close [OF c(2)] assms(2) obtain d
    where d: "f32_div (False, c) (f32_of_int 4) = (False, d)"
      "close_to d ((x + x + x + x) / 4) ((?e + ?e + 2 ^ 130 + ?e + 2 ^ 130 + ?e + 2 ^ 130) / 4 + 2 ^ 130)" by auto
  have "close_to d x (2 ^ 138 + 2 ^ 132)" using close_to_weaken [OF d(2), of "2 ^ 138 + 2 ^ 132"] by simp
  then show ?thesis using a(1) b(1) c(1) d(1) by (simp add: mean_of_def)
qed

lemma chroma_identity: "finished_value precision (mean_of (stored_value precision sample)) = sample"
proof (cases "sample = 0")
  case True
  then show ?thesis
    by (cases precision) (simp_all add: finished_value_def stored_value_def input_value_0 half_zero mean_of_0 to_u8_0)
next
  case False
  note range = sample_range [OF False]
  from stored_value_close [OF False, of precision] mean_of_close [OF _ range(2)] obtain c
    where c: "mean_of (stored_value precision sample) = (False, c)"
      "close_to c (real (unat sample) * 2 ^ 149 / 255) (2 ^ 138 + 2 ^ 132)" by metis
  show ?thesis
  proof (cases precision)
    case fp16
    from half_round_trip_close [OF c(2) _ range] show ?thesis
      using c(1) fp16 to_u8_close [of _ sample "2 ^ 138 + 2 ^ 132 + 2 ^ 138"] by (auto simp: finished_value_def)
  next
    case fp32
    then show ?thesis using c(1) to_u8_close [OF c(2)] by (simp add: finished_value_def)
  qed
qed

subsection \<open>Frames survive the canvas\<close>

lemma element_at_concat:
  assumes "\<And>i. length (put i) = sz" "i < n"
  shows "element_at sz (concat (map put [0..<n]) @ rest) i = put i"
proof -
  have len: "length (concat (map put [0..<k])) = k * sz" for k
    by (induction k) (simp_all add: assms(1))
  have "[0..<n] = [0..<i] @ i # [Suc i..<n]"
    using upt_add_eq_append [of 0 i "n - i"] assms(2) by (simp add: upt_conv_Cons)
  then have "concat (map put [0..<n]) @ rest = concat (map put [0..<i]) @ put i @ concat (map put [Suc i..<n]) @ rest"
    by simp
  then show ?thesis by (simp add: element_at_def len assms(1))
qed

lemma unat_of_small: "n < 2 ^ LENGTH('a) \<Longrightarrow> unat (word_of_nat n :: 'a::len word) = n"
  by (simp add: unsigned_of_nat take_bit_nat_eq_self)

lemma bits_f32_inverse: "m < 2 ^ 31 \<Longrightarrow> bits_f32 (f32_bits (s, m)) = (s, m)"
  using unat_of_small [of "m + 2 ^ 31", where ?'a = 32] unat_of_small [of m, where ?'a = 32]
  by (cases s) (simp_all add: bits_f32_def f32_bits_def)

lemma bits_half_inverse: "m < 2 ^ 15 \<Longrightarrow> bits_half (half_bits (s, m)) = (s, m)"
  using unat_of_small [of "m + 2 ^ 15", where ?'a = 16] unat_of_small [of m, where ?'a = 16]
  by (cases s) (simp_all add: bits_half_def half_bits_def)

lemma input_half_range: "snd (to_half (input_value sample)) < 2 ^ 15"
proof (cases "sample = 0")
  case False
  from half_round_trip_close [OF input_value_close(2) [of sample] _ sample_range [OF False]]
  show ?thesis using input_value_close(1) [of sample] by auto
qed (simp add: input_value_0 half_zero)

lemma load_concat:
  assumes "index < n"
  shows "load (concat (map (\<lambda>i. store precision (input_value (f i))) [0..<n]) @ rest) precision index
    = stored_value precision (f index)"
proof (cases precision)
  case fp16
  have "element_at 2 (concat (map (\<lambda>i. store fp16 (input_value (f i))) [0..<n]) @ rest) index
      = le_bytes 2 (half_bits (to_half (input_value (f index))))"
    by (subst element_at_concat [OF _ assms]) (simp_all add: store_def)
  then show ?thesis
    using fp16 bits_half_inverse [OF input_half_range [of "f index"], of "fst (to_half (input_value (f index)))"]
    by (simp add: load_def half_at_def le_value_bytes_full stored_value_def)
next
  case fp32
  have "element_at 4 (concat (map (\<lambda>i. store fp32 (input_value (f i))) [0..<n]) @ rest) index
      = le_bytes 4 (f32_bits (input_value (f index)))"
    by (subst element_at_concat [OF _ assms]) (simp_all add: store_def)
  moreover have "snd (input_value (f index)) < 2 ^ 31"
    using input_value_near(2) [of "f index"] by (simp add: inf_mag_def)
  ultimately show ?thesis
    using fp32 bits_f32_inverse [of "snd (input_value (f index))" "fst (input_value (f index))"]
    by (simp add: load_def le_value_bytes_full stored_value_def)
qed

text \<open>A placed frame fits its canvas, and every position of the frame has its place there.\<close>

definition placed_inside :: "placement \<Rightarrow> bool" where
  "placed_inside p \<longleftrightarrow> (if pm_transposed p
     then pm_frame_height p \<le> pm_canvas_width p \<and> pm_frame_width p \<le> pm_canvas_height p
     else pm_frame_width p \<le> pm_canvas_width p \<and> pm_frame_height p \<le> pm_canvas_height p)"

lemma place_inside:
  assumes "place w h model = Inr p"
  shows "placed_inside p" "pm_frame_width p = w" "pm_frame_height p = h" "even (unat w)" "even (unat h)"
proof -
  have "even (unat v)" if "v mod 2 = 0" for v :: u32
    using arg_cong [OF that, of unat] by (simp add: unat_mod_distrib even_iff_mod_2_eq_zero)
  then show "placed_inside p" "pm_frame_width p = w" "pm_frame_height p = h" "even (unat w)" "even (unat h)"
    using assms by (auto simp: place_def placed_inside_def Let_def split: if_splits)
qed

lemma canvas_position:
  assumes "placed_inside p" "channel < 3" "row < unat (pm_frame_height p)" "column < unat (pm_frame_width p)"
  shows "canvas_index p channel row column < 3 * plane_size p"
    "canvas_index p channel row column div plane_size p = channel"
    "source_row p (canvas_index p channel row column mod plane_size p) = row"
    "source_column p (canvas_index p channel row column mod plane_size p) = column"
proof -
  define y where "y = (if pm_transposed p then column else row)"
  define x where "x = (if pm_transposed p then row else column)"
  let ?w = "unat (pm_canvas_width p)" and ?h = "unat (pm_canvas_height p)"
  have xy: "x < ?w" "y < ?h"
    using assms by (auto simp: placed_inside_def x_def y_def word_le_nat_alt split: if_splits)
  have i: "canvas_index p channel row column = channel * plane_size p + (y * ?w + x)"
    by (simp add: canvas_index_def x_def y_def Let_def)
  have "y * ?w + x < Suc y * ?w" using xy by simp
  also have "\<dots> \<le> plane_size p" unfolding plane_size_def using xy(2) by (subst mult.commute) (intro mult_le_mono2, simp)
  finally have in_plane: "y * ?w + x < plane_size p" .
  then show c: "canvas_index p channel row column div plane_size p = channel" unfolding i by simp
  have m: "canvas_index p channel row column mod plane_size p = y * ?w + x" unfolding i using in_plane by simp
  have "canvas_index p channel row column < Suc channel * plane_size p" unfolding i using in_plane by simp
  also have "\<dots> \<le> 3 * plane_size p" using assms(2) by (intro mult_le_mono1) simp
  finally show "canvas_index p channel row column < 3 * plane_size p" .
  have "(y * ?w + x) div ?w = y" "(y * ?w + x) mod ?w = x" using xy(1) by simp_all
  then show "source_row p (canvas_index p channel row column mod plane_size p) = row"
    "source_column p (canvas_index p channel row column mod plane_size p) = column"
    unfolding m using assms(3,4) by (auto simp: source_row_def source_column_def x_def y_def)
qed

lemma load_prepared:
  assumes "placed_inside p" "channel < 3" "row < unat (pm_frame_height p)" "column < unat (pm_frame_width p)"
  shows "load (prepare_input i420 p precision output) precision (canvas_index p channel row column)
    = stored_value precision
        (i420_sample i420 (unat (pm_frame_width p)) (unat (pm_frame_height p)) channel row column)"
  using load_concat [OF canvas_position(1) [OF assms]] canvas_position(2-) [OF assms]
  by (simp add: prepare_input_def Let_def)

lemma chroma_mean_prepared:
  assumes "placed_inside p" "channel \<in> {1, 2}" "row < unat (pm_frame_height p) div 2" "column < unat (pm_frame_width p) div 2"
  shows "chroma_mean (prepare_input i420 p precision output) p precision channel row column
    = mean_of (stored_value precision (i420_sample i420 (unat (pm_frame_width p)) (unat (pm_frame_height p))
        channel (2 * row) (2 * column)))"
proof -
  let ?sample = "i420_sample i420 (unat (pm_frame_width p)) (unat (pm_frame_height p)) channel"
  have "load (prepare_input i420 p precision output) precision (canvas_index p channel r c)
      = stored_value precision (?sample (2 * row) (2 * column))"
    if "r div 2 = row" "c div 2 = column" for r c
  proof -
    have "r < unat (pm_frame_height p)" "c < unat (pm_frame_width p)" using assms(3,4) that by auto
    moreover have "?sample r c = ?sample (2 * row) (2 * column)" using that assms(2) by (auto simp: i420_sample_def)
    ultimately show ?thesis using load_prepared [OF assms(1), of channel r c] assms(2) by auto
  qed
  then show ?thesis by (simp add: chroma_mean_def mean_of_def)
qed

lemma list_in_three_parts:
  assumes "length xs = a + b + b"
  shows "map ((!) xs) [0..<a] @ map (\<lambda>i. xs ! (a + i)) [0..<b] @ map (\<lambda>i. xs ! (a + b + i)) [0..<b] = xs"
  by (rule nth_equalityI) (use assms in \<open>auto simp: nth_append\<close>)

lemma index_split:
  fixes i m n :: nat
  assumes "i < m * n"
  shows "i div n < m" "i mod n < n" "i div n * n + i mod n = i"
proof -
  have "0 < n" using assms by (cases n) simp_all
  then show "i div n < m" "i mod n < n" "i div n * n + i mod n = i"
    using assms by (simp_all add: less_mult_imp_div_less)
qed

lemma finish_output_parts:
  "finish_output x_hat p precision =
     (let width = unat (pm_frame_width p); height = unat (pm_frame_height p);
          chroma = (\<lambda>channel. map (\<lambda>i. finished_value precision
            (chroma_mean x_hat p precision channel (i div (width div 2)) (i mod (width div 2))))
            [0..<(height div 2) * (width div 2)]) in
      map (\<lambda>i. to_u8 (load x_hat precision (canvas_index p 0 (i div width) (i mod width)))) [0..<height * width]
        @ chroma 1 @ chroma 2)"
  by (simp add: finish_output_def finished_value_def Let_def)

text \<open>
  Property C8. A frame laid out on the canvas and read back is the frame, in both precisions, for a
  frame placed upright as for a transposed one: neither the rounding of the samples to singles or halves nor the
  mean of the four copies of a chroma sample loses a level.
\<close>

theorem prepare_finish_identity:
  assumes "place width height model = Inr p"
    "length i420 = unat width * unat height + 2 * ((unat width div 2) * (unat height div 2))"
  shows "finish_output (prepare_input i420 p precision output) p precision = i420"
proof -
  let ?w = "unat width" and ?h = "unat height"
  let ?x = "prepare_input i420 p precision output"
  note p = place_inside [OF assms(1)]
  have luma: "map (\<lambda>i. to_u8 (load ?x precision (canvas_index p 0 (i div ?w) (i mod ?w)))) [0..<?h * ?w]
      = map ((!) i420) [0..<?h * ?w]"
  proof (rule map_cong [OF refl])
    fix i assume "i \<in> set [0..<?h * ?w]"
    then have i: "i div ?w < ?h" "i mod ?w < ?w" "i div ?w * ?w + i mod ?w = i" using index_split [of i ?h ?w] by simp_all
    then show "to_u8 (load ?x precision (canvas_index p 0 (i div ?w) (i mod ?w))) = i420 ! i"
      using load_prepared [OF p(1), of 0 "i div ?w" "i mod ?w"] p(2,3) by (simp add: luma_identity i420_sample_def)
  qed
  have chroma: "map (\<lambda>i. finished_value precision
        (chroma_mean ?x p precision channel (i div (?w div 2)) (i mod (?w div 2)))) [0..<?h div 2 * (?w div 2)]
      = map (\<lambda>i. i420 ! (base + i)) [0..<?h div 2 * (?w div 2)]"
    if "(channel, base) \<in> {(1, ?h * ?w), (2, ?h * ?w + ?h div 2 * (?w div 2))}" for channel base
  proof (rule map_cong [OF refl])
    fix i assume "i \<in> set [0..<?h div 2 * (?w div 2)]"
    then have i: "i div (?w div 2) < ?h div 2" "i mod (?w div 2) < ?w div 2"
      "i div (?w div 2) * (?w div 2) + i mod (?w div 2) = i" using index_split [of i "?h div 2" "?w div 2"] by simp_all
    then show "finished_value precision (chroma_mean ?x p precision channel (i div (?w div 2)) (i mod (?w div 2)))
        = i420 ! (base + i)"
      using chroma_mean_prepared [OF p(1), of channel "i div (?w div 2)" "i mod (?w div 2)"] p(2,3) that
      by (auto simp: chroma_identity i420_sample_def ac_simps)
  qed
  have "length i420 = ?h * ?w + ?h div 2 * (?w div 2) + ?h div 2 * (?w div 2)"
    using assms(2) by (simp add: ac_simps)
  from list_in_three_parts [OF this] show ?thesis
    unfolding finish_output_parts Let_def p(2,3) luma
    using chroma [of 1 "?h * ?w"] chroma [of 2 "?h * ?w + ?h div 2 * (?w div 2)"] by (simp del: map_eq_conv)
qed

theorem prepare_finish_identity_witness:
  "finish_output (prepare_input [16, 32, 48, 235, 1, 0, 77, 128, 64, 255, 3, 200]
     \<lparr>pm_frame_width = 2, pm_frame_height = 4, pm_canvas_width = 5, pm_canvas_height = 3, pm_transposed = True\<rparr> fp16 [])
     \<lparr>pm_frame_width = 2, pm_frame_height = 4, pm_canvas_width = 5, pm_canvas_height = 3, pm_transposed = True\<rparr> fp16
   = [16, 32, 48, 235, 1, 0, 77, 128, 64, 255, 3, 200]"
proof -
  have "place 2 4 (sample_parameters 5 3)
    = Inr \<lparr>pm_frame_width = 2, pm_frame_height = 4, pm_canvas_width = 5, pm_canvas_height = 3, pm_transposed = True\<rparr>"
    by (simp add: place_def sample_parameters_def)
  from prepare_finish_identity [OF this, of "[16, 32, 48, 235, 1, 0, 77, 128, 64, 255, 3, 200]" fp16 "[]"]
  show ?thesis by simp
qed

subsection \<open>Scale indices\<close>

lemma f32_trunc_clamped:
  assumes "0 \<le> maximum" "maximum \<le> 2 ^ 16" "\<not> is_nan v"
  shows "0 \<le> f32_trunc (f32_clamp (f32_abs v) (f32_of_int 0) (f32_of_int maximum))"
    "f32_trunc (f32_clamp (f32_abs v) (f32_of_int 0) (f32_of_int maximum)) \<le> maximum"
proof -
  let ?hi = "f32_of_int maximum"
  note u = f32_of_int_units [OF assms(1,2)] and o = f32_of_int_ordinary [OF assms(1,2)]
  have z: "f32_of_int 0 = (False, 0)" by (simp add: f32_of_int_def)
  have t: "f32_trunc (False, k) \<le> maximum" if "k \<le> snd ?hi" for k
  proof -
    have "mag_units k \<le> nat maximum * unit_scale" using that mag_units_le_iff [of k "snd ?hi"] u(1) by simp
    then have "mag_units k div unit_scale \<le> nat maximum * unit_scale div unit_scale" by (rule div_le_mono)
    then show ?thesis using assms(1) by (simp add: f32_trunc_def unit_scale_def le_nat_iff)
  qed
  have hi: "?hi = (False, snd ?hi)" by (rule f32_of_int_pair [OF assms(1)])
  have c: "f32_clamp (f32_abs v) (f32_of_int 0) ?hi = (False, min (snd v) (snd ?hi))"
    using o assms(3) by (subst hi, auto simp: f32_clamp_def f32_less_def f32_abs_def z is_nan_def min_def)
  show "0 \<le> f32_trunc (f32_clamp (f32_abs v) (f32_of_int 0) ?hi)"
    "f32_trunc (f32_clamp (f32_abs v) (f32_of_int 0) ?hi) \<le> maximum"
    unfolding c using t [of "min (snd v) (snd ?hi)"] by (simp_all add: f32_trunc_def)
qed

lemma f32_of_int_finite: "\<bar>i\<bar> \<le> 2 ^ 31 \<Longrightarrow> is_finite (f32_of_int i)"
proof -
  assume "\<bar>i\<bar> \<le> 2 ^ 31"
  then have "nat \<bar>i\<bar> * unit_scale < 1 * 2 ^ 270" by (simp add: unit_scale_def)
  then show ?thesis using round_mag_finite [of 1 "nat \<bar>i\<bar> * unit_scale"] by (simp add: is_finite_def f32_of_int_def)
qed

text \<open>Rounding up covers what rounding down leaves out.\<close>

lemma div_div_less_ceiling:
  fixes n d s :: nat
  assumes "0 < d" "0 < s" "i < n div d"
  shows "i div s < (n + d * s - 1) div (d * s)"
proof -
  have "i div s < m" if "n \<le> d * s * m" for m
  proof -
    have "n div d \<le> s * m" using div_le_mono [OF that, of d] assms(1) by (simp add: mult.assoc)
    then show ?thesis using assms(2,3) by (simp add: less_mult_imp_div_less mult.commute)
  qed
  moreover have "n \<le> d * s * ((n + d * s - 1) div (d * s))"
  proof -
    have "n + d * s - 1 < d * s * ((n + d * s - 1) div (d * s)) + d * s"
      using assms(1,2) by (metis dividend_less_times_div nat_0_less_mult_iff add.commute mult_Suc_right)
    then show ?thesis using assms(1,2) by linarith
  qed
  ultimately show ?thesis .
qed

lemma ceiling_word:
  fixes n s :: u32
  assumes "unat n + unat s \<le> 2 ^ 32" "s \<noteq> 0"
  shows "unat ((n + s - 1) div s) = (unat n + unat s - 1) div unat s"
proof -
  have s: "0 < unat s" using assms(2) by (simp add: unat_gt_0)
  have "n + s - 1 = word_of_nat (unat n + unat s - 1)" using s by (simp add: of_nat_diff)
  then have "unat (n + s - 1) = unat n + unat s - 1" using assms(1) s unat_of_small [of "unat n + unat s - 1", where ?'a = 32] by simp
  then show ?thesis by (simp add: unat_div_distrib)
qed

text \<open>The bundle's checks plus strides that stay below \<open>2 ^ 32\<close>.\<close>

definition strides_fit :: "model_parameters \<Rightarrow> bool" where
  "strides_fit model \<longleftrightarrow>
     (let stride = unat (mp_downsample_latent model) * unat (mp_downsample_hyperprior model) in
      unat (mp_width model) + stride \<le> 2 ^ 32 \<and> unat (mp_height model) + stride \<le> 2 ^ 32 \<and> stride < 2 ^ 32)"

definition z_count :: "model_parameters \<Rightarrow> nat" where
  "z_count model = (let shape = latent_shape_of model in
     unat (ls_z_channels shape) * unat (ls_z_height shape) * unat (ls_z_width shape))"

lemma latent_shape_simps:
  "ls_y_channels (latent_shape_of model) = mp_latent_channels model div 2"
  "ls_y_height (latent_shape_of model) = mp_height model div mp_downsample_latent model"
  "ls_y_width (latent_shape_of model) = mp_width model div mp_downsample_latent model"
  "ls_z_channels (latent_shape_of model) = mp_hyperprior_channels model"
  "ls_z_height (latent_shape_of model) =
     (let z_stride = mp_downsample_latent model * mp_downsample_hyperprior model in
      (mp_height model + z_stride - 1) div z_stride)"
  "ls_z_width (latent_shape_of model) =
     (let z_stride = mp_downsample_latent model * mp_downsample_hyperprior model in
      (mp_width model + z_stride - 1) div z_stride)"
  by (simp_all add: latent_shape_of_def Let_def)

lemma z_extent:
  assumes "strides_fit model" "shapes_valid model"
  shows "y < unat (ls_y_height (latent_shape_of model)) \<Longrightarrow>
      y div unat (mp_downsample_hyperprior model) < unat (ls_z_height (latent_shape_of model))"
    "x < unat (ls_y_width (latent_shape_of model)) \<Longrightarrow>
      x div unat (mp_downsample_hyperprior model) < unat (ls_z_width (latent_shape_of model))"
proof -
  let ?d = "mp_downsample_latent model" and ?s = "mp_downsample_hyperprior model"
  have pos: "0 < unat ?d" "0 < unat ?s" using assms(2) by (simp_all add: shapes_valid_def unat_gt_0 word_gt_0)
  have st: "unat ?d * unat ?s < 2 ^ 32" "unat (mp_width model) + unat ?d * unat ?s \<le> 2 ^ 32"
    "unat (mp_height model) + unat ?d * unat ?s \<le> 2 ^ 32" using assms(1) by (simp_all add: strides_fit_def Let_def)
  have u: "unat (?d * ?s) = unat ?d * unat ?s" using st(1) by (simp add: unat_mult_lem [THEN iffD1])
  have nz: "?d * ?s \<noteq> 0" using u pos by (metis mult_pos_pos unsigned_0 less_irrefl)
  have z: "unat (ls_z_height (latent_shape_of model)) = (unat (mp_height model) + unat ?d * unat ?s - 1) div (unat ?d * unat ?s)"
    "unat (ls_z_width (latent_shape_of model)) = (unat (mp_width model) + unat ?d * unat ?s - 1) div (unat ?d * unat ?s)"
    using ceiling_word [OF _ nz, of "mp_height model"] ceiling_word [OF _ nz, of "mp_width model"] st(2,3)
    unfolding u by (simp_all only: latent_shape_simps Let_def)
  show "y < unat (ls_y_height (latent_shape_of model)) \<Longrightarrow> y div unat ?s < unat (ls_z_height (latent_shape_of model))"
    "x < unat (ls_y_width (latent_shape_of model)) \<Longrightarrow> x div unat ?s < unat (ls_z_width (latent_shape_of model))"
    unfolding z by (rule div_div_less_ceiling [OF pos]; simp add: latent_shape_simps unat_div_distrib)+
qed

lemma row_major_less:
  fixes a b c :: nat
  assumes "i < a" "j < b" "k < c"
  shows "(i * b + j) * c + k < a * b * c"
proof -
  have "i * b + j < a * b" using assms(1,2) by (metis add_less_cancel_left less_le_trans mult_Suc mult_le_mono1 Suc_leI add.commute)
  then show ?thesis using assms(3) by (metis add_less_cancel_left less_le_trans mult_Suc mult_le_mono1 Suc_leI add.commute)
qed

lemma scale_source_less:
  assumes "strides_fit model" "shapes_valid model" "channel < 2 * unat (ls_y_channels (latent_shape_of model))"
    "y < unat (ls_y_height (latent_shape_of model))" "x < unat (ls_y_width (latent_shape_of model))"
  shows "scale_source model channel y x < z_count model"
proof -
  let ?r = "unat (mp_y_scale_repeat model)"
  have "mp_latent_channels model mod mp_y_scale_repeat model = 0" using assms(2) by (simp only: shapes_valid_def)
  then have r0: "unat (mp_latent_channels model) mod ?r = 0" by (metis unat_mod_distrib unsigned_0)
  have r: "0 < ?r" "unat (mp_latent_channels model) div ?r \<le> unat (mp_hyperprior_channels model)"
    "channel < unat (mp_latent_channels model)"
    using assms(2,3) by (auto simp: shapes_valid_def unat_gt_0 word_gt_0 word_le_nat_alt unat_div_distrib unat_mod_distrib latent_shape_simps Let_def)
  have "channel < unat (mp_latent_channels model) div ?r * ?r" using r0 r(3) by (metis div_mult_mod_eq add.right_neutral)
  then have "channel div ?r < unat (ls_z_channels (latent_shape_of model))"
    using less_mult_imp_div_less [of channel "unat (mp_latent_channels model) div ?r" ?r] r(2) by (simp add: latent_shape_simps Let_def)
  then show ?thesis unfolding scale_source_def z_count_def Let_def
    by (rule row_major_less [OF _ z_extent(1) [OF assms(1,2,4)] z_extent(2) [OF assms(1,2,5)]])
qed

lemma y_position:
  fixes index half h w :: nat
  assumes "index < half * h * w"
  shows "index div w div h < half" "index div w mod h < h" "index mod w < w"
proof -
  have "index div w < half * h" "index mod w < w" using index_split [OF assms] by simp_all
  moreover from index_split [OF this(1)] have "index div w div h < half" "index div w mod h < h" by simp_all
  ultimately show "index div w div h < half" "index div w mod h < h" "index mod w < w" by simp_all
qed

text \<open>
  The scale indices that select the Gaussian distributions of a frame lie inside the
  tables: for hyperprior symbols in the range of \<open>int32\<close> and parameters that pass the bundle's checks, every read
  of the hyperprior is inside it, and there is one index per latent, between zero and the last level.
\<close>

lemma extract_scales_in_range:
  assumes "shapes_valid model" "strides_fit model" "length symbols = z_count model" "\<forall>s \<in> set symbols. \<bar>s\<bar> \<le> 2 ^ 31"
    "0 < scale_levels" "scale_levels \<le> 2 ^ 16"
  shows "let sc = extract_scales (map f32_of_int symbols) model scale_levels; shape = latent_shape_of model;
             count = unat (ls_y_channels shape) * unat (ls_y_height shape) * unat (ls_y_width shape) in
    length (sc_scales_0 sc) = count \<and> length (sc_scales_1 sc) = count \<and>
    (\<forall>i \<in> set (sc_scales_0 sc @ sc_scales_1 sc). 0 \<le> i \<and> i < uint scale_levels) \<and>
    (\<forall>channel y x. channel < 2 * unat (ls_y_channels shape) \<longrightarrow> y < unat (ls_y_height shape) \<longrightarrow>
       x < unat (ls_y_width shape) \<longrightarrow> scale_source model channel y x < length symbols)"
proof -
  let ?s = "latent_shape_of model"
  let ?z = "map f32_of_int symbols"
  have m: "0 \<le> uint (scale_levels - 1)" "uint (scale_levels - 1) \<le> 2 ^ 16" "uint (scale_levels - 1) < uint scale_levels"
    using assms(5,6) by (simp_all add: uint_minus_simple_alt [THEN iffD1] word_less_def word_le_def)
  have at: "0 \<le> f32_trunc (scale_at ?z model scale_levels channel y x) \<and>
      f32_trunc (scale_at ?z model scale_levels channel y x) < uint scale_levels"
    if "channel < 2 * unat (ls_y_channels ?s)" "y < unat (ls_y_height ?s)" "x < unat (ls_y_width ?s)" for channel y x
  proof -
    have src: "scale_source model channel y x < length symbols"
      using scale_source_less [OF assms(2,1) that] assms(3) by simp
    then have "\<not> is_nan (?z ! scale_source model channel y x)"
      using assms(4) f32_of_int_finite by (simp add: is_nan_def is_finite_def not_less less_imp_le)
    from f32_trunc_clamped [OF m(1,2) this] show ?thesis using m(3) by (simp add: scale_at_def)
  qed
  show ?thesis
    using at scale_source_less [OF assms(2,1)] assms(3) y_position
    by (auto simp: extract_scales_def Let_def dest!: y_position)
qed

lemma extract_scales_in_range_witness:
  "list_all (\<lambda>i. 0 \<le> i \<and> i < 64)
     (sc_scales_0 (extract_scales (map f32_of_int (replicate 1920 (- 7))) (sample_parameters 320 192) 64))"
proof -
  have "shapes_valid (sample_parameters 320 192)" by (simp add: shapes_valid_def sample_parameters_def)
  moreover have "strides_fit (sample_parameters 320 192)" by (simp add: strides_fit_def sample_parameters_def)
  moreover have "length (replicate 1920 (- 7 :: int)) = z_count (sample_parameters 320 192)"
    by (simp add: z_count_def latent_shape_of_def sample_parameters_def)
  ultimately show ?thesis
    using extract_scales_in_range [of "sample_parameters 320 192" "replicate 1920 (- 7)" 64]
    by (simp add: list_all_iff Let_def del: map_replicate)
qed

end
