(* ===== verification/MlvcEntropy.thy ===== *)
theory MlvcEntropy
  imports MlvcHost
begin

text \<open>
  The entropy coder of a frame's latents, \<^verbatim>\<open>src/mlvc/entropy.cpp\<close>. The rANS library
  \<open>msrtc_rans\<close> is not part of the sources: its calls are the fields of a record every operation takes as
  an argument. A stream a call changes is passed on; an \<open>std::error_code\<close> is its message.
\<close>

subsection \<open>The rANS library\<close>

record ('enc, 'dec, 'w, 'r) rans_library =
  lib_encoder_initialize :: "pmf_table \<Rightarrow> nat \<Rightarrow> nat \<Rightarrow> string + 'enc"
  lib_decoder_initialize :: "pmf_table \<Rightarrow> nat \<Rightarrow> nat \<Rightarrow> string + 'dec"
  lib_encoder_stream :: "string + 'w"
  lib_encode :: "'enc \<Rightarrow> 'w \<Rightarrow> int list \<Rightarrow> int list \<Rightarrow> string + 'w"
  lib_flush :: "'w \<Rightarrow> byte list"
  lib_decoder_stream :: "string + 'r"
  lib_open :: "'r \<Rightarrow> byte list \<Rightarrow> string + 'r"
  lib_decode :: "'dec \<Rightarrow> nat \<Rightarrow> int list \<Rightarrow> 'r \<Rightarrow> string + int list \<times> 'r"
  lib_check_eof :: "'r \<Rightarrow> bool"

definition rans_error :: "error_code \<Rightarrow> string \<Rightarrow> string \<Rightarrow> error" where
  "rans_error c what msg = Error c (what @ '': '' @ msg) ''mlvc.entropy''"

definition entropy_error :: "error_code \<Rightarrow> string \<Rightarrow> error" where
  "entropy_error c msg = Error c msg ''mlvc.entropy''"

definition checked :: "error_code \<Rightarrow> string \<Rightarrow> string + 'a \<Rightarrow> 'a result" where
  "checked c what outcome = (case outcome of Inl msg \<Rightarrow> Inl (rans_error c what msg) | Inr v \<Rightarrow> Inr v)"

definition symbol_bits :: nat where "symbol_bits = 16"
definition bypass_bits :: nat where "bypass_bits = 2"

subsection \<open>The coder\<close>

record latent_symbols =
  sy_z :: "int list"
  sy_y_0 :: "int list"
  sy_y_1 :: "int list"

record ('enc, 'dec) entropy_coder =
  ec_gaussian_encoder :: 'enc
  ec_gaussian_decoder :: 'dec
  ec_z_encoder :: 'enc
  ec_z_decoder :: 'dec
  ec_parameters :: model_parameters
  ec_scale_levels :: u32
  ec_z_qp_num :: u32
  ec_shape :: latent_shape

text \<open>The index is a product of \<open>uint32\<close> values, widened, and converted to \<open>int32\<close>.\<close>

definition z_index :: "latent_shape \<Rightarrow> u32 \<Rightarrow> nat \<Rightarrow> int" where
  "z_index shape q_index channel =
     sint (ucast (ucast (q_index * ls_z_channels shape) + (word_of_nat channel :: u64)) :: 32 word)"

definition z_indices :: "latent_shape \<Rightarrow> u32 \<Rightarrow> int list" where
  "z_indices shape q_index =
     (let plane = unat (ls_z_height shape) * unat (ls_z_width shape) in
      concat (map (\<lambda>channel. replicate plane (z_index shape q_index channel)) [0..<unat (ls_z_channels shape)]))"

definition entropy_create :: "('enc, 'dec, 'w, 'r) rans_library \<Rightarrow> bundle_model \<Rightarrow> ('enc, 'dec) entropy_coder result" where
  "entropy_create lib model =
     (let gaussian = ga_pmf (bm_gaussian model); bit = be_pmf (bm_bit_estimator model) in
      res_bind (checked invalid_argument ''Gaussian encoder''
        (lib_encoder_initialize lib gaussian symbol_bits bypass_bits)) (\<lambda>gaussian_encoder.
      res_bind (checked invalid_argument ''Gaussian decoder''
        (lib_decoder_initialize lib gaussian symbol_bits bypass_bits)) (\<lambda>gaussian_decoder.
      res_bind (checked invalid_argument ''bit-estimator encoder''
        (lib_encoder_initialize lib bit symbol_bits bypass_bits)) (\<lambda>z_encoder.
      res_bind (checked invalid_argument ''bit-estimator decoder''
        (lib_decoder_initialize lib bit symbol_bits bypass_bits)) (\<lambda>z_decoder.
      Inr \<lparr>ec_gaussian_encoder = gaussian_encoder, ec_gaussian_decoder = gaussian_decoder,
        ec_z_encoder = z_encoder, ec_z_decoder = z_decoder, ec_parameters = bm_parameters model,
        ec_scale_levels = ga_scale_levels (bm_gaussian model), ec_z_qp_num = be_qp_num (bm_bit_estimator model),
        ec_shape = latent_shape_of (bm_parameters model)\<rparr>)))))"

definition entropy_encode :: "('enc, 'dec, 'w, 'r) rans_library \<Rightarrow> ('enc, 'dec) entropy_coder \<Rightarrow> latent_symbols \<Rightarrow> u32
    \<Rightarrow> byte list result" where
  "entropy_encode lib coder symbols q_index =
     (let shape = ec_shape coder in
      if q_index \<ge> ec_z_qp_num coder \<or> length (sy_z symbols) \<noteq> unat (z_elements shape)
         \<or> length (sy_y_0 symbols) \<noteq> unat (y_elements shape) \<or> length (sy_y_1 symbols) \<noteq> unat (y_elements shape) then
        Inl (entropy_error invalid_argument ''MLVC latent symbols do not match the model'')
      else
        let z = map f32_of_int (sy_z symbols);
            scales = extract_scales z (ec_parameters coder) (ec_scale_levels coder);
            zi = z_indices shape q_index in
        res_bind (checked internal_error ''rANS stream'' (lib_encoder_stream lib)) (\<lambda>stream.
        res_bind (checked internal_error ''y_raw_1''
          (lib_encode lib (ec_gaussian_encoder coder) stream (sc_scales_1 scales) (sy_y_1 symbols))) (\<lambda>stream.
        res_bind (checked internal_error ''y_raw_0''
          (lib_encode lib (ec_gaussian_encoder coder) stream (sc_scales_0 scales) (sy_y_0 symbols))) (\<lambda>stream.
        res_bind (checked internal_error ''z_raw''
          (lib_encode lib (ec_z_encoder coder) stream zi (sy_z symbols))) (\<lambda>stream.
        Inr (lib_flush lib stream))))))"

definition entropy_decode :: "('enc, 'dec, 'w, 'r) rans_library \<Rightarrow> ('enc, 'dec) entropy_coder \<Rightarrow> byte list \<Rightarrow> u32
    \<Rightarrow> latent_symbols result" where
  "entropy_decode lib coder payload q_index =
     (let shape = ec_shape coder in
      if q_index \<ge> ec_z_qp_num coder then
        Inl (entropy_error malformed_bitstream ''MLVC Q index is outside the PMF table'')
      else
        res_bind (checked internal_error ''rANS stream'' (lib_decoder_stream lib)) (\<lambda>stream.
        res_bind (checked malformed_bitstream ''MLVC payload'' (lib_open lib stream payload)) (\<lambda>stream.
        let zi = z_indices shape q_index in
        res_bind (checked malformed_bitstream ''z_raw''
          (lib_decode lib (ec_z_decoder coder) (unat (z_elements shape)) zi stream)) (\<lambda>(z_symbols, stream).
        let z = map f32_of_int z_symbols;
            scales = extract_scales z (ec_parameters coder) (ec_scale_levels coder) in
        res_bind (checked malformed_bitstream ''y_raw_0''
          (lib_decode lib (ec_gaussian_decoder coder) (unat (y_elements shape)) (sc_scales_0 scales) stream)) (\<lambda>(y_0, stream).
        res_bind (checked malformed_bitstream ''y_raw_1''
          (lib_decode lib (ec_gaussian_decoder coder) (unat (y_elements shape)) (sc_scales_1 scales) stream)) (\<lambda>(y_1, stream).
        if \<not> lib_check_eof lib stream then
          Inl (entropy_error malformed_bitstream ''MLVC payload has data after the last symbol'')
        else Inr \<lparr>sy_z = z_symbols, sy_y_0 = y_0, sy_y_1 = y_1\<rparr>))))))"

subsection \<open>What the coder relies on\<close>

text \<open>
  The documented contract of a rANS stream: it is a stack. \<open>stands r w\<close> reads: the decoder stream \<open>r\<close> stands where
  the encoder stream \<open>w\<close> stood. Opening the flushed bytes stands at the final state, decoding with the
  decoder of the same table what was encoded last gives it back and stands where it was pushed, and the initial
  state is the end of the stream.
\<close>

definition stack_stream :: "('enc, 'dec, 'w, 'r) rans_library \<Rightarrow> ('r \<Rightarrow> 'w \<Rightarrow> bool) \<Rightarrow> bool" where
  "stack_stream lib stands \<longleftrightarrow>
     (\<exists>r. lib_decoder_stream lib = Inr r \<and> (\<forall>w. \<exists>r'. lib_open lib r (lib_flush lib w) = Inr r' \<and> stands r' w)) \<and>
     (\<forall>table s b enc dec w w' r indices symbols.
        lib_encoder_initialize lib table s b = Inr enc \<longrightarrow> lib_decoder_initialize lib table s b = Inr dec \<longrightarrow>
        lib_encode lib enc w indices symbols = Inr w' \<longrightarrow> stands r w' \<longrightarrow>
        (\<exists>r'. lib_decode lib dec (length symbols) indices r = Inr (symbols, r') \<and> stands r' w)) \<and>
     (\<forall>w r. lib_encoder_stream lib = Inr w \<longrightarrow> stands r w \<longrightarrow> lib_check_eof lib r)"

lemma checked_Inr [simp]: "checked c what outcome = Inr v \<longleftrightarrow> outcome = Inr v"
  by (auto simp: checked_def split: sum.splits)

lemma checked_of_Inr [simp]: "checked c what (Inr v) = Inr v"
  by (simp add: checked_def)

lemma stack_decode:
  assumes "stack_stream lib stands" "lib_encoder_initialize lib table s b = Inr enc"
    "lib_decoder_initialize lib table s b = Inr dec" "lib_encode lib enc w indices symbols = Inr w'" "stands r w'"
    "length symbols = n"
  obtains r' where "lib_decode lib dec n indices r = Inr (symbols, r')" "stands r' w"
  using assms unfolding stack_stream_def by metis

lemma entropy_decode_encode:
  assumes "stack_stream lib stands" "entropy_create lib model = Inr coder"
    "entropy_encode lib coder symbols q_index = Inr payload"
  shows "entropy_decode lib coder payload q_index = Inr symbols"
proof -
  let ?shape = "ec_shape coder"
  let ?scales = "extract_scales (map f32_of_int (sy_z symbols)) (ec_parameters coder) (ec_scale_levels coder)"
  from assms(2) obtain
    g: "lib_encoder_initialize lib (ga_pmf (bm_gaussian model)) symbol_bits bypass_bits = Inr (ec_gaussian_encoder coder)"
       "lib_decoder_initialize lib (ga_pmf (bm_gaussian model)) symbol_bits bypass_bits = Inr (ec_gaussian_decoder coder)"
    and b: "lib_encoder_initialize lib (be_pmf (bm_bit_estimator model)) symbol_bits bypass_bits = Inr (ec_z_encoder coder)"
       "lib_decoder_initialize lib (be_pmf (bm_bit_estimator model)) symbol_bits bypass_bits = Inr (ec_z_decoder coder)"
    unfolding entropy_create_def Let_def result_simps checked_Inr by auto
  from assms(3) obtain w0 w1 w2 w3 where
    guard: "\<not> q_index \<ge> ec_z_qp_num coder" "length (sy_z symbols) = unat (z_elements ?shape)"
      "length (sy_y_0 symbols) = unat (y_elements ?shape)" "length (sy_y_1 symbols) = unat (y_elements ?shape)"
    and enc: "lib_encoder_stream lib = Inr w0"
      "lib_encode lib (ec_gaussian_encoder coder) w0 (sc_scales_1 ?scales) (sy_y_1 symbols) = Inr w1"
      "lib_encode lib (ec_gaussian_encoder coder) w1 (sc_scales_0 ?scales) (sy_y_0 symbols) = Inr w2"
      "lib_encode lib (ec_z_encoder coder) w2 (z_indices ?shape q_index) (sy_z symbols) = Inr w3"
    and payload: "payload = lib_flush lib w3"
    unfolding entropy_encode_def Let_def result_simps checked_Inr by auto
  from assms(1) obtain r r3 where op: "lib_decoder_stream lib = Inr r" "lib_open lib r payload = Inr r3" "stands r3 w3"
    unfolding stack_stream_def payload by metis
  from stack_decode [OF assms(1) b enc(4) op(3) guard(2)] obtain r2
    where z: "lib_decode lib (ec_z_decoder coder) (unat (z_elements ?shape)) (z_indices ?shape q_index) r3 = Inr (sy_z symbols, r2)"
      "stands r2 w2" .
  from stack_decode [OF assms(1) g enc(3) z(2) guard(3)] obtain r1
    where y0: "lib_decode lib (ec_gaussian_decoder coder) (unat (y_elements ?shape)) (sc_scales_0 ?scales) r2 = Inr (sy_y_0 symbols, r1)"
      "stands r1 w1" .
  from stack_decode [OF assms(1) g enc(2) y0(2) guard(4)] obtain r0
    where y1: "lib_decode lib (ec_gaussian_decoder coder) (unat (y_elements ?shape)) (sc_scales_1 ?scales) r1 = Inr (sy_y_1 symbols, r0)"
      "stands r0 w0" .
  have "lib_check_eof lib r0" using assms(1) enc(1) y1(2) unfolding stack_stream_def by blast
  then show ?thesis using guard(1) op(1,2) z(1) y0(1) y1(1) by (simp add: entropy_decode_def)
qed


subsection \<open>A library that meets the contract\<close>

text \<open>Symbols of one byte, pushed in front of what was pushed before.\<close>

definition byte_library :: "(unit, unit, byte list, byte list) rans_library" where
  "byte_library =
     \<lparr>lib_encoder_initialize = (\<lambda>table s b. Inr ()), lib_decoder_initialize = (\<lambda>table s b. Inr ()),
      lib_encoder_stream = Inr [],
      lib_encode = (\<lambda>enc w indices symbols.
        if \<forall>s \<in> set symbols. 0 \<le> s \<and> s < 256 then Inr (map word_of_int symbols @ w) else Inl ''symbol range''),
      lib_flush = (\<lambda>w. w),
      lib_decoder_stream = Inr [], lib_open = (\<lambda>r bytes. Inr bytes),
      lib_decode = (\<lambda>dec n indices r. if length r < n then Inl ''end of stream'' else Inr (map uint (take n r), drop n r)),
      lib_check_eof = (\<lambda>r. r = [])\<rparr>"

lemma byte_library_stack: "stack_stream byte_library (=)"
proof -
  have "map (\<lambda>s. take_bit 8 s) symbols = symbols" if "\<forall>s \<in> set symbols. 0 \<le> s \<and> s < (256 :: int)" for symbols
    using that by (intro map_idI) (simp add: take_bit_int_eq_self)
  then show ?thesis by (auto simp: stack_stream_def byte_library_def uint_word_of_int_eq comp_def)
qed

definition small_model :: bundle_model where
  "small_model = (sample_model 2 1 ''2x1'')\<lparr>bm_parameters := (sample_parameters 2 1)\<lparr>mp_latent_channels := 2,
     mp_hyperprior_channels := 2, mp_downsample_latent := 1, mp_downsample_hyperprior := 1\<rparr>\<rparr>"

definition small_coder :: "(unit, unit) entropy_coder" where
  "small_coder = \<lparr>ec_gaussian_encoder = (), ec_gaussian_decoder = (), ec_z_encoder = (), ec_z_decoder = (),
     ec_parameters = bm_parameters small_model, ec_scale_levels = 1, ec_z_qp_num = 64,
     ec_shape = latent_shape_of (bm_parameters small_model)\<rparr>"

lemma small_coder_created: "entropy_create byte_library small_model = Inr small_coder"
  by (simp add: entropy_create_def byte_library_def small_coder_def small_model_def sample_model_def)

lemma small_shape:
  "unat (z_elements (ec_shape small_coder)) = 4" "unat (y_elements (ec_shape small_coder)) = 2"
  by (simp_all add: small_coder_def small_model_def sample_model_def sample_parameters_def latent_shape_of_def
      z_elements_def y_elements_def)


end
