(* ===== verification/MlvcSequence.thy ===== *)
theory MlvcSequence
  imports MlvcBundle OrdMaps ByteIO
begin

text \<open>
  \<^verbatim>\<open>src/mlvc/sequence.hpp\<close> and \<^verbatim>\<open>src/mlvc/record.cpp\<close>, \<^verbatim>\<open>src/mlvc/record.hpp\<close>: MLVC frame scheduling, the
  store of reference features and the frame record of the bitstream. \<open>std::map\<close> is the ordered
  map of \<open>OrdMaps\<close>, used through its locale. A feature tensor is a value of type \<open>'f\<close>.
\<close>

subsection \<open>Frame records\<close>

record frame_record =
  rec_q_index :: i32
  rec_payload :: "byte list"

definition dropped_frame_q_index :: i32 where
  "dropped_frame_q_index = - 1"

definition record_error :: "error_code \<Rightarrow> string \<Rightarrow> error" where
  "record_error c msg = Error c msg ''mlvc.record''"

definition record_write_u32 :: "byte list \<Rightarrow> u32 \<Rightarrow> byte list" where
  "record_write_u32 output value =
     fold (\<lambda>shift out. out @ [ucast (drop_bit shift value AND 0xff)]) [0, 8, 16, 24] output"

definition record_read_u32 :: "byte list \<Rightarrow> u32" where
  "record_read_u32 bytes =
     fold (\<lambda>index value. value OR push_bit (index * 8) (ucast (bytes ! index))) [0, 1, 2, 3] 0"

definition serialize_record :: "(nat \<Rightarrow> bool) \<Rightarrow> i32 \<Rightarrow> byte list \<Rightarrow> byte list result" where
  "serialize_record alloc q_index payload =
     (if length payload > 2 ^ 32 - 1 then
        Inl (record_error resource_exhausted ''MLVC record payload is too large'')
      else if q_index = dropped_frame_q_index \<and> payload \<noteq> [] then
        Inl (record_error invalid_argument ''a dropped MLVC frame has no payload'')
      else if \<not> alloc (8 + length payload) then
        Inl (record_error resource_exhausted ''MLVC record allocation failed'')
      else
        Inr (record_write_u32 (record_write_u32 [] q_index) (word_of_nat (length payload)) @ payload))"

definition parse_record :: "byte list \<Rightarrow> frame_record result" where
  "parse_record bytes =
     (if length bytes < 8 then
        Inl (record_error malformed_bitstream ''MLVC record header is truncated'')
      else
        let q_index = record_read_u32 (take 4 bytes);
            len = record_read_u32 (take 4 (drop 4 bytes)) in
        if unat len \<noteq> length bytes - 8 then
          Inl (record_error malformed_bitstream ''MLVC record length does not match the access unit'')
        else if sint q_index < sint dropped_frame_q_index
            \<or> q_index = dropped_frame_q_index \<and> len \<noteq> 0 then
          Inl (record_error malformed_bitstream ''MLVC record has an invalid Q index'')
        else Inr \<lparr>rec_q_index = q_index, rec_payload = drop 8 bytes\<rparr>)"

subsection \<open>Scheduling\<close>

datatype frame_class = intra_class | predicted_class | ltr_recovery

record loop_parameters =
  lp_iframe_period :: "u32 option"
  lp_reset_period :: "u32 option"
  lp_ltr_start_idx :: u32
  lp_ltr_period :: "u32 option"
  lp_proactive_ltr_recovery :: bool

definition from_model :: "model_parameters \<Rightarrow> loop_parameters" where
  "from_model model =
     \<lparr>lp_iframe_period = mp_iframe_period model, lp_reset_period = mp_reset_period model,
      lp_ltr_start_idx = mp_ltr_start_idx model, lp_ltr_period = mp_ltr_period model,
      lp_proactive_ltr_recovery = True\<rparr>"

record frame_plan =
  pl_frame_class :: frame_class
  pl_coded_index :: u64
  pl_reference :: "u64 option"
  pl_mark_as_ltr :: bool
  pl_feature_reset :: bool

definition droppable :: "frame_plan \<Rightarrow> bool" where
  "droppable p \<longleftrightarrow>
     pl_frame_class p = predicted_class \<and> \<not> pl_mark_as_ltr p \<and> \<not> pl_feature_reset p"

record frame_scheduler =
  fs_parameters :: loop_parameters
  fs_started :: bool
  fs_coded_index :: u64
  fs_latest_ltr :: "u64 option"

definition make_scheduler :: "loop_parameters \<Rightarrow> frame_scheduler" where
  "make_scheduler parameters =
     \<lparr>fs_parameters = parameters, fs_started = False, fs_coded_index = 0, fs_latest_ltr = None\<rparr>"

definition divides_index :: "u32 option \<Rightarrow> u64 \<Rightarrow> bool" where
  "divides_index period index = (case period of None \<Rightarrow> False | Some n \<Rightarrow> index mod ucast n = 0)"

definition plan :: "bool option \<Rightarrow> frame_scheduler \<Rightarrow> frame_plan" where
  "plan stream_intra s =
     (let parameters = fs_parameters s;
          intra = (\<not> fs_started s \<or> divides_index (lp_iframe_period parameters) (fs_coded_index s));
          intra = (case stream_intra of Some b \<Rightarrow> b | None \<Rightarrow> intra);
          index = (if intra then 0 else fs_coded_index s);
          latest_ltr = (if intra then None else fs_latest_ltr s);
          feature_reset = divides_index (lp_reset_period parameters) (index + 1);
          mark_as_ltr = (case lp_ltr_period parameters of
             None \<Rightarrow> False
           | Some n \<Rightarrow> n > 0 \<and> (index = ucast (lp_ltr_start_idx parameters)
               \<or> index > ucast (lp_ltr_start_idx parameters) \<and> index mod ucast n = 0)) in
      if intra then
        \<lparr>pl_frame_class = intra_class, pl_coded_index = index, pl_reference = None,
         pl_mark_as_ltr = mark_as_ltr, pl_feature_reset = feature_reset\<rparr>
      else if lp_proactive_ltr_recovery parameters \<and> mark_as_ltr \<and> latest_ltr \<noteq> None then
        \<lparr>pl_frame_class = ltr_recovery, pl_coded_index = index, pl_reference = latest_ltr,
         pl_mark_as_ltr = mark_as_ltr, pl_feature_reset = feature_reset\<rparr>
      else
        \<lparr>pl_frame_class = predicted_class, pl_coded_index = index, pl_reference = Some (index - 1),
         pl_mark_as_ltr = mark_as_ltr, pl_feature_reset = feature_reset\<rparr>)"

definition scheduler_commit :: "frame_plan \<Rightarrow> frame_scheduler \<Rightarrow> frame_scheduler" where
  "scheduler_commit p s =
     (let s = s\<lparr>fs_started := True\<rparr>;
          s = (if pl_frame_class p = intra_class then s\<lparr>fs_latest_ltr := None\<rparr> else s);
          s = (if pl_mark_as_ltr p then s\<lparr>fs_latest_ltr := Some (pl_coded_index p)\<rparr> else s) in
      s\<lparr>fs_coded_index := pl_coded_index p + 1\<rparr>)"

definition scheduler_reset :: "frame_scheduler \<Rightarrow> frame_scheduler" where
  "scheduler_reset s = s\<lparr>fs_started := False, fs_coded_index := 0, fs_latest_ltr := None\<rparr>"

subsection \<open>The reference store\<close>

type_synonym 'f reference_store = "(u64, 'f \<times> bool) omap"

definition short_term_capacity :: nat where "short_term_capacity = 1"
definition long_term_capacity :: nat where "long_term_capacity = 3"

definition matching :: "bool \<Rightarrow> 'f reference_store \<Rightarrow> u64 list" where
  "matching long_term entries = map fst (filter (\<lambda>(_, _, l). l = long_term) entries)"

definition prune :: "bool \<Rightarrow> nat \<Rightarrow> 'f reference_store \<Rightarrow> 'f reference_store" where
  "prune long_term capacity entries =
     (let m = matching long_term entries in
      if length m \<le> capacity then entries
      else fold omap_erase (take (length m - capacity) m) entries)"

definition save :: "u64 \<Rightarrow> 'f \<Rightarrow> bool \<Rightarrow> 'f reference_store \<Rightarrow> 'f reference_store" where
  "save coded_index feature long_term entries =
     prune True long_term_capacity
       (prune False short_term_capacity (omap_assign coded_index (feature, long_term) entries))"

definition store_find :: "u64 \<Rightarrow> 'f reference_store \<Rightarrow> 'f option" where
  "store_find coded_index entries = map_option fst (map_of entries coded_index)"

definition store_clear :: "'f reference_store \<Rightarrow> 'f reference_store" where
  "store_clear entries = []"

definition shifted_q_index :: "model_parameters \<Rightarrow> u32 \<Rightarrow> u64 \<Rightarrow> u32" where
  "shifted_q_index model q_index coded_index =
     (let map = mp_frame_index_map model in
      q_index + mp_qp_shift model !
        unat (map ! unat ((coded_index + 1) mod word_of_nat (length map))))"

subsection \<open>Frame records round trip\<close>

lemma record_write_u32_le: "record_write_u32 out v = out @ le_bytes 4 v"
proof -
  have "ucast (v' AND 0xff) = (ucast v' :: byte)" for v' :: u32
    by (rule bit_word_eqI) (auto simp: bit_simps numeral_eq_Suc less_Suc_eq)
  then show ?thesis
    by (simp add: record_write_u32_def le_bytes_numeral)
qed

lemma record_read_u32_le:
  assumes "length bs = 4"
  shows "record_read_u32 bs = le_value bs"
proof -
  from assms obtain a b c d where "bs = [a, b, c, d]"
    by (auto simp: length_Suc_conv numeral_eq_Suc)
  then show ?thesis
    by (simp add: record_read_u32_def or.assoc push_bit_or)
qed

lemma record_codec:
  "parse_record bytes = Inr r \<longleftrightarrow>
     - 1 \<le> sint (rec_q_index r)
     \<and> serialize_record (\<lambda>_. True) (rec_q_index r) (rec_payload r) = Inr bytes"
proof
  let ?q = "rec_q_index r" and ?pay = "rec_payload r"
  assume "parse_record bytes = Inr r"
  then have n: "8 \<le> length bytes"
    and q: "?q = record_read_u32 (take 4 bytes)" and pay: "?pay = drop 8 bytes"
    and len: "unat (record_read_u32 (take 4 (drop 4 bytes))) = length bytes - 8"
    and sq: "- 1 \<le> sint ?q" and dropped: "?q = - 1 \<longrightarrow> length bytes = 8"
    by (auto simp: parse_record_def Let_def dropped_frame_q_index_def split: if_splits)
  have fields: "le_bytes 4 ?q = take 4 bytes"
    "le_bytes 4 (record_read_u32 (take 4 (drop 4 bytes))) = take 4 (drop 4 bytes)"
    using n le_bytes_le_value [of "take 4 bytes", where ?'a = 32]
      le_bytes_le_value [of "take 4 (drop 4 bytes)", where ?'a = 32]
    by (simp_all add: q record_read_u32_le)
  have w: "word_of_nat (length ?pay) = record_read_u32 (take 4 (drop 4 bytes))"
    unfolding pay length_drop len [symmetric] by simp
  have "length ?pay < 2 ^ 32"
    using unsigned_less [of "record_read_u32 (take 4 (drop 4 bytes))", where ?'a = nat]
    by (simp add: pay len)
  moreover have "bytes = take 4 bytes @ take 4 (drop 4 bytes) @ drop 8 bytes"
    by (metis append_take_drop_id drop_drop numeral_plus_numeral semiring_norm(2,6))
  ultimately show "- 1 \<le> sint ?q \<and> serialize_record (\<lambda>_. True) ?q ?pay = Inr bytes"
    using sq dropped n fields w
    by (simp add: serialize_record_def dropped_frame_q_index_def record_write_u32_le pay)
next
  let ?q = "rec_q_index r" and ?pay = "rec_payload r"
  assume a: "- 1 \<le> sint ?q \<and> serialize_record (\<lambda>_. True) ?q ?pay = Inr bytes"
  then have b: "bytes = le_bytes 4 ?q @ le_bytes 4 (word_of_nat (length ?pay) :: u32) @ ?pay"
    and l: "length ?pay < 2 ^ 32" and d: "?q = - 1 \<longrightarrow> ?pay = []"
    by (auto simp: serialize_record_def record_write_u32_le dropped_frame_q_index_def split: if_splits)
  have r: "record_read_u32 (le_bytes 4 v) = v" for v
    by (simp add: record_read_u32_le le_value_bytes_full)
  have u: "unat (word_of_nat (length ?pay) :: u32) = length ?pay"
    using l by (simp add: unsigned_of_nat take_bit_nat_eq_self)
  then have "?q = - 1 \<longrightarrow> (word_of_nat (length ?pay) :: u32) = 0" using d by simp
  then show "parse_record bytes = Inr r"
    using a u by (simp add: parse_record_def b r dropped_frame_q_index_def Let_def)
qed

text \<open>
  The MLVC frame record is canonical: \<open>parse_record\<close> accepts exactly the byte
  strings that \<open>serialize_record\<close> writes for a Q index of at least \<open>-1\<close>, and returns the Q
  index and the payload they were written from.
\<close>

lemma mlvc_record_codec:
  "parse_record bytes = Inr r \<longleftrightarrow>
     - 1 \<le> sint (rec_q_index r)
     \<and> serialize_record (\<lambda>_. True) (rec_q_index r) (rec_payload r) = Inr bytes"
  by (rule record_codec)

subsection \<open>The reference store\<close>

lemma fold_omap_erase: "fold omap_erase ks m = filter (\<lambda>(k, _). k \<notin> set ks) m"
  by (induction ks arbitrary: m) (auto simp: omap_erase_def intro!: filter_cong)

lemma matching_Cons:
  "matching lt ((k, f, l) # e) = (if l = lt then k # matching lt e else matching lt e)"
  by (simp add: matching_def)

lemma in_matching:
  assumes "omap_ok e"
  shows "k \<in> set (matching lt e) \<longleftrightarrow> (\<exists>f. map_of e k = Some (f, lt))"
proof -
  have "distinct (map fst e)" using assms by (simp add: omap_ok_def strict_sorted_iff)
  then show ?thesis by (force simp: matching_def)
qed

lemma sorted_matching:
  assumes "omap_ok e"
  shows "sorted_wrt (<) (matching lt e)"
  using assms unfolding omap_ok_def matching_def
  by (induction e) (auto simp: sorted_wrt_map)

lemma lookup_prune:
  assumes "omap_ok e"
  shows "map_of (prune lt c e) k =
     (if k \<in> set (take (length (matching lt e) - c) (matching lt e)) then None else map_of e k)"
  using om.lookup_fold_erase [OF assms] by (simp add: prune_def Let_def)

lemma prune_ok: "omap_ok e \<Longrightarrow> omap_ok (prune lt c e)"
  by (simp add: prune_def Let_def om.fold_erase_ok)

lemma prune_other:
  assumes "omap_ok e" "map_of e k = Some (f, l)" "l \<noteq> lt"
  shows "map_of (prune lt c e) k = Some (f, l)"
  using assms in_matching [OF assms(1), of k lt] by (auto simp: lookup_prune dest!: in_set_takeD)

lemma sorted_take_not_max:
  fixes xs :: "'a::linorder list"
  assumes "sorted_wrt (<) xs" "n < length xs" "\<forall>y \<in> set xs. y \<le> x"
  shows "x \<notin> set (take n xs)"
proof
  assume "x \<in> set (take n xs)"
  then obtain i where "i < n" "i < length xs" "xs ! i = x" by (auto simp: in_set_conv_nth)
  then have "x < xs ! n" using assms(1,2) by (auto simp: sorted_wrt_iff_nth_less)
  with assms(2,3) show False by (metis leD nth_mem)
qed

lemma prune_newest:
  assumes "omap_ok e" "map_of e k = Some (f, lt)" "\<forall>k' \<in> set (matching lt e). k' \<le> k" "0 < c"
  shows "map_of (prune lt c e) k = Some (f, lt)"
proof -
  have "k \<in> set (matching lt e)" using assms(2) in_matching [OF assms(1)] by blast
  then have "length (matching lt e) - c < length (matching lt e)"
    using assms(4) by (metis diff_less length_pos_if_in_set)
  then show ?thesis
    using assms sorted_take_not_max [OF sorted_matching [OF assms(1)], of _ lt k]
    by (simp add: lookup_prune)
qed

lemma filter_not_prefix: "distinct (xs @ ys) \<Longrightarrow> filter (\<lambda>x. x \<notin> set xs) (xs @ ys) = ys"
  by (simp add: filter_empty_conv) (metis (mono_tags, lifting) disjoint_iff filter_True)

lemma matching_prune_same:
  assumes "omap_ok e"
  shows "matching lt (prune lt c e) = drop (length (matching lt e) - c) (matching lt e)"
proof -
  let ?m = "matching lt e" and ?n = "length (matching lt e) - c"
  have "distinct ?m" using sorted_matching [OF assms] by (simp add: strict_sorted_iff)
  then have "filter (\<lambda>k. k \<notin> set (take ?n ?m)) ?m = drop ?n ?m"
    using filter_not_prefix [of "take ?n ?m" "drop ?n ?m"] by simp
  moreover have "matching lt (filter (\<lambda>(k, _). k \<notin> A) e) = filter (\<lambda>k. k \<notin> A) (matching lt e)" for A
    by (induction e) (auto simp: matching_def)
  ultimately show ?thesis
    by (simp add: prune_def Let_def fold_omap_erase)
qed

lemma matching_prune_other:
  assumes "omap_ok e" "l \<noteq> lt"
  shows "matching l (prune lt c e) = matching l e"
proof -
  have "k \<notin> set (take n (matching lt e))" if "k \<in> set (matching l e)" for k n
    using that assms in_matching [OF assms(1)] by (auto dest!: in_set_takeD)
  then have "filter (\<lambda>k. k \<notin> set (take n (matching lt e))) (matching l e) = matching l e" for n
    by simp
  moreover have "matching l (filter (\<lambda>(k, _). k \<notin> A) e) = filter (\<lambda>k. k \<notin> A) (matching l e)" for A
    by (induction e) (auto simp: matching_def)
  ultimately show ?thesis
    by (simp add: prune_def Let_def fold_omap_erase)
qed

lemmas matching_prune =
  matching_prune_same [of _ False] matching_prune_same [of _ True]
  matching_prune_other [of _ True False, simplified] matching_prune_other [of _ False True, simplified]

lemma save_ok: "omap_ok e \<Longrightarrow> omap_ok (save k f l e)"
  by (simp add: save_def prune_ok om.ok_assign)

lemma save_bounds:
  assumes "omap_ok e"
  shows "length (matching False (save k f l e)) \<le> short_term_capacity"
    "length (matching True (save k f l e)) \<le> long_term_capacity"
  using om.ok_assign [OF assms, of k "(f, l)"]
  by (simp_all add: save_def matching_prune prune_ok)

lemma lookup_save_old:
  assumes "omap_ok e" "map_of (save k f l e) k' = Some v" "k' \<noteq> k"
  shows "map_of e k' = Some v"
  using assms om.ok_assign [OF assms(1), of k "(f, l)"]
  by (auto simp: save_def lookup_prune prune_ok map_of_omap_assign split: if_splits)

lemma save_new:
  assumes "omap_ok e" "\<forall>k' \<in> set (map fst e). k' < k"
  shows "map_of (save k f l e) k = Some (f, l)"
proof -
  let ?e1 = "omap_assign k (f, l) e"
  let ?e2 = "prune False short_term_capacity ?e1"
  have ok: "omap_ok ?e1" "omap_ok ?e2" using assms(1) by (auto intro: om.ok_assign prune_ok)
  have top: "\<forall>k' \<in> set (matching lt ?e1). k' \<le> k" for lt
    using assms(2) set_omap_assign [of k "(f, l)" e]
    by (force simp: matching_def)
  have e1: "map_of ?e1 k = Some (f, l)" by (simp add: map_of_omap_assign)
  have e2: "map_of ?e2 k = Some (f, l)"
    using prune_other [OF ok(1) e1] prune_newest [OF ok(1), of k f False] e1 top
    by (cases l) (auto simp: short_term_capacity_def)
  have "\<forall>k' \<in> set (matching True ?e2). k' \<le> k"
    using top [of True] ok(1) by (simp add: matching_prune)
  then show ?thesis
    using prune_other [OF ok(2) e2] prune_newest [OF ok(2), of k f True] e2
    by (cases l) (auto simp: save_def long_term_capacity_def)
qed

lemma save_keeps_ltr:
  assumes "omap_ok e" "map_of e r = Some (g, True)" "\<forall>k' \<in> set (matching True e). k' \<le> r" "k \<noteq> r"
  shows "map_of (save k f False e) r = Some (g, True)"
proof -
  let ?e1 = "omap_assign k (f, False) e"
  let ?e2 = "prune False short_term_capacity ?e1"
  have ok: "omap_ok ?e1" "omap_ok ?e2" using assms(1) by (auto intro: om.ok_assign prune_ok)
  have e1: "map_of ?e1 r = Some (g, True)" using assms by (simp add: map_of_omap_assign)
  have e2: "map_of ?e2 r = Some (g, True)" using prune_other [OF ok(1) e1, of False] by simp
  have "\<forall>k' \<in> set (matching True ?e1). k' \<le> r"
    using assms(3) in_matching [OF ok(1)] in_matching [OF assms(1)]
    by (auto simp: map_of_omap_assign split: if_splits)
  then have "\<forall>k' \<in> set (matching True ?e2). k' \<le> r"
    using ok(1) by (simp add: matching_prune)
  from prune_newest [OF ok(2) e2 this] show ?thesis
    by (simp add: save_def long_term_capacity_def)
qed

subsection \<open>References are available\<close>

text \<open>
  The discipline both sessions follow: plan, clear the store on an intra frame, save the coded
  feature under the planned index and commit, or start over.
\<close>

definition planned_store :: "frame_plan \<Rightarrow> 'f reference_store \<Rightarrow> 'f reference_store" where
  "planned_store p e = (if pl_frame_class p = intra_class then store_clear e else e)"

inductive coding_run :: "loop_parameters \<Rightarrow> frame_scheduler \<Rightarrow> 'f reference_store \<Rightarrow> bool"
  for parameters where
  start: "coding_run parameters (make_scheduler parameters) []"
| code: "coding_run parameters s e \<Longrightarrow> fs_started s \<or> stream_intra \<noteq> Some False
    \<Longrightarrow> fs_coded_index s \<noteq> - 1 \<Longrightarrow> p = plan stream_intra s
    \<Longrightarrow> coding_run parameters (scheduler_commit p s)
          (save (pl_coded_index p) f (pl_mark_as_ltr p) (planned_store p e))"
| restart: "coding_run parameters s e \<Longrightarrow> coding_run parameters (scheduler_reset s) (store_clear e)"

definition references_inv :: "frame_scheduler \<Rightarrow> 'f reference_store \<Rightarrow> bool" where
  "references_inv s e \<longleftrightarrow> omap_ok e
     \<and> length (matching False e) \<le> short_term_capacity
     \<and> length (matching True e) \<le> long_term_capacity
     \<and> (\<forall>k \<in> set (map fst e). k < fs_coded_index s)
     \<and> (fs_started s \<longrightarrow> map_of e (fs_coded_index s - 1) \<noteq> None)
     \<and> (\<forall>r. fs_latest_ltr s = Some r \<longrightarrow>
          (\<exists>g. map_of e r = Some (g, True)) \<and> (\<forall>k \<in> set (matching True e). k \<le> r))"

lemmas plan_simps = plan_def Let_def

lemma plan_intra:
  "pl_frame_class (plan si s) = intra_class \<longleftrightarrow>
     (case si of Some b \<Rightarrow> b
      | None \<Rightarrow> \<not> fs_started s \<or> divides_index (lp_iframe_period (fs_parameters s)) (fs_coded_index s))"
  by (cases si) (simp_all add: plan_simps)

lemma plan_index:
  "pl_coded_index (plan si s) =
     (if pl_frame_class (plan si s) = intra_class then 0 else fs_coded_index s)"
  by (simp add: plan_simps)

lemma plan_reference:
  "pl_reference (plan si s) = (case pl_frame_class (plan si s) of
     intra_class \<Rightarrow> None | predicted_class \<Rightarrow> Some (fs_coded_index s - 1)
   | ltr_recovery \<Rightarrow> fs_latest_ltr s)"
  by (simp add: plan_simps)

lemma plan_ltr_recovery: "pl_frame_class (plan si s) = ltr_recovery \<Longrightarrow> fs_latest_ltr s \<noteq> None"
  by (auto simp: plan_simps split: if_splits)

lemma reference_found:
  assumes "references_inv s e" "fs_started s \<or> si \<noteq> Some False" "pl_reference (plan si s) = Some r"
  shows "store_find r (planned_store (plan si s) e) \<noteq> None"
proof (cases "pl_frame_class (plan si s)")
  case intra_class
  then show ?thesis using assms(3) by (simp add: plan_reference)
next
  case predicted_class
  then have "fs_started s" using assms(2) plan_intra [of si s] by (cases si) auto
  then show ?thesis
    using assms(1,3) predicted_class
    by (auto simp: plan_reference references_inv_def planned_store_def store_find_def)
next
  case ltr_recovery
  then show ?thesis
    using assms(1,3)
    by (auto simp: plan_reference references_inv_def planned_store_def store_find_def)
qed

lemma commit_fields:
  "fs_started (scheduler_commit p s)"
  "fs_coded_index (scheduler_commit p s) = pl_coded_index p + 1"
  "fs_latest_ltr (scheduler_commit p s) =
     (if pl_mark_as_ltr p then Some (pl_coded_index p)
      else if pl_frame_class p = intra_class then None else fs_latest_ltr s)"
  "fs_parameters (scheduler_commit p s) = fs_parameters s"
  by (simp_all add: scheduler_commit_def Let_def)

lemma planned_store_props:
  assumes "references_inv s e" "p = plan si s"
  shows "omap_ok (planned_store p e)" "\<forall>k \<in> set (map fst (planned_store p e)). k < pl_coded_index p"
  using assms
  by (auto simp: planned_store_def store_clear_def references_inv_def plan_index om.ok_empty)

lemma save_keys:
  assumes "omap_ok e" "k' \<in> set (map fst (save k f l e))"
  shows "k' = k \<or> k' \<in> set (map fst e)"
proof (rule disjCI)
  assume "k' \<notin> set (map fst e)"
  then have "map_of e k' = None" by (simp add: map_of_eq_None_iff)
  moreover have "map_of (save k f l e) k' \<noteq> None"
    using assms(2) by (simp add: map_of_eq_None_iff)
  ultimately show "k' = k" using lookup_save_old [OF assms(1)] by fastforce
qed

lemma next_index:
  fixes i :: u64
  assumes "i \<noteq> - 1"
  shows "k < i + 1 \<longleftrightarrow> k \<le> i"
proof -
  have "1 + i \<noteq> 0" using assms by (simp add: add_eq_0_iff)
  then have "unat (i + 1) = Suc (unat i)" by (metis add.commute unatSuc)
  then show ?thesis by (simp add: word_less_nat_alt word_le_nat_alt less_Suc_eq_le)
qed

lemma commit_references_inv:
  assumes inv: "references_inv s e" and p: "p = plan si s" and nowrap: "fs_coded_index s \<noteq> - 1"
  shows "references_inv (scheduler_commit p s)
     (save (pl_coded_index p) f (pl_mark_as_ltr p) (planned_store p e))" (is "references_inv ?s ?e")
proof -
  let ?i = "pl_coded_index p" and ?old = "planned_store p e"
  note e0 = planned_store_props [OF inv p]
  have i: "?i \<noteq> - 1" using nowrap plan_index [of si s] p by auto
  have new: "map_of ?e ?i = Some (f, pl_mark_as_ltr p)" by (rule save_new [OF e0])
  have keys: "\<forall>k \<in> set (map fst ?e). k < ?i + 1"
  proof
    fix k assume "k \<in> set (map fst ?e)"
    from save_keys [OF e0(1) this] show "k < ?i + 1"
      using e0(2) by (auto simp: next_index [OF i] intro: less_imp_le)
  qed
  have ltr: "(\<exists>g. map_of ?e r = Some (g, True)) \<and> (\<forall>k \<in> set (matching True ?e). k \<le> r)"
    if r: "fs_latest_ltr ?s = Some r" for r
  proof (cases "pl_mark_as_ltr p")
    case True
    then have "r = ?i" using r by (simp add: commit_fields)
    moreover have "k \<le> ?i" if "k \<in> set (matching True ?e)" for k
      using that keys by (force simp: matching_def next_index [OF i])
    ultimately show ?thesis using new True by auto
  next
    case False
    then have cls: "pl_frame_class p \<noteq> intra_class" and old: "fs_latest_ltr s = Some r"
      using r by (auto simp: commit_fields split: if_splits)
    then have e: "?old = e" by (simp add: planned_store_def)
    from inv old obtain g where g: "map_of e r = Some (g, True)"
      and top: "\<forall>k \<in> set (matching True e). k \<le> r" by (auto simp: references_inv_def)
    have ne: "?i \<noteq> r" using e0(2) e g by (force dest: map_of_SomeD)
    have ok: "omap_ok e" using inv by (simp add: references_inv_def)
    have "k \<le> r" if "k \<in> set (matching True ?e)" for k
    proof -
      from that obtain h where "map_of ?e k = Some (h, True)"
        using in_matching [OF save_ok [OF e0(1)]] by blast
      moreover from this have "k \<noteq> ?i" using new False by auto
      ultimately have "map_of e k = Some (h, True)" using lookup_save_old [OF e0(1)] e by simp
      then show ?thesis using top in_matching [OF ok] by blast
    qed
    then show ?thesis using save_keeps_ltr [OF ok g top ne] False e by auto
  qed
  show ?thesis
    using save_ok [OF e0(1)] save_bounds [OF e0(1)] keys new ltr
    unfolding references_inv_def by (simp add: commit_fields)
qed

lemma coding_run_inv: "coding_run lp s e \<Longrightarrow> references_inv s e"
proof (induction rule: coding_run.induct)
  case start
  then show ?case by (simp add: references_inv_def make_scheduler_def matching_def om.ok_empty)
next
  case (code s e si p f)
  then show ?case by (intro commit_references_inv)
next
  case (restart s e)
  then show ?case
    by (simp add: references_inv_def scheduler_reset_def store_clear_def matching_def om.ok_empty)
qed

lemma length_matching: "length e = length (matching False e) + length (matching True e)"
  by (induction e) (auto simp: matching_def)

lemma lookup_less:
  assumes "references_inv s e" "map_of e r = Some v"
  shows "r < fs_coded_index s"
  using assms by (force simp: references_inv_def dest: map_of_SomeD)

text \<open>
  Property C23. Whatever frames were coded, in either direction and under any parameters, the
  reference of the next planned frame is in the store: it is the previous coded frame or, for a
  recovery frame, a stored long-term reference, and its index is below that of the frame. The
  store never holds more than four features.
\<close>

theorem mlvc_references_available:
  assumes run: "coding_run lp s e" and seq: "fs_started s \<or> stream_intra \<noteq> Some False"
    and p: "p = plan stream_intra s"
  shows "length e \<le> short_term_capacity + long_term_capacity
     \<and> (pl_frame_class p = intra_class \<longleftrightarrow> pl_reference p = None)
     \<and> (\<forall>r. pl_reference p = Some r \<longrightarrow>
          r < pl_coded_index p \<and> (\<exists>f. store_find r (planned_store p e) = Some f)
          \<and> (pl_frame_class p = ltr_recovery \<longrightarrow> (\<exists>f. map_of e r = Some (f, True))))"
proof (intro conjI allI impI)
  note inv = coding_run_inv [OF run]
  show "length e \<le> short_term_capacity + long_term_capacity"
    using inv length_matching [of e] by (simp add: references_inv_def)
  show "pl_frame_class p = intra_class \<longleftrightarrow> pl_reference p = None"
    using plan_ltr_recovery [of stream_intra s]
    by (simp add: p plan_reference split: frame_class.splits)
  fix r assume r: "pl_reference p = Some r"
  show found: "\<exists>f. store_find r (planned_store p e) = Some f"
    using reference_found [OF inv seq, of r] r by (auto simp: p)
  have ni: "pl_frame_class p \<noteq> intra_class" using r by (auto simp: p plan_reference)
  then show "r < pl_coded_index p"
    using found lookup_less [OF inv]
    by (auto simp: p plan_index planned_store_def store_find_def)
  show "\<exists>f. map_of e r = Some (f, True)" if "pl_frame_class p = ltr_recovery"
    using that r inv by (auto simp: p plan_reference references_inv_def)
qed

definition sample_loop :: loop_parameters where
  "sample_loop = \<lparr>lp_iframe_period = Some 8, lp_reset_period = None, lp_ltr_start_idx = 0,
     lp_ltr_period = Some 2, lp_proactive_ltr_recovery = True\<rparr>"

theorem mlvc_references_available_witness:
  "\<exists>s e. coding_run sample_loop s e
     \<and> plan None s = \<lparr>pl_frame_class = ltr_recovery, pl_coded_index = 2, pl_reference = Some 0,
         pl_mark_as_ltr = True, pl_feature_reset = False\<rparr>
     \<and> store_find 0 e = Some ''I''"
proof -
  let ?s0 = "make_scheduler sample_loop"
  let ?p0 = "\<lparr>pl_frame_class = intra_class, pl_coded_index = 0, pl_reference = None,
    pl_mark_as_ltr = True, pl_feature_reset = False\<rparr>"
  let ?s1 = "\<lparr>fs_parameters = sample_loop, fs_started = True, fs_coded_index = 1,
    fs_latest_ltr = Some 0\<rparr>"
  let ?p1 = "\<lparr>pl_frame_class = predicted_class, pl_coded_index = 1, pl_reference = Some 0,
    pl_mark_as_ltr = False, pl_feature_reset = False\<rparr>"
  let ?s2 = "\<lparr>fs_parameters = sample_loop, fs_started = True, fs_coded_index = 2,
    fs_latest_ltr = Some 0\<rparr>"
  let ?p2 = "\<lparr>pl_frame_class = ltr_recovery, pl_coded_index = 2, pl_reference = Some 0,
    pl_mark_as_ltr = True, pl_feature_reset = False\<rparr>"
  let ?e1 = "[(0, ''I'', True)]" and ?e2 = "[(0, ''I'', True), (1, ''P'', False)]"
  note store = planned_store_def store_clear_def save_def prune_def matching_def
    short_term_capacity_def long_term_capacity_def
  have p: "?p0 = plan None ?s0" "?p1 = plan None ?s1" "?p2 = plan None ?s2"
    by (simp_all add: plan_def make_scheduler_def sample_loop_def divides_index_def)
  have c: "scheduler_commit ?p0 ?s0 = ?s1" "scheduler_commit ?p1 ?s1 = ?s2"
    by (simp_all add: scheduler_commit_def make_scheduler_def)
  have e: "save 0 ''I'' True (planned_store ?p0 []) = ?e1"
    "save 1 ''P'' False (planned_store ?p1 ?e1) = ?e2"
    by (simp_all add: store)
  have "coding_run sample_loop ?s1 ?e1"
    using coding_run.code [OF coding_run.start [of sample_loop] _ _ p(1), of "''I''"] c(1) e(1)
    by (simp add: make_scheduler_def)
  then have run: "coding_run sample_loop ?s2 ?e2"
    using coding_run.code [OF _ _ _ p(2), of sample_loop ?e1 "''P''"] c(2) e(2) by simp
  from mlvc_references_available [OF run _ p(3)] run p(3) show ?thesis
    by (intro exI [of _ ?s2] exI [of _ ?e2]) (simp add: store_find_def)
qed

text \<open>
  With parameters that passed the bundle's checks, the Q index an MLVC model is
  driven with is in the model's table for every frame: the schedule is indexed inside both
  tables, the 32-bit sum does not wrap, and the result is below \<open>total_qp_num\<close>.
\<close>

lemma shifted_q_in_range:
  assumes valid: "validate_parameters loc model = Inr model" and q: "q < mp_qp_num model"
    and len: "length (mp_frame_index_map model) < 2 ^ 64"
  shows "\<exists>i \<in> set (mp_frame_index_map model).
     unat i < length (mp_qp_shift model)
     \<and> unat (shifted_q_index model q index) = unat q + unat (mp_qp_shift model ! unat i)
     \<and> shifted_q_index model q index < mp_total_qp_num model"
proof -
  let ?m = "mp_frame_index_map model"
  let ?k = "unat ((index + 1) mod word_of_nat (length ?m))"
  note ok = validate_parameters_ok [OF valid]
  have "0 < length ?m" using ok(3) by simp
  moreover have l: "unat (word_of_nat (length ?m) :: u64) = length ?m"
    using len by (simp add: unsigned_of_nat take_bit_nat_eq_self)
  ultimately have "?k < length ?m" by (simp add: unat_mod)
  then have i: "?m ! ?k \<in> set ?m" (is "?i \<in> _") by simp
  have sum: "unat q + unat (mp_qp_shift model ! unat ?i) < unat (mp_total_qp_num model)"
    using ok(8) [OF i] q by (auto simp: word_less_nat_alt)
  then have nowrap: "unat (q + mp_qp_shift model ! unat ?i) = unat q + unat (mp_qp_shift model ! unat ?i)"
    using unsigned_less [of "mp_total_qp_num model", where ?'a = nat]
    by (simp add: unat_word_ariths)
  have eq: "shifted_q_index model q index = q + mp_qp_shift model ! unat ?i"
    by (simp only: shifted_q_index_def Let_def)
  have "q + mp_qp_shift model ! unat ?i < mp_total_qp_num model"
    unfolding word_less_nat_alt nowrap by (rule sum)
  with ok(7) [OF i] nowrap i show ?thesis unfolding eq by blast
qed

lemma shifted_q_in_range_witness:
  "validate_parameters [] (sample_parameters 320 192) = Inr (sample_parameters 320 192)
   \<and> shifted_q_index (sample_parameters 320 192) 63 4 = 71
   \<and> shifted_q_index (sample_parameters 320 192) 63 4 < 72"
proof -
  have v: "validate_parameters [] (sample_parameters 320 192) = Inr (sample_parameters 320 192)"
    by (simp add: validate_parameters_def shapes_valid_def sample_defs)
  from shifted_q_in_range [OF v, of 63 4] v show ?thesis
    by (simp add: shifted_q_index_def sample_defs)
qed

end
