(* ===== verification/MlvcLoad.thy ===== *)
theory MlvcLoad
  imports MlvcBundle Frames Json "HOL-Library.Product_Lexorder"
begin

text \<open>
  Loading an MLVC bundle, \<open>load_bundle\<close> of \<^verbatim>\<open>src/mlvc/bundle.cpp\<close>: the manifest, the parameters, the
  conversion metadata, the PMF tables and the model parts, read from JSON documents with the parser of
  \<open>Json\<close>. The file system is an argument, as is what the documents' numbers need of \<open>double\<close>. A PMF file
  that several models name is read once by the code and gives the same table each time here.
\<close>

subsection \<open>The file system\<close>

record 'd disk =
  dk_regular :: "string \<Rightarrow> bool"
  dk_file :: "string \<Rightarrow> input_file"
  dk_memory :: bool
  dk_double :: "string \<Rightarrow> 'd option"
  dk_is_one :: "'d \<Rightarrow> bool"

definition parse_document :: "'d disk \<Rightarrow> string \<Rightarrow> 'd json result" where
  "parse_document disk path = json_parse_file (dk_memory disk) (dk_double disk) (dk_file disk path) ''mlvc.bundle''"

definition unsupported :: "string \<Rightarrow> error" where
  "unsupported msg = Error not_implemented msg ''mlvc.bundle''"

subsection \<open>Members of a document\<close>

definition single_quote :: string where "single_quote = [CHR 0x27]"

definition json_member :: "'d json \<Rightarrow> string \<Rightarrow> string \<Rightarrow> 'd json result" where
  "json_member object key loc =
     (case json_find object key of
        None \<Rightarrow> Inl (bundle_error (loc @ '' is missing '' @ single_quote @ key @ single_quote))
      | Some v \<Rightarrow> Inr v)"

fun is_object :: "'d json \<Rightarrow> bool" where
  "is_object (JObject m) = True"
| "is_object _ = False"

fun object_value :: "'d json \<Rightarrow> (string \<times> 'd json) list" where
  "object_value (JObject m) = m"
| "object_value _ = []"

fun array_value :: "'d json \<Rightarrow> 'd json list" where
  "array_value (JArray a) = a"
| "array_value _ = []"

definition object_member :: "'d json \<Rightarrow> string \<Rightarrow> string \<Rightarrow> 'd json result" where
  "object_member object key loc =
     res_bind (json_member object key loc) (\<lambda>v.
     if \<not> is_object v then Inl (bundle_error (loc @ ''.'' @ key @ '' must be an object'')) else Inr v)"

definition string_member :: "'d json \<Rightarrow> string \<Rightarrow> string \<Rightarrow> string result" where
  "string_member object key loc =
     res_bind (json_member object key loc) (\<lambda>v.
     case v of JString s \<Rightarrow> Inr s | _ \<Rightarrow> Inl (bundle_error (loc @ ''.'' @ key @ '' must be a string'')))"

definition integer_in :: "int \<Rightarrow> int \<Rightarrow> 'd json \<Rightarrow> int option" where
  "integer_in lo hi v =
     (case v of JNumber d (Some i) \<Rightarrow> if lo \<le> i \<and> i \<le> hi then Some i else None | _ \<Rightarrow> None)"

definition as_uint :: "'d json \<Rightarrow> string \<Rightarrow> u32 result" where
  "as_uint v loc =
     (case integer_in 0 (2 ^ 32 - 1) v of
        None \<Rightarrow> Inl (bundle_error (loc @ '' must be a non-negative integer'')) | Some i \<Rightarrow> Inr (word_of_int i))"

definition uint_member :: "'d json \<Rightarrow> string \<Rightarrow> string \<Rightarrow> u32 result" where
  "uint_member object key loc = res_bind (json_member object key loc) (\<lambda>v. as_uint v (loc @ ''.'' @ key))"

definition optional_uint_member :: "'d json \<Rightarrow> string \<Rightarrow> string \<Rightarrow> u32 option result" where
  "optional_uint_member object key loc =
     (case json_find object key of
        None \<Rightarrow> Inr None
      | Some v \<Rightarrow> if is_null v then Inr None
          else res_bind (as_uint v (loc @ ''.'' @ key)) (\<lambda>parsed. Inr (Some parsed)))"

fun integers_loop :: "int \<Rightarrow> int \<Rightarrow> string \<Rightarrow> 'd json list \<Rightarrow> 32 word list result" where
  "integers_loop lo hi name [] = Inr []"
| "integers_loop lo hi name (element # rest) =
     (case integer_in lo hi element of
        None \<Rightarrow> Inl (bundle_error (name @ '' must contain integers in range''))
      | Some i \<Rightarrow> res_bind (integers_loop lo hi name rest) (\<lambda>output. Inr (word_of_int i # output)))"

definition int_array_member :: "int \<Rightarrow> int \<Rightarrow> 'd json \<Rightarrow> string \<Rightarrow> string \<Rightarrow> 32 word list result" where
  "int_array_member lo hi object key loc =
     res_bind (json_member object key loc) (\<lambda>v.
     let name = loc @ ''.'' @ key in
     case v of JArray a \<Rightarrow> integers_loop lo hi name a | _ \<Rightarrow> Inl (bundle_error (name @ '' must be an array'')))"

abbreviation int32_array :: "'d json \<Rightarrow> string \<Rightarrow> string \<Rightarrow> i32 list result" where
  "int32_array \<equiv> int_array_member (- (2 ^ 31)) (2 ^ 31 - 1)"

abbreviation uint32_array :: "'d json \<Rightarrow> string \<Rightarrow> string \<Rightarrow> u32 list result" where
  "uint32_array \<equiv> int_array_member 0 (2 ^ 32 - 1)"

definition bundle_file :: "'d disk \<Rightarrow> string \<Rightarrow> string \<Rightarrow> string result" where
  "bundle_file disk base name =
     (if name = [] \<or> CHR ''/'' \<in> set name \<or> CHR 0x5c \<in> set name \<or> name = ''.'' \<or> name = ''..'' then
        Inl (bundle_error (''bundle file name is not a plain file name: '' @ name))
      else
        let path = path_append base name in
        if \<not> dk_regular disk path then
          Inl (Error missing_artifact (''bundle file is missing: '' @ path) ''mlvc.bundle'')
        else Inr path)"

subsection \<open>PMF tables\<close>

definition parse_pmf :: "'d json \<Rightarrow> string \<Rightarrow> pmf_table result" where
  "parse_pmf document loc =
     res_bind (int32_array document ''pmf_lengths'' loc) (\<lambda>lengths.
     res_bind (int32_array document ''pmf_offsets'' loc) (\<lambda>offsets.
     res_bind (int32_array document ''pmf_table'' loc) (\<lambda>table.
     if \<exists>n \<in> set lengths. sint n < 2 then Inl (bundle_error (loc @ '' has a PMF shorter than two''))
     else
       let total = (\<Sum>n \<leftarrow> lengths. sint n) in
       if lengths = [] \<or> length lengths \<noteq> length offsets \<or> total \<noteq> int (length table) then
         Inl (bundle_error (loc @ '' PMF table sizes are inconsistent''))
       else Inr \<lparr>pmf_lengths = lengths, pmf_offsets = offsets, pmf_entries = table\<rparr>)))"

definition load_gaussian :: "'d disk \<Rightarrow> string \<Rightarrow> gaussian_pmf result" where
  "load_gaussian disk path =
     res_bind (parse_document disk path) (\<lambda>document.
     let loc = path_filename path in
     res_bind (parse_pmf document loc) (\<lambda>pmf.
     res_bind (uint_member document ''scale_levels'' loc) (\<lambda>levels.
     if json_find document ''index_space'' \<noteq> Some (JBoolean True) then
       Inl (bundle_error (loc @ '' must use index_space''))
     else if levels = 0 \<or> length (pmf_lengths pmf) \<noteq> unat levels then
       Inl (bundle_error (loc @ '' has one PMF per scale level''))
     else Inr \<lparr>ga_pmf = pmf, ga_scale_levels = levels\<rparr>)))"

definition load_bit_estimator :: "'d disk \<Rightarrow> string \<Rightarrow> bit_estimator_pmf result" where
  "load_bit_estimator disk path =
     res_bind (parse_document disk path) (\<lambda>document.
     let loc = path_filename path in
     res_bind (parse_pmf document loc) (\<lambda>pmf.
     res_bind (uint_member document ''qp_num'' loc) (\<lambda>qp_num.
     res_bind (uint_member document ''channels'' loc) (\<lambda>channels.
     if unat (ucast qp_num * ucast channels :: u64) \<noteq> length (pmf_lengths pmf) then
       Inl (bundle_error (loc @ '' PMF count is not qp_num * channels''))
     else Inr \<lparr>be_pmf = pmf, be_qp_num = qp_num, be_channels = channels\<rparr>))))"

subsection \<open>Model parameters\<close>

definition is_nchw :: "'d json \<Rightarrow> bool" where
  "is_nchw v = (case v of JString s \<Rightarrow> s = ''nchw'' | _ \<Rightarrow> False)"

fun check_layouts :: "'d json \<Rightarrow> string \<Rightarrow> string list \<Rightarrow> unit result" where
  "check_layouts metadata loc [] = Inr ()"
| "check_layouts metadata loc (key # rest) =
     (if (case json_find metadata key of None \<Rightarrow> False | Some layout \<Rightarrow> \<not> is_nchw layout) then
        Inl (unsupported (loc @ '' uses a non-NCHW '' @ key))
      else check_layouts metadata loc rest)"

fun uint_fields :: "'d json \<Rightarrow> string \<Rightarrow> string list \<Rightarrow> u32 list result" where
  "uint_fields metadata loc [] = Inr []"
| "uint_fields metadata loc (key # rest) =
     res_bind (uint_member metadata key loc) (\<lambda>v.
     res_bind (uint_fields metadata loc rest) (\<lambda>vs. Inr (v # vs)))"

definition parameter_keys :: "string list" where
  "parameter_keys = [''model_width'', ''model_height'', ''qp_num'', ''total_qp_num'', ''feature_channels'',
     ''latent_channels'', ''hyperprior_channels'', ''downsample_feature'', ''downsample_latent'',
     ''downsample_hyperprior'', ''y_scale_repeat'', ''ltr_start_idx'']"

definition parse_parameters :: "'d disk \<Rightarrow> 'd json \<Rightarrow> string \<Rightarrow> model_parameters result" where
  "parse_parameters disk metadata loc =
     res_bind (uint_fields metadata loc parameter_keys) (\<lambda>f.
     res_bind (uint32_array metadata ''frame_index_map'' loc) (\<lambda>frame_index_map.
     res_bind (uint32_array metadata ''qp_shift'' loc) (\<lambda>qp_shift.
     res_bind (optional_uint_member metadata ''iframe_period'' loc) (\<lambda>iframe_period.
     res_bind (optional_uint_member metadata ''reset_period'' loc) (\<lambda>reset_period.
     res_bind (optional_uint_member metadata ''ltr_period'' loc) (\<lambda>ltr_period.
     res_bind (string_member metadata ''scale_decoder_type'' loc) (\<lambda>scale_decoder.
     if scale_decoder \<noteq> ''upsample'' then
       Inl (unsupported (loc @ '' uses unsupported scale decoder '' @ scale_decoder))
     else if (case json_find metadata ''pixel_range'' of Some (JNumber d i) \<Rightarrow> \<not> dk_is_one disk d | _ \<Rightarrow> True) then
       Inl (unsupported (loc @ '' must use pixel_range 1.0''))
     else
       res_bind (check_layouts metadata loc [''image_layout'', ''feature_layout'']) (\<lambda>_.
       validate_parameters loc
         \<lparr>mp_width = f ! 0, mp_height = f ! 1, mp_qp_num = f ! 2, mp_total_qp_num = f ! 3,
          mp_frame_index_map = frame_index_map, mp_qp_shift = qp_shift, mp_feature_channels = f ! 4,
          mp_latent_channels = f ! 5, mp_hyperprior_channels = f ! 6, mp_downsample_feature = f ! 7,
          mp_downsample_latent = f ! 8, mp_downsample_hyperprior = f ! 9, mp_y_scale_repeat = f ! 10,
          mp_iframe_period = iframe_period, mp_reset_period = reset_period, mp_ltr_start_idx = f ! 11,
          mp_ltr_period = ltr_period\<rparr>))))))))"

subsection \<open>Conversion metadata\<close>

fun field_names :: "string \<Rightarrow> 'd json list \<Rightarrow> string list result" where
  "field_names name [] = Inr []"
| "field_names name (field # rest) =
     (case field of
        JString s \<Rightarrow> res_bind (field_names name rest) (\<lambda>names. Inr (s # names))
      | _ \<Rightarrow>
        res_bind (string_member field ''name'' name) (\<lambda>field_name.
        if (case json_find field ''layout'' of None \<Rightarrow> False | Some layout \<Rightarrow> \<not> is_null layout \<and> \<not> is_nchw layout) then
          Inl (unsupported (name @ '' field '' @ field_name @ '' is not NCHW''))
        else res_bind (field_names name rest) (\<lambda>names. Inr (field_name # names))))"

definition check_fields :: "'d json \<Rightarrow> string \<Rightarrow> string list \<Rightarrow> string \<Rightarrow> unit result" where
  "check_fields part key expected loc =
     res_bind (json_member part key loc) (\<lambda>fields.
     let name = loc @ ''.'' @ key in
     case fields of
       JArray a \<Rightarrow>
         res_bind (field_names name a) (\<lambda>names.
         if card (set names) \<noteq> length expected \<or> \<not> list_all (\<lambda>field. field \<in> set names) expected then
           Inl (bundle_error (name @ '' does not match the MLVC split interface''))
         else Inr ())
     | _ \<Rightarrow> Inl (bundle_error (name @ '' must be an array'')))"

definition check_part :: "'d json \<Rightarrow> string \<Rightarrow> string \<Rightarrow> string list \<Rightarrow> string list \<Rightarrow> string option \<Rightarrow> string result" where
  "check_part parts loc part_name inputs outputs precision =
     (let part_loc = loc @ ''.'' @ part_name in
      res_bind (object_member parts part_name loc) (\<lambda>part.
      res_bind (string_member part ''precision'' part_loc) (\<lambda>part_precision.
      if precision \<noteq> None \<and> precision \<noteq> Some part_precision then
        Inl (bundle_error (loc @ '' parts use different precisions''))
      else
        res_bind (check_fields part ''input_fields'' inputs part_loc) (\<lambda>_.
        res_bind (check_fields part ''output_fields'' outputs part_loc) (\<lambda>_. Inr part_precision)))))"

definition check_conversion_metadata :: "'d disk \<Rightarrow> string \<Rightarrow> model_parameters \<Rightarrow> mlvc_precision result" where
  "check_conversion_metadata disk path parameters =
     res_bind (parse_document disk path) (\<lambda>document.
     let loc = path_filename path in
     res_bind (object_member document ''params'' loc) (\<lambda>params.
     res_bind (object_member params ''split_model_params'' (loc @ ''.params'')) (\<lambda>split.
     res_bind (string_member split ''split_type'' loc) (\<lambda>split_name.
     if split_name \<noteq> ''dmc61sbr_e1d1'' then Inl (unsupported (loc @ '' uses unsupported split '' @ split_name))
     else
       res_bind (uint_member split ''model_width'' loc) (\<lambda>width.
       res_bind (uint_member split ''model_height'' loc) (\<lambda>height.
       if width \<noteq> mp_width parameters \<or> height \<noteq> mp_height parameters then
         Inl (bundle_error (loc @ '' canvas does not match the bundle manifest''))
       else
         res_bind (object_member document ''model_parts_metadata'' loc) (\<lambda>parts.
         if length (object_value parts) \<noteq> 2 then
           Inl (bundle_error (loc @ '' must describe exactly the encoder and decoder''))
         else
           res_bind (check_part parts loc ''MLVCEncoder'' [''x'', ''ref_feature'', ''q_index_shifted'']
             [''feature'', ''z_raw'', ''y_raw_0'', ''y_raw_1''] None) (\<lambda>first.
           res_bind (check_part parts loc ''MLVCDecoder'' [''z_raw'', ''y_raw_0'', ''y_raw_1'', ''ref_feature'', ''q_index_shifted'']
             [''x_hat'', ''feature''] (Some first)) (\<lambda>precision.
           if precision = ''fp16'' then Inr fp16
           else if precision = ''fp32'' then Inr fp32
           else Inl (Error incompatible_precision (loc @ '' uses unsupported precision '' @ precision) ''mlvc.bundle''))))))))))"

subsection \<open>Model parts\<close>

definition hex_digest :: "string \<Rightarrow> bool" where
  "hex_digest digest \<longleftrightarrow> length digest = 64 \<and>
     list_all (\<lambda>c. isdigit c \<or> CHR ''a'' \<le> c \<and> c \<le> CHR ''f'') digest"

definition simple_id :: "string \<Rightarrow> bool" where
  "simple_id s = list_all (\<lambda>c. isalnum c \<or> c = CHR ''_'') s"

definition parse_part :: "'d disk \<Rightarrow> string \<Rightarrow> 'd json \<Rightarrow> 'd json \<Rightarrow> string \<Rightarrow> string \<Rightarrow> model_part result" where
  "parse_part disk base manifest model_parts part_name loc =
     res_bind (object_member model_parts part_name loc) (\<lambda>part.
     if (case json_find part ''function_name'' of None \<Rightarrow> False | Some v \<Rightarrow> \<not> is_null v) then
       Inl (bundle_error (loc @ '' ONNX parts cannot name a function''))
     else
       res_bind (string_member part ''registry_id'' loc) (\<lambda>registry_id.
       res_bind (object_member manifest ''model_registry'' ''bundle_manifest.json'') (\<lambda>registry.
       res_bind (object_member registry registry_id ''model_registry'') (\<lambda>entry.
       res_bind (string_member entry ''model_path'' registry_id) (\<lambda>model_name.
       res_bind (string_member entry ''weights_path'' registry_id) (\<lambda>weights_name.
       res_bind (string_member entry ''sha256'' registry_id) (\<lambda>digest.
       if \<not> hex_digest digest then Inl (bundle_error (registry_id @ '' has an invalid sha256''))
       else
         res_bind (bundle_file disk base model_name) (\<lambda>model_path.
         res_bind (bundle_file disk base weights_name) (\<lambda>weights_path.
         if path_extension model_path \<noteq> ''.onnx'' then Inl (unsupported (registry_id @ '' is not an ONNX part''))
         else
           let component_id = path_stem model_path in
           if component_id = [] \<or> \<not> simple_id component_id then
             Inl (bundle_error (''ONNX part name is not an identifier: '' @ model_name))
           else Inr \<lparr>part_component_id = component_id, part_model_path = model_path,
             part_weights_path = weights_path, part_sha256 = digest\<rparr>)))))))))"

subsection \<open>The bundle\<close>

fun check_interfaces :: "'d json \<Rightarrow> string \<Rightarrow> string list \<Rightarrow> unit result" where
  "check_interfaces model_manifest loc [] = Inr ()"
| "check_interfaces model_manifest loc (key # rest) =
     res_bind (string_member model_manifest key loc) (\<lambda>type.
     if type \<noteq> ''fp16_scale_sending_no_reset_1p'' then
       Inl (unsupported (loc @ '' uses unsupported interface '' @ type))
     else check_interfaces model_manifest loc rest)"

definition named_file :: "'d disk \<Rightarrow> string \<Rightarrow> 'd json \<Rightarrow> string \<Rightarrow> string \<Rightarrow> string result" where
  "named_file disk base model_manifest key loc =
     res_bind (string_member model_manifest key loc) (\<lambda>name. bundle_file disk base name)"

definition load_model :: "'d disk \<Rightarrow> string \<Rightarrow> 'd json \<Rightarrow> 'd json \<Rightarrow> string \<Rightarrow> string \<Rightarrow> 'd json \<Rightarrow> bundle_model result" where
  "load_model disk base document metadata name canvas_id model_manifest =
     (let loc = ''model_manifests.'' @ canvas_id in
      if \<not> is_object model_manifest then Inl (bundle_error (loc @ '' must be an object''))
      else
        res_bind (check_interfaces model_manifest loc [''encoder_interface_type'', ''decoder_interface_type'']) (\<lambda>_.
        if (case json_find model_manifest ''scale_decoder_model_path'' of None \<Rightarrow> False | Some v \<Rightarrow> \<not> is_null v) then
          Inl (unsupported (loc @ '' requires a scale decoder model''))
        else
          res_bind (object_member metadata canvas_id ''model_metadata'') (\<lambda>model_metadata.
          res_bind (parse_parameters disk model_metadata (''model_metadata.'' @ canvas_id)) (\<lambda>parameters.
          if canvas_id \<noteq> dimensions_string (mp_width parameters) (mp_height parameters) then
            Inl (bundle_error (loc @ '' id does not match its canvas''))
          else
            res_bind (named_file disk base model_manifest ''metadata_path'' loc) (\<lambda>metadata_path.
            res_bind (check_conversion_metadata disk metadata_path parameters) (\<lambda>precision.
            res_bind (named_file disk base model_manifest ''gaussian_pmf_path'' loc) (\<lambda>gaussian_path.
            res_bind (load_gaussian disk gaussian_path) (\<lambda>gaussian.
            res_bind (named_file disk base model_manifest ''bit_estimator_pmf_path'' loc) (\<lambda>bit_path.
            res_bind (load_bit_estimator disk bit_path) (\<lambda>bit_estimator.
            if be_channels bit_estimator \<noteq> mp_hyperprior_channels parameters \<or> be_qp_num bit_estimator < mp_qp_num parameters then
              Inl (bundle_error (loc @ '' bit-estimator PMFs do not match the model''))
            else
              res_bind (object_member model_manifest ''model_parts'' loc) (\<lambda>parts.
              if length (object_value parts) \<noteq> 2 then
                Inl (bundle_error (loc @ '' must have exactly an encoder and a decoder''))
              else
                res_bind (parse_part disk base document parts ''MLVCEncoder'' loc) (\<lambda>encoder.
                res_bind (parse_part disk base document parts ''MLVCDecoder'' loc) (\<lambda>decoder.
                Inr \<lparr>bm_canvas_id = canvas_id, bm_stream_identity = name @ ''-'' @ canvas_id, bm_parameters = parameters,
                  bm_precision = precision, bm_encoder = encoder, bm_decoder = decoder, bm_gaussian = gaussian,
                  bm_bit_estimator = bit_estimator\<rparr>)))))))))))))"

fun load_models :: "'d disk \<Rightarrow> string \<Rightarrow> 'd json \<Rightarrow> 'd json \<Rightarrow> string \<Rightarrow> (string \<times> 'd json) list \<Rightarrow> bundle_model list result" where
  "load_models disk base document metadata name [] = Inr []"
| "load_models disk base document metadata name ((canvas_id, model_manifest) # rest) =
     res_bind (load_model disk base document metadata name canvas_id model_manifest) (\<lambda>model.
     res_bind (load_models disk base document metadata name rest) (\<lambda>models. Inr (model # models)))"

definition canvas_order :: "bundle_model \<Rightarrow> nat \<times> string" where
  "canvas_order m = (unat (ucast (mp_width (bm_parameters m)) * ucast (mp_height (bm_parameters m)) :: u64), bm_canvas_id m)"

definition load_bundle :: "'d disk \<Rightarrow> string \<Rightarrow> model_bundle result" where
  "load_bundle disk base =
     (let loc = ''bundle_manifest.json'' in
      res_bind (bundle_file disk base loc) (\<lambda>manifest_path.
      res_bind (parse_document disk manifest_path) (\<lambda>document.
      res_bind (string_member document ''bundle_name'' loc) (\<lambda>name.
      res_bind (string_member document ''model_type'' loc) (\<lambda>model_type.
      res_bind (string_member document ''target_device'' loc) (\<lambda>target.
      if model_type \<noteq> ''onnx'' then
        Inl (Error incompatible_target (''NVCR runs ONNX MLVC bundles; this bundle is '' @ model_type) ''mlvc.bundle'')
      else
        res_bind (object_member document ''model_manifests'' loc) (\<lambda>manifests.
        res_bind (object_member document ''model_metadata'' loc) (\<lambda>metadata.
        res_bind (load_models disk base document metadata name (object_value manifests)) (\<lambda>models.
        if models = [] then Inl (bundle_error ''bundle has no models'')
        else Inr \<lparr>bu_root = base, bu_name = name, bu_target_device = target,
          bu_models = sort_key canvas_order models\<rparr>)))))))))"

subsection \<open>What a loaded bundle is\<close>

text \<open>The well-formedness every model of a loaded bundle has.\<close>

definition model_ok :: "bundle_model \<Rightarrow> bool" where
  "model_ok m \<longleftrightarrow>
     bm_canvas_id m = dimensions_string (mp_width (bm_parameters m)) (mp_height (bm_parameters m))
     \<and> (\<exists>loc. validate_parameters loc (bm_parameters m) = Inr (bm_parameters m))
     \<and> ga_scale_levels (bm_gaussian m) > 0
     \<and> length (pmf_lengths (ga_pmf (bm_gaussian m))) = unat (ga_scale_levels (bm_gaussian m))
     \<and> be_channels (bm_bit_estimator m) = mp_hyperprior_channels (bm_parameters m)
     \<and> be_qp_num (bm_bit_estimator m) \<ge> mp_qp_num (bm_parameters m)
     \<and> length (pmf_lengths (be_pmf (bm_bit_estimator m))) = unat (be_qp_num (bm_bit_estimator m)) * unat (be_channels (bm_bit_estimator m))
     \<and> hex_digest (part_sha256 (bm_encoder m)) \<and> hex_digest (part_sha256 (bm_decoder m))"

lemma parse_parameters_ok:
  assumes "parse_parameters disk v loc = Inr p"
  shows "\<exists>loc. validate_parameters loc p = Inr p"
proof -
  from assms obtain q where "validate_parameters loc q = Inr p"
    unfolding parse_parameters_def result_simps by (elim exE conjE) blast
  then show ?thesis using validate_parameters_ok(1) by metis
qed

lemma parse_part_ok: "parse_part disk base v parts name loc = Inr p \<Longrightarrow> hex_digest (part_sha256 p)"
  by (auto simp: parse_part_def result_simps Let_def split: option.splits if_splits)

lemma load_gaussian_ok:
  assumes "load_gaussian disk path = Inr g"
  shows "ga_scale_levels g > 0" "length (pmf_lengths (ga_pmf g)) = unat (ga_scale_levels g)"
  using assms by (auto simp: load_gaussian_def result_simps Let_def word_gt_0)

lemma load_bit_estimator_ok:
  assumes "load_bit_estimator disk path = Inr e"
  shows "length (pmf_lengths (be_pmf e)) = unat (be_qp_num e) * unat (be_channels e)"
  using assms by (auto simp: load_bit_estimator_def result_simps Let_def ucast_mult_u32)

lemma load_model_ok:
  assumes "load_model disk base document metadata name canvas_id v = Inr m"
  shows "bm_canvas_id m = canvas_id" "bm_stream_identity m = name @ ''-'' @ canvas_id" "model_ok m"
proof -
  from assms obtain p precision g e enc dec parts where
    m: "\<lparr>bm_canvas_id = canvas_id, bm_stream_identity = name @ ''-'' @ canvas_id, bm_parameters = p,
          bm_precision = precision, bm_encoder = enc, bm_decoder = dec, bm_gaussian = g, bm_bit_estimator = e\<rparr> = m"
    and p: "\<exists>w loc. parse_parameters disk w loc = Inr p" "canvas_id = dimensions_string (mp_width p) (mp_height p)"
    and g: "\<exists>path. load_gaussian disk path = Inr g" and e: "\<exists>path. load_bit_estimator disk path = Inr e"
    and c: "be_channels e = mp_hyperprior_channels p" "\<not> be_qp_num e < mp_qp_num p"
    and d: "\<exists>loc. parse_part disk base document parts ''MLVCEncoder'' loc = Inr enc"
      "\<exists>loc. parse_part disk base document parts ''MLVCDecoder'' loc = Inr dec"
    unfolding load_model_def Let_def result_simps sum.inject not_not de_Morgan_disj by (elim exE conjE) blast
  note m [symmetric, simp]
  show "bm_canvas_id m = canvas_id" "bm_stream_identity m = name @ ''-'' @ canvas_id" by simp_all
  have "\<exists>loc. validate_parameters loc p = Inr p" using p(1) parse_parameters_ok by blast
  moreover have "ga_scale_levels g > 0" "length (pmf_lengths (ga_pmf g)) = unat (ga_scale_levels g)"
    "length (pmf_lengths (be_pmf e)) = unat (be_qp_num e) * unat (be_channels e)"
    using g e load_gaussian_ok load_bit_estimator_ok by blast+
  moreover have "hex_digest (part_sha256 enc)" "hex_digest (part_sha256 dec)" using d parse_part_ok by blast+
  ultimately show "model_ok m" using p(2) c by (simp add: model_ok_def not_less)
qed

lemma load_models_ok:
  "load_models disk base document metadata name ms = Inr models \<Longrightarrow>
     map bm_canvas_id models = map fst ms \<and> (\<forall>m \<in> set models. model_ok m \<and> bm_stream_identity m = name @ ''-'' @ bm_canvas_id m)"
proof (induction ms arbitrary: models)
  case (Cons a ms)
  obtain k v where a: "a = (k, v)" by force
  from Cons.prems obtain m models' where "load_model disk base document metadata name k v = Inr m"
    "load_models disk base document metadata name ms = Inr models'" "models = m # models'"
    by (auto simp: a result_simps)
  then show ?case using Cons.IH load_model_ok [of disk base document metadata name k v m] by (simp add: a)
qed simp

lemma document_object_keys:
  assumes "parse_document disk path = Inr document" "json_find document key = Some v"
  shows "distinct (map fst (object_value v))"
proof -
  have "json_wf (Suc maximum_depth) document"
    using assms(1) json_parser_wf
    by (auto simp: parse_document_def json_parse_file_def json_parse_def split: if_splits sum.splits simp del: json_wf.simps)
  moreover obtain m where m: "document = JObject m" "map_of m key = Some v"
    using assms(2) by (cases document) (simp_all add: json_find_def)
  ultimately have "json_wf maximum_depth v" using map_of_SomeD [OF m(2)] by (auto simp: list_all_iff)
  then show ?thesis
    by (cases v) (auto simp: maximum_depth_def eval_nat_numeral omap_ok_def strict_sorted_iff)
qed

subsection \<open>A bundle on disk\<close>

text \<open>Documents in the parser's normal form, printed into files.\<close>

definition jobj :: "(string \<times> 'd json) list \<Rightarrow> 'd json" where
  "jobj ms = JObject (fold (\<lambda>(k, v). omap_assign k v) ms [])"

definition jnum :: "int \<Rightarrow> string json" where
  "jnum i = JNumber (int_string i) (Some i)"

lemma fold_assign_ok:
  "omap_ok acc \<Longrightarrow> omap_ok (fold (\<lambda>(k, v). omap_assign k v) ms acc)"
  "list_all P (map snd acc) \<Longrightarrow> list_all P (map snd ms) \<Longrightarrow>
     list_all P (map snd (fold (\<lambda>(k, v). omap_assign k v) ms acc))"
  "map_of (fold (\<lambda>(k, v). omap_assign k v) ms acc) = map_of (rev ms @ acc)"
proof (induction ms arbitrary: acc)
  case (Cons a ms)
  obtain k v where a: "a = (k, v)" by force
  have sub: "set (omap_assign k v acc) \<subseteq> insert (k, v) (set acc)" for acc :: "('a \<times> 'b) list" by (rule set_omap_assign_pairs)
  { case 1 then show ?case using Cons(1) [of "omap_assign k v acc"] omap_assign_sorted [of acc k v]
    by (simp add: a omap_ok_def) }
  { case 2
    then have "P v" "\<forall>x \<in> set acc. P (snd x)" by (simp_all add: a list_all_iff)
    then have "\<forall>x \<in> insert (k, v) (set acc). P (snd x)" by simp
    then have "\<forall>x \<in> set (omap_assign k v acc). P (snd x)" using sub by blast
    then have "list_all P (map snd (omap_assign k v acc))" by (simp add: list.pred_map list_all_iff)
    then show ?case using Cons(2) [of "omap_assign k v acc"] 2 by (simp add: a) }
  { case 3 show ?case using Cons(3) [of "omap_assign k v acc"] by (simp add: a map_of_omap_assign fun_eq_iff map_add_def) }
qed simp_all

lemma json_find_jobj [simp]: "json_find (jobj ms) key = map_of (rev ms) key"
  by (simp add: json_find_def jobj_def fold_assign_ok)

lemma is_object_jobj [simp]: "is_object (jobj ms)"
  by (simp add: jobj_def)

lemma jobj_wf: "list_all (json_wf n) (map snd ms) \<Longrightarrow> json_wf (Suc n) (jobj ms)"
  using fold_assign_ok(1) [of "[]" ms] fold_assign_ok(2) [of "json_wf n" "[]" ms]
  by (simp add: jobj_def omap_ok_def list.pred_map)

lemma jobj_integral: "list_all (json_integral rd) (map snd ms) \<Longrightarrow> json_integral rd (jobj ms)"
  using fold_assign_ok(2) [of "json_integral rd" "[]" ms] by (simp add: jobj_def list_all_iff case_prod_beta)

lemma object_value_jobj [simp]:
  "object_value (jobj [(k, v)]) = [(k, v)]"
  "k \<noteq> k' \<Longrightarrow> length (object_value (jobj [(k, v), (k', v')])) = 2"
  by (simp_all add: jobj_def)

definition strings :: "string list \<Rightarrow> string json" where
  "strings ss = JArray (map JString ss)"

definition part_document :: "string list \<Rightarrow> string list \<Rightarrow> string json" where
  "part_document inputs outputs = jobj
     [(''precision'', JString ''fp16''), (''input_fields'', strings inputs), (''output_fields'', strings outputs)]"

definition conversion_document :: "string json" where
  "conversion_document = jobj
     [(''params'', jobj [(''split_model_params'', jobj [(''split_type'', JString ''dmc61sbr_e1d1''),
        (''model_width'', jnum 4), (''model_height'', jnum 2)])]),
      (''model_parts_metadata'', jobj
        [(''MLVCDecoder'', part_document [''z_raw'', ''y_raw_0'', ''y_raw_1'', ''ref_feature'', ''q_index_shifted''] [''x_hat'', ''feature'']),
         (''MLVCEncoder'', part_document [''x'', ''ref_feature'', ''q_index_shifted''] [''feature'', ''z_raw'', ''y_raw_0'', ''y_raw_1''])])]"

definition gaussian_document :: "string json" where
  "gaussian_document = jobj
     [(''pmf_lengths'', JArray [jnum 3]), (''pmf_offsets'', JArray [jnum (- 1)]),
      (''pmf_table'', JArray [jnum 16384, jnum 32768, jnum 16384]), (''scale_levels'', jnum 1),
      (''index_space'', JBoolean True)]"

definition estimator_document :: "string json" where
  "estimator_document = jobj
     [(''pmf_lengths'', JArray [jnum 2]), (''pmf_offsets'', JArray [jnum 0]), (''pmf_table'', JArray [jnum 32768, jnum 32768]),
      (''qp_num'', jnum 1), (''channels'', jnum 1)]"

definition parameters_document :: "string json" where
  "parameters_document = jobj
     [(''model_width'', jnum 4), (''model_height'', jnum 2), (''qp_num'', jnum 1), (''total_qp_num'', jnum 1),
      (''feature_channels'', jnum 1), (''latent_channels'', jnum 2), (''hyperprior_channels'', jnum 1),
      (''downsample_feature'', jnum 2), (''downsample_latent'', jnum 2), (''downsample_hyperprior'', jnum 2),
      (''y_scale_repeat'', jnum 2), (''ltr_start_idx'', jnum 0), (''frame_index_map'', JArray [jnum 0]),
      (''qp_shift'', JArray [jnum 0]), (''iframe_period'', jnum 8), (''scale_decoder_type'', JString ''upsample''),
      (''pixel_range'', jnum 1)]"

definition manifest_document :: "string json" where
  "manifest_document = jobj
     [(''bundle_name'', JString ''tiny''), (''model_type'', JString ''onnx''), (''target_device'', JString ''cpu''),
      (''model_manifests'', jobj [(''4x2'', jobj
        [(''encoder_interface_type'', JString ''fp16_scale_sending_no_reset_1p''),
         (''decoder_interface_type'', JString ''fp16_scale_sending_no_reset_1p''),
         (''metadata_path'', JString ''meta.json''), (''gaussian_pmf_path'', JString ''g.json''),
         (''bit_estimator_pmf_path'', JString ''z.json''),
         (''model_parts'', jobj [(''MLVCDecoder'', jobj [(''registry_id'', JString ''dec'')]),
            (''MLVCEncoder'', jobj [(''registry_id'', JString ''enc'')])])])]),
      (''model_metadata'', jobj [(''4x2'', parameters_document)]),
      (''model_registry'', jobj
        [(''dec'', jobj [(''model_path'', JString ''dec.onnx''), (''weights_path'', JString ''dec.data''), (''sha256'', JString (replicate 64 (CHR ''d'')))]),
         (''enc'', jobj [(''model_path'', JString ''enc.onnx''), (''weights_path'', JString ''enc.data''), (''sha256'', JString (replicate 64 (CHR ''e'')))])])]"

definition tiny_document :: "string \<Rightarrow> string json" where
  "tiny_document path =
     (if path = ''b/bundle_manifest.json'' then manifest_document
      else if path = ''b/meta.json'' then conversion_document
      else if path = ''b/g.json'' then gaussian_document
      else estimator_document)"

definition tiny_disk :: "string disk" where
  "tiny_disk = \<lparr>dk_regular = (\<lambda>_. True),
     dk_file = (\<lambda>path. \<lparr>if_path = path, if_open = True, if_content = as_bytes (json_print (tiny_document path)), if_reaches_eof = True\<rparr>),
     dk_memory = True, dk_double = Some, dk_is_one = (\<lambda>d. d = int_string 1)\<rparr>"

lemma leaf_wf:
  "json_wf (Suc n) (JString s)" "json_wf (Suc n) (JBoolean t)" "list_all (json_wf n) vs \<Longrightarrow> json_wf (Suc n) (JArray vs)"
  "- (2 ^ 63) \<le> i \<Longrightarrow> i < 2 ^ 63 \<Longrightarrow> json_wf (Suc n) (jnum i)"
  by (simp_all add: jnum_def int64_range_def)

lemmas tiny_documents = tiny_document_def manifest_document_def conversion_document_def gaussian_document_def
  estimator_document_def parameters_document_def part_document_def strings_def

lemma tiny_documents_ok: "json_wf (Suc maximum_depth) (tiny_document path)" "json_integral Some (tiny_document path)"
proof -
  show "json_wf (Suc maximum_depth) (tiny_document path)"
    by (simp add: tiny_documents maximum_depth_def jobj_wf leaf_wf eval_nat_numeral list.pred_map o_def del: json_wf.simps)
  have "json_integral Some (jnum i)" for i by (simp add: jnum_def)
  then show "json_integral Some (tiny_document path)"
    by (simp add: tiny_documents jobj_integral list.pred_map o_def)
qed

lemma parse_tiny: "parse_document tiny_disk path = Inr (tiny_document path)"
  by (simp add: parse_document_def tiny_disk_def json_parse_file_def json_parse_def json_parser_print [OF tiny_documents_ok])

lemma tiny_files: "dk_regular tiny_disk path" "dk_is_one tiny_disk d \<longleftrightarrow> d = int_string 1"
  by (simp_all add: tiny_disk_def)

lemma integer_in_jnum:
  "integer_in lo hi (jnum i) = (if lo \<le> i \<and> i \<le> hi then Some i else None)" "\<not> is_null (jnum i)"
  "(case jnum i of JNumber d j \<Rightarrow> f d j | _ \<Rightarrow> b) = f (int_string i) (Some i)"
  by (simp_all add: integer_in_def jnum_def is_null_def)

lemma tiny_file:
  "bundle_file tiny_disk ''b'' name =
     (if name = [] \<or> CHR ''/'' \<in> set name \<or> CHR 0x5c \<in> set name \<or> name = ''.'' \<or> name = ''..'' then
        Inl (bundle_error (''bundle file name is not a plain file name: '' @ name))
      else Inr (''b/'' @ name))"
  by (simp add: bundle_file_def path_append_def tiny_files)

lemmas member_defs = json_member_def object_member_def string_member_def uint_member_def as_uint_def integer_in_jnum
  optional_uint_member_def int_array_member_def

lemma tiny_gaussian: "\<exists>g. load_gaussian tiny_disk ''b/g.json'' = Inr g"
  by (simp add: load_gaussian_def parse_tiny tiny_documents parse_pmf_def member_defs)

lemma tiny_estimator: "\<exists>g. load_bit_estimator tiny_disk ''b/z.json'' = Inr g \<and> be_channels g = 1 \<and> be_qp_num g = 1"
  by (simp add: load_bit_estimator_def parse_tiny tiny_documents parse_pmf_def member_defs)

lemma tiny_parameters:
  "\<exists>p. parse_parameters tiny_disk parameters_document loc = Inr p \<and> mp_width p = 4 \<and> mp_height p = 2
     \<and> mp_hyperprior_channels p = 1 \<and> mp_qp_num p = 1"
  by (simp add: parse_parameters_def parameters_document_def parameter_keys_def member_defs tiny_files
    validate_parameters_def shapes_valid_def)

lemma tiny_conversion:
  "mp_width p = 4 \<Longrightarrow> mp_height p = 2 \<Longrightarrow> check_conversion_metadata tiny_disk ''b/meta.json'' p = Inr fp16"
  by (simp add: check_conversion_metadata_def parse_tiny tiny_documents member_defs check_part_def check_fields_def)

lemma tiny_digests: "hex_digest (replicate 64 (CHR ''d''))" "hex_digest (replicate 64 (CHR ''e''))"
  by (simp_all add: hex_digest_def list_all_iff less_eq_char_def)

lemma tiny_part:
  "rid \<in> {''enc'', ''dec''} \<Longrightarrow> json_find parts name = Some (jobj [(''registry_id'', JString rid)]) \<Longrightarrow>
     \<exists>p. parse_part tiny_disk ''b'' manifest_document parts name loc = Inr p"
  by (auto simp: parse_part_def manifest_document_def member_defs tiny_file tiny_digests path_extension_def path_stem_def
    path_filename_def simple_id_def isalnum_def islower_def isdigit_def char_code_def)

lemma tiny_bundle: "\<exists>b. load_bundle tiny_disk ''b'' = Inr b"
proof -
  let ?parts = "jobj [(''MLVCDecoder'', jobj [(''registry_id'', JString ''dec'')]), (''MLVCEncoder'', jobj [(''registry_id'', JString ''enc'')])]"
  obtain p where p: "parse_parameters tiny_disk parameters_document ''model_metadata.4x2'' = Inr p" "mp_width p = 4" "mp_height p = 2"
    "mp_hyperprior_channels p = 1" "mp_qp_num p = 1"
    using tiny_parameters by blast
  obtain g where g: "load_gaussian tiny_disk ''b/g.json'' = Inr g" using tiny_gaussian by blast
  obtain e where e: "load_bit_estimator tiny_disk ''b/z.json'' = Inr e" "be_channels e = 1" "be_qp_num e = 1"
    using tiny_estimator by blast
  obtain enc dec where
    q: "parse_part tiny_disk ''b'' manifest_document ?parts ''MLVCEncoder'' ''model_manifests.4x2'' = Inr enc"
      "parse_part tiny_disk ''b'' manifest_document ?parts ''MLVCDecoder'' ''model_manifests.4x2'' = Inr dec"
    using tiny_part [of "''enc''" ?parts] tiny_part [of "''dec''" ?parts] by fastforce
  have "dimensions_string 4 2 = ''4x2''" by code_simp
  moreover have "is_object parameters_document" by (simp add: parameters_document_def)
  ultimately show ?thesis
    using p g e q
    by (simp add: load_bundle_def tiny_file parse_tiny tiny_document_def load_model_def named_file_def Let_def member_defs
      tiny_conversion manifest_document_def)
qed

text \<open>
  Property C7. What \<open>load_bundle\<close> accepts is well formed. There is at least one model, the models are
  in the order of their canvas areas, no two have the same canvas or the same identity in the stream, and every
  model passed the checks of its parameters, is named after its canvas, has one Gaussian distribution per
  scale level and enough hyperprior distributions for every Q index and channel, and carries SHA-256 digests of the
  form the verification compares with.
\<close>

theorem load_bundle_well_formed:
  assumes "load_bundle disk base = Inr b"
  shows "bu_models b \<noteq> [] \<and> sorted (map area (bu_models b)) \<and> bundle_ok b \<and> list_all model_ok (bu_models b)"
proof -
  from assms obtain path document manifests metadata models name target where
    d: "parse_document disk path = Inr document" "object_member document ''model_manifests'' ''bundle_manifest.json'' = Inr manifests"
      "load_models disk base document metadata name (object_value manifests) = Inr models" "models \<noteq> []"
    and b: "b = \<lparr>bu_root = base, bu_name = name, bu_target_device = target, bu_models = sort_key canvas_order models\<rparr>"
    unfolding load_bundle_def Let_def result_simps by auto
  have "json_find document ''model_manifests'' = Some manifests"
    using d(2) by (auto simp: object_member_def json_member_def result_simps split: option.splits)
  from document_object_keys [OF d(1) this] load_models_ok [OF d(3)]
  have ok: "distinct (map bm_canvas_id models)" "\<forall>m \<in> set models. model_ok m \<and> bm_stream_identity m = name @ ''-'' @ bm_canvas_id m"
    by simp_all
  have "sorted (map canvas_order (sort_key canvas_order models))" by simp
  then have "sorted (map (fst \<circ> canvas_order) (sort_key canvas_order models))"
    unfolding sorted_map by (rule sorted_wrt_mono_rel [rotated]) (auto simp: less_eq_prod_def)
  moreover have "fst \<circ> canvas_order = area" by (simp add: fun_eq_iff canvas_order_def area_def ucast_mult_u32)
  moreover have "distinct (map bm_canvas_id (sort_key canvas_order models))"
    using ok(1) by (simp add: distinct_map)
  moreover have "sort_key canvas_order models \<noteq> []" using d(4) by (metis length_0_conv length_sort)
  ultimately show ?thesis using ok(2) by (simp add: b bundle_ok_def list_all_iff)
qed

theorem load_bundle_well_formed_witness:
  "\<exists>b. load_bundle tiny_disk ''b'' = Inr b \<and> bu_models b \<noteq> [] \<and> sorted (map area (bu_models b)) \<and> bundle_ok b
     \<and> list_all model_ok (bu_models b)"
  using tiny_bundle load_bundle_well_formed by blast

end
