(* ===== verification/MlvcCanvas.thy ===== *)
theory MlvcCanvas
  imports MlvcEntropy MlvcSequence Resolver Sha256 Stats Configuration MlvcLoad
begin

text \<open>
  The part of \<^verbatim>\<open>src/mlvc/session.cpp\<close> the two directions share: tensors in provider buffers, the
  loading of canvases and the execution of a stage. A provider (\<^verbatim>\<open>include/nvcr/provider/experimental/session.hpp\<close>)
  is an interface: its calls are fields of the environment record and pass the provider's state on. A buffer is held
  by one tensor that nothing else writes, so a tensor owns its bytes; what a stage writes, also when it fails, is
  what \<open>submit\<close> returns for the views bound for writing. Timing and log lines are left out.
\<close>

subsection \<open>Provider vocabulary\<close>

datatype memory_domain = host | pinned_host | provider_device

datatype tensor_data_type = uint8 | int8 | int32 | float16 | float32

datatype tensor_access = read_access | write_access | read_write_access

record tensor_contract =
  tc_name :: string
  tc_data_type :: tensor_data_type
  tc_access :: tensor_access
  tc_dimensions :: "(int \<times> int) list"

record stage_descriptor =
  sd_stage_id :: string
  sd_artifact :: artifact_descriptor
  sd_tensors :: "tensor_contract list"
  sd_provider_options :: "(string, string) omap"

record tensor_view =
  tv_name :: string
  tv_data_type :: tensor_data_type
  tv_shape :: "int list"
  tv_access :: tensor_access
  tv_bytes :: "byte list"
  tv_size_bytes :: u64

record ('p, 'st, 'enc, 'dec, 'w, 'r) environment =
  ev_allocate :: "u64 \<Rightarrow> memory_domain \<Rightarrow> 'p \<Rightarrow> byte list result \<times> 'p"
  ev_load_stage :: "stage_descriptor \<Rightarrow> 'p \<Rightarrow> 'st result \<times> 'p"
  ev_submit :: "'st option \<Rightarrow> tensor_view list \<Rightarrow> 'p \<Rightarrow> unit result \<times> byte list list \<times> 'p"
  ev_rans :: "('enc, 'dec, 'w, 'r) rans_library"
  ev_file :: "string \<Rightarrow> input_file"
  ev_memory :: "nat \<Rightarrow> bool"

subsection \<open>Tensors\<close>

record tensor =
  tn_shape :: "int list"
  tn_type :: tensor_data_type
  tn_bytes :: "byte list"

fun element_bytes :: "tensor_data_type \<Rightarrow> u64" where
  "element_bytes uint8 = 1"
| "element_bytes int8 = 1"
| "element_bytes float16 = 2"
| "element_bytes int32 = 4"
| "element_bytes float32 = 4"

definition element_count :: "int list \<Rightarrow> u64" where
  "element_count shape = fold (\<lambda>dimension count. count * word_of_int dimension) shape 1"

record ('st, 'enc, 'dec) canvas =
  cv_model :: bundle_model
  cv_latent :: latent_shape
  cv_float_type :: tensor_data_type
  cv_encoder :: "'st option"
  cv_decoder :: "'st option"
  cv_entropy :: "('enc, 'dec) entropy_coder"
  cv_image_shape :: "int list"
  cv_feature_shape :: "int list"
  cv_z_shape :: "int list"
  cv_y_shape :: "int list"
  cv_zero_feature :: tensor

record ('p, 'st, 'enc, 'dec) shared_state =
  mh_bundle :: model_bundle
  mh_provider :: 'p
  mh_provider_id :: string
  mh_canvases :: "(string, ('st, 'enc, 'dec) canvas) omap"
  mh_statistics :: statistics
  mh_configuration :: runtime_configuration

definition uses_tensorrt :: "('p, 'st, 'enc, 'dec) shared_state \<Rightarrow> bool" where
  "uses_tensorrt s \<longleftrightarrow> mh_provider_id s = ''tensorrt''"

definition allocate :: "('p, 'st, 'enc, 'dec, 'w, 'r) environment \<Rightarrow> int list \<Rightarrow> tensor_data_type
    \<Rightarrow> ('p, 'st, 'enc, 'dec) shared_state \<Rightarrow> tensor result \<times> ('p, 'st, 'enc, 'dec) shared_state" where
  "allocate env shape type s =
     (let size = element_count shape * element_bytes type;
          (buffer, p) = ev_allocate env size (if uses_tensorrt s then pinned_host else host) (mh_provider s);
          s = s\<lparr>mh_provider := p\<rparr> in
      case buffer of
        Inl e \<Rightarrow> (Inl e, s)
      | Inr bytes \<Rightarrow>
        if length bytes < unat size then
          (Inl (mlvc_error incompatible_target ''MLVC requires host-addressable provider buffers''), s)
        else (Inr \<lparr>tn_shape = shape, tn_type = type, tn_bytes = bytes\<rparr>, s))"

definition bind_view :: "tensor_access \<Rightarrow> string \<times> tensor \<Rightarrow> tensor_view" where
  "bind_view access binding =
     (case binding of (name, t) \<Rightarrow>
      \<lparr>tv_name = name, tv_data_type = tn_type t, tv_shape = tn_shape t, tv_access = access,
       tv_bytes = tn_bytes t, tv_size_bytes = element_count (tn_shape t) * element_bytes (tn_type t)\<rparr>)"

text \<open>The outputs come back with what the stage wrote into them.\<close>

definition run_stage :: "('p, 'st, 'enc, 'dec, 'w, 'r) environment \<Rightarrow> 'st option \<Rightarrow> (string \<times> tensor) list
    \<Rightarrow> (string \<times> tensor) list \<Rightarrow> ('p, 'st, 'enc, 'dec) shared_state
    \<Rightarrow> unit result \<times> tensor list \<times> ('p, 'st, 'enc, 'dec) shared_state" where
  "run_stage env stage inputs outputs s =
     (let views = map (bind_view read_access) inputs @ map (bind_view write_access) outputs;
          (done, written, p) = ev_submit env stage views (mh_provider s) in
      (done, map (\<lambda>i. let t = snd (outputs ! i) in if i < length written then t\<lparr>tn_bytes := written ! i\<rparr> else t)
         [0..<length outputs], s\<lparr>mh_provider := p\<rparr>))"

subsection \<open>Loading canvases\<close>

definition verify_digest :: "(string \<Rightarrow> input_file) \<Rightarrow> model_part \<Rightarrow> unit result" where
  "verify_digest file part =
     res_bind (sha256_files [file (part_model_path part), file (part_weights_path part)] ''mlvc.bundle'') (\<lambda>digest.
     if digest \<noteq> part_sha256 part then
       Inl (Error digest_mismatch (''MLVC bundle digest mismatch: '' @ part_model_path part) ''mlvc.bundle'')
     else Inr ())"

definition verify_digests :: "(string \<Rightarrow> input_file) \<Rightarrow> bundle_model \<Rightarrow> unit result" where
  "verify_digests file model =
     res_bind (verify_digest file (bm_encoder model)) (\<lambda>_. verify_digest file (bm_decoder model))"

definition create_canvas :: "('p, 'st, 'enc, 'dec, 'w, 'r) environment \<Rightarrow> bundle_model
    \<Rightarrow> ('p, 'st, 'enc, 'dec) shared_state \<Rightarrow> ('st, 'enc, 'dec) canvas result \<times> ('p, 'st, 'enc, 'dec) shared_state" where
  "create_canvas env model =
     and_then (just (verify_digests (ev_file env) model)) (\<lambda>_.
     let latent = latent_shape_of (bm_parameters model);
         float_type = (if bm_precision model = fp16 then float16 else float32);
         p = bm_parameters model;
         feature_shape = [1, uint (mp_feature_channels p), uint (mp_height p div mp_downsample_feature p),
           uint (mp_width p div mp_downsample_feature p)] in
     and_then (just (entropy_create (ev_rans env) model)) (\<lambda>entropy.
     and_then (allocate env feature_shape float_type) (\<lambda>zero.
     just (Inr \<lparr>cv_model = model, cv_latent = latent, cv_float_type = float_type, cv_encoder = None,
       cv_decoder = None, cv_entropy = entropy,
       cv_image_shape = [1, 3, uint (mp_height p), uint (mp_width p)], cv_feature_shape = feature_shape,
       cv_z_shape = [1, uint (ls_z_channels latent), uint (ls_z_height latent), uint (ls_z_width latent)],
       cv_y_shape = [1, uint (ls_y_channels latent), uint (ls_y_height latent), uint (ls_y_width latent)],
       cv_zero_feature = zero\<lparr>tn_bytes := replicate (length (tn_bytes zero)) 0\<rparr>\<rparr>))))"

definition tensor_contract_of :: "('st, 'enc, 'dec) canvas \<Rightarrow> tensor_access \<Rightarrow> string \<times> int list \<Rightarrow> tensor_contract" where
  "tensor_contract_of canvas access binding =
     (case binding of (name, shape) \<Rightarrow>
      \<lparr>tc_name = name, tc_data_type = (if name = ''q_index_shifted'' then int32 else cv_float_type canvas),
       tc_access = access, tc_dimensions = map (\<lambda>dimension. (dimension, dimension)) shape\<rparr>)"

definition qnn_options :: "(string, string) omap" where
  "qnn_options = fold (\<lambda>(k, v). omap_assign k v)
     [(''qnn.graph_optimization'', ''disable''), (''qnn.htp_performance_mode'', ''burst''),
      (''qnn.htp_graph_finalization_optimization_mode'', ''3'')] []"

definition stage_of :: "('p, 'st, 'enc, 'dec) shared_state \<Rightarrow> ('st, 'enc, 'dec) canvas \<Rightarrow> model_part \<Rightarrow> string
    \<Rightarrow> (string \<times> int list) list \<Rightarrow> (string \<times> int list) list \<Rightarrow> stage_descriptor" where
  "stage_of s canvas part stage inputs outputs =
     (let model = cv_model canvas;
          stage_id = stage @ ''_'' @ bm_canvas_id model @ (if uses_tensorrt s then ''.plan'' else []) in
      \<lparr>sd_stage_id = stage_id,
       sd_artifact = \<lparr>ad_codec_id = ''mlvc'', ad_model_set_id = bu_name (mh_bundle s),
         ad_component_id = (if uses_tensorrt s then stage_id else part_component_id part),
         ad_engine_profile_id = bm_canvas_id model, ad_provider_id = mh_provider_id s,
         ad_precision = (if bm_precision model = fp16 then ''fp16'' else ''fp32''),
         ad_path = (if uses_tensorrt s then path_append (bu_root (mh_bundle s)) stage_id else bu_root (mh_bundle s)),
         ad_expected_digest = [], ad_codec_api_version = \<lparr>v1_major = 1\<rparr>, ad_provider_api_version = \<lparr>v1_major = 1\<rparr>,
         ad_model_set_version = \<lparr>v2_major = 1, v2_minor = 0\<rparr>,
         ad_manifest_schema_version = \<lparr>v2_major = 2, v2_minor = 0\<rparr>\<rparr>,
       sd_tensors = map (tensor_contract_of canvas read_access) inputs @ map (tensor_contract_of canvas write_access) outputs,
       sd_provider_options = qnn_options\<rparr>)"

definition load_stage :: "('p, 'st, 'enc, 'dec, 'w, 'r) environment \<Rightarrow> ('st, 'enc, 'dec) canvas \<Rightarrow> model_part \<Rightarrow> string
    \<Rightarrow> (string \<times> int list) list \<Rightarrow> (string \<times> int list) list \<Rightarrow> ('p, 'st, 'enc, 'dec) shared_state
    \<Rightarrow> 'st result \<times> ('p, 'st, 'enc, 'dec) shared_state" where
  "load_stage env canvas part stage inputs outputs s =
     (let (loaded, p) = ev_load_stage env (stage_of s canvas part stage inputs outputs) (mh_provider s) in
      (loaded, s\<lparr>mh_provider := p\<rparr>))"

datatype part = encoder_part | decoder_part

definition put_canvas :: "('st, 'enc, 'dec) canvas \<Rightarrow> ('p, 'st, 'enc, 'dec) shared_state \<Rightarrow> ('p, 'st, 'enc, 'dec) shared_state" where
  "put_canvas canvas s = s\<lparr>mh_canvases := omap_assign (bm_canvas_id (cv_model canvas)) canvas (mh_canvases s)\<rparr>"

definition find_canvas :: "('p, 'st, 'enc, 'dec, 'w, 'r) environment \<Rightarrow> bundle_model
    \<Rightarrow> ('p, 'st, 'enc, 'dec) shared_state \<Rightarrow> ('st, 'enc, 'dec) canvas result \<times> ('p, 'st, 'enc, 'dec) shared_state" where
  "find_canvas env model s =
     (case map_of (mh_canvases s) (bm_canvas_id model) of
        Some canvas \<Rightarrow> (Inr canvas, s)
      | None \<Rightarrow> and_then (create_canvas env model) (\<lambda>created s. (Inr created, put_canvas created s)) s)"

definition canvas_of :: "('p, 'st, 'enc, 'dec, 'w, 'r) environment \<Rightarrow> bundle_model \<Rightarrow> part
    \<Rightarrow> ('p, 'st, 'enc, 'dec) shared_state \<Rightarrow> ('st, 'enc, 'dec) canvas result \<times> ('p, 'st, 'enc, 'dec) shared_state" where
  "canvas_of env model part =
     and_then (find_canvas env model) (\<lambda>canvas.
     if part = encoder_part \<and> cv_encoder canvas = None then
       and_then (load_stage env canvas (bm_encoder model) ''mlvc_encoder''
          [(''x'', cv_image_shape canvas), (''ref_feature'', cv_feature_shape canvas), (''q_index_shifted'', [1])]
          [(''feature'', cv_feature_shape canvas), (''z_raw'', cv_z_shape canvas), (''y_raw_0'', cv_y_shape canvas),
           (''y_raw_1'', cv_y_shape canvas)]) (\<lambda>encoder s.
       let canvas = canvas\<lparr>cv_encoder := Some encoder\<rparr> in (Inr canvas, put_canvas canvas s))
     else if part = decoder_part \<and> cv_decoder canvas = None then
       and_then (load_stage env canvas (bm_decoder model) ''mlvc_decoder''
          [(''z_raw'', cv_z_shape canvas), (''y_raw_0'', cv_y_shape canvas), (''y_raw_1'', cv_y_shape canvas),
           (''ref_feature'', cv_feature_shape canvas), (''q_index_shifted'', [1])]
          [(''x_hat'', cv_image_shape canvas), (''feature'', cv_feature_shape canvas)]) (\<lambda>decoder s.
       let canvas = canvas\<lparr>cv_decoder := Some decoder\<rparr> in (Inr canvas, put_canvas canvas s))
     else just (Inr canvas))"

subsection \<open>Small conversions\<close>

definition write_q :: "u32 \<Rightarrow> tensor \<Rightarrow> tensor" where
  "write_q q_index_shifted t = t\<lparr>tn_bytes := le_bytes 4 q_index_shifted @ drop 4 (tn_bytes t)\<rparr>"

definition tensor_symbols :: "tensor \<Rightarrow> mlvc_precision \<Rightarrow> int list result" where
  "tensor_symbols t precision = to_symbols (tn_bytes t) (unat (element_count (tn_shape t))) precision"

definition fill_symbols :: "int list \<Rightarrow> mlvc_precision \<Rightarrow> tensor \<Rightarrow> tensor" where
  "fill_symbols symbols precision t = t\<lparr>tn_bytes := from_symbols symbols precision (tn_bytes t)\<rparr>"

end
