(* ===== verification/MlvcSession.thy ===== *)
theory MlvcSession
  imports MlvcCanvas AccessUnits Frames SessionApi
begin

text \<open>
  The encoder and decoder sessions of \<^verbatim>\<open>src/mlvc/session.cpp\<close>. Both hold a shared pointer to one state;
  here one record holds that state and the two sessions. A session keeps the canvas it loaded: the other direction
  only ever adds its own stage to it. \<open>std::exception\<close> is not raised by anything modelled here, so the
  \<open>catch\<close> clauses of \<open>send_frame\<close> and \<open>send_access_unit\<close> have no counterpart.
\<close>

subsection \<open>State\<close>

definition empty_tensor :: tensor where
  "empty_tensor = \<lparr>tn_shape = [], tn_type = uint8, tn_bytes = []\<rparr>"

record encoder_scratch =
  xs_x :: tensor
  xs_q :: tensor
  xs_z :: tensor
  xs_y_0 :: tensor
  xs_y_1 :: tensor

record decoder_scratch =
  ys_z :: tensor
  ys_y_0 :: tensor
  ys_y_1 :: tensor
  ys_q :: tensor
  ys_x_hat :: tensor

record ('st, 'enc, 'dec) encoder_session =
  es_canvas :: "('st, 'enc, 'dec) canvas option"
  es_placement :: placement
  es_scheduler :: "frame_scheduler option"
  es_references :: "tensor reference_store"
  es_scratch :: encoder_scratch
  es_outputs :: "packet list"
  es_flushed :: bool

record ('st, 'enc, 'dec) decoder_session =
  ds_canvas :: "('st, 'enc, 'dec) canvas option"
  ds_placement :: placement
  ds_scheduler :: "frame_scheduler option"
  ds_references :: "tensor reference_store"
  ds_last_output :: "frame option"
  ds_scratch :: decoder_scratch
  ds_outputs :: "frame list"
  ds_flushed :: bool

record ('p, 'st, 'enc, 'dec) mlvc_sessions =
  ms_shared :: "('p, 'st, 'enc, 'dec) shared_state"
  ms_encoder :: "('st, 'enc, 'dec) encoder_session"
  ms_decoder :: "('st, 'enc, 'dec) decoder_session"

definition no_placement :: placement where
  "no_placement = \<lparr>pm_frame_width = 0, pm_frame_height = 0, pm_canvas_width = 0, pm_canvas_height = 0,
     pm_transposed = False\<rparr>"

definition make_encoder_session :: "('st, 'enc, 'dec) encoder_session" where
  "make_encoder_session = \<lparr>es_canvas = None, es_placement = no_placement, es_scheduler = None, es_references = [],
     es_scratch = \<lparr>xs_x = empty_tensor, xs_q = empty_tensor, xs_z = empty_tensor, xs_y_0 = empty_tensor,
       xs_y_1 = empty_tensor\<rparr>,
     es_outputs = [], es_flushed = False\<rparr>"

definition make_decoder_session :: "('st, 'enc, 'dec) decoder_session" where
  "make_decoder_session = \<lparr>ds_canvas = None, ds_placement = no_placement, ds_scheduler = None, ds_references = [],
     ds_last_output = None,
     ds_scratch = \<lparr>ys_z = empty_tensor, ys_y_0 = empty_tensor, ys_y_1 = empty_tensor, ys_q = empty_tensor,
       ys_x_hat = empty_tensor\<rparr>,
     ds_outputs = [], ds_flushed = False\<rparr>"

definition on_shared :: "(('p, 'st, 'enc, 'dec) shared_state \<Rightarrow> 'a result \<times> ('p, 'st, 'enc, 'dec) shared_state)
    \<Rightarrow> ('p, 'st, 'enc, 'dec) mlvc_sessions \<Rightarrow> 'a result \<times> ('p, 'st, 'enc, 'dec) mlvc_sessions" where
  "on_shared m s = (let (r, shared) = m (ms_shared s) in (r, s\<lparr>ms_shared := shared\<rparr>))"

definition set_encoder :: "('st, 'enc, 'dec) encoder_session \<Rightarrow> ('p, 'st, 'enc, 'dec) mlvc_sessions
    \<Rightarrow> ('p, 'st, 'enc, 'dec) mlvc_sessions" where
  "set_encoder e s = s\<lparr>ms_encoder := e\<rparr>"

definition set_decoder :: "('st, 'enc, 'dec) decoder_session \<Rightarrow> ('p, 'st, 'enc, 'dec) mlvc_sessions
    \<Rightarrow> ('p, 'st, 'enc, 'dec) mlvc_sessions" where
  "set_decoder d s = s\<lparr>ms_decoder := d\<rparr>"

definition use_model_iframe_period :: u32 where
  "use_model_iframe_period = - 1"

definition scheduler_started :: "frame_scheduler option \<Rightarrow> bool" where
  "scheduler_started scheduler = (case scheduler of None \<Rightarrow> False | Some sch \<Rightarrow> fs_started sch)"

subsection \<open>Encoding\<close>

definition encoder_loop :: "runtime_configuration \<Rightarrow> model_parameters \<Rightarrow> loop_parameters" where
  "encoder_loop configuration parameters =
     (let loop = from_model parameters in
      if cc_gop_size (codec configuration) \<noteq> use_model_iframe_period
      then loop\<lparr>lp_iframe_period := Some (cc_gop_size (codec configuration))\<rparr> else loop)"

definition encoder_buffers :: "('p, 'st, 'enc, 'dec, 'w, 'r) environment \<Rightarrow> ('st, 'enc, 'dec) canvas
    \<Rightarrow> ('p, 'st, 'enc, 'dec) shared_state \<Rightarrow> encoder_scratch result \<times> ('p, 'st, 'enc, 'dec) shared_state" where
  "encoder_buffers env loaded =
     and_then (allocate env (cv_image_shape loaded) (cv_float_type loaded)) (\<lambda>x.
     and_then (allocate env [1] int32) (\<lambda>q.
     and_then (allocate env (cv_z_shape loaded) (cv_float_type loaded)) (\<lambda>z.
     and_then (allocate env (cv_y_shape loaded) (cv_float_type loaded)) (\<lambda>y_0.
     and_then (allocate env (cv_y_shape loaded) (cv_float_type loaded)) (\<lambda>y_1.
     just (Inr \<lparr>xs_x = x, xs_q = q, xs_z = z, xs_y_0 = y_0, xs_y_1 = y_1\<rparr>))))))"

definition enc_select_canvas :: "('p, 'st, 'enc, 'dec, 'w, 'r) environment \<Rightarrow> frame
    \<Rightarrow> ('p, 'st, 'enc, 'dec) mlvc_sessions \<Rightarrow> unit result \<times> ('p, 'st, 'enc, 'dec) mlvc_sessions" where
  "enc_select_canvas env frame s =
     (let e = ms_encoder s; configuration = mh_configuration (ms_shared s) in
      if es_canvas e \<noteq> None \<and> fr_width frame = pm_frame_width (es_placement e)
         \<and> fr_height frame = pm_frame_height (es_placement e) then (Inr (), s)
      else if scheduler_started (es_scheduler e) then
        (Inl (mlvc_error invalid_argument ''MLVC frame dimensions changed; reset the encoder first''), s)
      else
        and_then (just (select_model (mh_bundle (ms_shared s)) (fr_width frame) (fr_height frame) [])) (\<lambda>model.
        and_then (on_shared (canvas_of env model encoder_part)) (\<lambda>canvas.
        and_then (just (place (fr_width frame) (fr_height frame) (bm_parameters model))) (\<lambda>placement.
        if cc_intra_qp (codec configuration) \<ge> mp_qp_num (bm_parameters model) then
          just (Inl (mlvc_error invalid_argument (''MLVC Q index must be below '' @
            decimal_string (unat (mp_qp_num (bm_parameters model))))))
        else
          and_then (on_shared (encoder_buffers env canvas)) (\<lambda>scratch s.
          (Inr (), set_encoder (ms_encoder s\<lparr>es_scratch := scratch, es_canvas := Some canvas, es_placement := placement,
             es_scheduler := Some (make_scheduler (encoder_loop configuration (bm_parameters model))),
             es_references := []\<rparr>) s))))) s)"

definition planned_reference :: "frame_plan \<Rightarrow> tensor reference_store \<Rightarrow> tensor \<Rightarrow> tensor option" where
  "planned_reference p references zero_feature =
     (case pl_reference p of
        Some index \<Rightarrow> if pl_feature_reset p then Some zero_feature else store_find index references
      | None \<Rightarrow> Some zero_feature)"

definition latent_symbols_of :: "tensor \<Rightarrow> tensor \<Rightarrow> tensor \<Rightarrow> mlvc_precision \<Rightarrow> latent_symbols result" where
  "latent_symbols_of z y_0 y_1 precision =
     res_bind (tensor_symbols z precision) (\<lambda>z.
     res_bind (tensor_symbols y_0 precision) (\<lambda>y_0.
     res_bind (tensor_symbols y_1 precision) (\<lambda>y_1.
     Inr \<lparr>sy_z = z, sy_y_0 = y_0, sy_y_1 = y_1\<rparr>)))"

text \<open>The network pass of one frame, up to the serialized record and the new feature.\<close>

definition encode_network :: "('p, 'st, 'enc, 'dec, 'w, 'r) environment \<Rightarrow> ('st, 'enc, 'dec) canvas \<Rightarrow> frame \<Rightarrow> frame_plan
    \<Rightarrow> tensor \<Rightarrow> ('p, 'st, 'enc, 'dec) mlvc_sessions
    \<Rightarrow> (byte list \<times> tensor) result \<times> ('p, 'st, 'enc, 'dec) mlvc_sessions" where
  "encode_network env canvas frame p reference s =
     (let e = ms_encoder s; scratch = es_scratch e; precision = bm_precision (cv_model canvas);
          q_index = cc_intra_qp (codec (mh_configuration (ms_shared s)));
          x = (xs_x scratch)\<lparr>tn_bytes := prepare_input (fr_data frame) (es_placement e) precision (tn_bytes (xs_x scratch))\<rparr>;
          q = write_q (shifted_q_index (bm_parameters (cv_model canvas)) q_index (pl_coded_index p)) (xs_q scratch);
          s = set_encoder (e\<lparr>es_scratch := scratch\<lparr>xs_x := x, xs_q := q\<rparr>\<rparr>) s in
      and_then (on_shared (allocate env (cv_feature_shape canvas) (cv_float_type canvas))) (\<lambda>feature s.
      let (ran, outputs, shared) = run_stage env (cv_encoder canvas)
            [(''x'', x), (''ref_feature'', reference), (''q_index_shifted'', q)]
            [(''feature'', feature), (''z_raw'', xs_z scratch), (''y_raw_0'', xs_y_0 scratch), (''y_raw_1'', xs_y_1 scratch)]
            (ms_shared s);
          s = s\<lparr>ms_shared := shared\<rparr>;
          feature = outputs ! 0; z = outputs ! 1; y_0 = outputs ! 2; y_1 = outputs ! 3;
          s = set_encoder (ms_encoder s\<lparr>es_scratch := \<lparr>xs_x = x, xs_q = q, xs_z = z, xs_y_0 = y_0, xs_y_1 = y_1\<rparr>\<rparr>) s in
      and_then (just ran) (\<lambda>_.
      and_then (just (latent_symbols_of z y_0 y_1 precision)) (\<lambda>symbols.
      and_then (just (entropy_encode (ev_rans env) (cv_entropy canvas) symbols q_index)) (\<lambda>payload.
      and_then (just (serialize_record (ev_memory env) q_index payload)) (\<lambda>record.
      just (Inr (record, feature)))))) s) s)"

definition mlvc_encode :: "('p, 'st, 'enc, 'dec, 'w, 'r) environment \<Rightarrow> i64 \<Rightarrow> frame
    \<Rightarrow> ('p, 'st, 'enc, 'dec) mlvc_sessions \<Rightarrow> packet result \<times> ('p, 'st, 'enc, 'dec) mlvc_sessions" where
  "mlvc_encode env elapsed frame =
     and_then (enc_select_canvas env frame) (\<lambda>_ s.
     let e = ms_encoder s; canvas = the (es_canvas e); scheduler = the (es_scheduler e);
         q_index = cc_intra_qp (codec (mh_configuration (ms_shared s)));
         p = plan None scheduler;
         s = (if pl_frame_class p = intra_class then set_encoder (e\<lparr>es_references := store_clear (es_references e)\<rparr>) s else s) in
     case planned_reference p (es_references (ms_encoder s)) (cv_zero_feature canvas) of
       None \<Rightarrow> (Inl (mlvc_error internal_error ''MLVC encoder reference is missing''), s)
     | Some reference \<Rightarrow>
       and_then (encode_network env canvas frame p reference) (\<lambda>(record, feature) s.
       let e = ms_encoder s;
           s = set_encoder (e\<lparr>es_references := save (pl_coded_index p) feature (pl_mark_as_ltr p) (es_references e),
                 es_scheduler := Some (scheduler_commit p scheduler)\<rparr>) s;
           type = (if pl_frame_class p = intra_class then intra else predicted);
           access_unit = make_access_unit (bm_stream_identity (cv_model canvas)) (fr_width frame) (fr_height frame)
             q_index type (type = intra) record in
       and_then (just (au_serialize (ev_memory env) access_unit
         (unat (ro_max_packet_bytes (runtime (mh_configuration (ms_shared s))))))) (\<lambda>serialized s.
       let packet = make_packet serialized (fr_timestamp frame) type [] in
       (Inr packet, s\<lparr>ms_shared := ms_shared s\<lparr>mh_statistics :=
          record_encode (length (pk_bytes packet)) elapsed (mh_statistics (ms_shared s))\<rparr>\<rparr>)) s) s)"

definition mlvc_send_frame :: "('p, 'st, 'enc, 'dec, 'w, 'r) environment \<Rightarrow> i64 \<Rightarrow> frame
    \<Rightarrow> ('p, 'st, 'enc, 'dec) mlvc_sessions \<Rightarrow> unit result \<times> ('p, 'st, 'enc, 'dec) mlvc_sessions" where
  "mlvc_send_frame env elapsed frame s =
     (if es_flushed (ms_encoder s) then (Inl (mlvc_error invalid_state ''encoder is flushed''), s)
      else if fr_format frame \<noteq> yuv420p8 then
        (Inl (mlvc_error invalid_argument ''MLVC encodes 8-bit I420 frames''), s)
      else and_then (mlvc_encode env elapsed frame) (\<lambda>packet s.
        (Inr (), set_encoder (ms_encoder s\<lparr>es_outputs := es_outputs (ms_encoder s) @ [packet]\<rparr>) s)) s)"

definition mlvc_receive_access_unit :: "('p, 'st, 'enc, 'dec) mlvc_sessions
    \<Rightarrow> packet result \<times> ('p, 'st, 'enc, 'dec) mlvc_sessions" where
  "mlvc_receive_access_unit s =
     (case es_outputs (ms_encoder s) of
        output # rest \<Rightarrow> (Inr output, set_encoder (ms_encoder s\<lparr>es_outputs := rest\<rparr>) s)
      | [] \<Rightarrow> if es_flushed (ms_encoder s) then (Inl (mlvc_error end_of_stream ''encoder is drained''), s)
              else (Inl (mlvc_error try_again ''no encoded output available''), s))"

definition mlvc_flush_encoder :: "('p, 'st, 'enc, 'dec) mlvc_sessions \<Rightarrow> unit result \<times> ('p, 'st, 'enc, 'dec) mlvc_sessions" where
  "mlvc_flush_encoder s = (Inr (), set_encoder (ms_encoder s\<lparr>es_flushed := True\<rparr>) s)"

definition mlvc_reset_encoder :: "('p, 'st, 'enc, 'dec) mlvc_sessions \<Rightarrow> unit result \<times> ('p, 'st, 'enc, 'dec) mlvc_sessions" where
  "mlvc_reset_encoder s =
     (let e = ms_encoder s in
      (Inr (), set_encoder (e\<lparr>es_outputs := [], es_references := store_clear (es_references e),
         es_scheduler := map_option scheduler_reset (es_scheduler e), es_flushed := False\<rparr>) s))"

subsection \<open>Decoding\<close>

definition decoder_buffers :: "('p, 'st, 'enc, 'dec, 'w, 'r) environment \<Rightarrow> ('st, 'enc, 'dec) canvas
    \<Rightarrow> ('p, 'st, 'enc, 'dec) shared_state \<Rightarrow> decoder_scratch result \<times> ('p, 'st, 'enc, 'dec) shared_state" where
  "decoder_buffers env loaded =
     and_then (allocate env (cv_z_shape loaded) (cv_float_type loaded)) (\<lambda>z.
     and_then (allocate env (cv_y_shape loaded) (cv_float_type loaded)) (\<lambda>y_0.
     and_then (allocate env (cv_y_shape loaded) (cv_float_type loaded)) (\<lambda>y_1.
     and_then (allocate env [1] int32) (\<lambda>q.
     and_then (allocate env (cv_image_shape loaded) (cv_float_type loaded)) (\<lambda>x_hat.
     just (Inr \<lparr>ys_z = z, ys_y_0 = y_0, ys_y_1 = y_1, ys_q = q, ys_x_hat = x_hat\<rparr>))))))"

text \<open>The last model of the bundle with the identity wins; identities are distinct in a loaded bundle.\<close>

definition model_by_identity :: "model_bundle \<Rightarrow> string \<Rightarrow> bundle_model option" where
  "model_by_identity b identity = find (\<lambda>candidate. bm_stream_identity candidate = identity) (rev (bu_models b))"

definition dec_select_canvas :: "('p, 'st, 'enc, 'dec, 'w, 'r) environment \<Rightarrow> access_unit
    \<Rightarrow> ('p, 'st, 'enc, 'dec) mlvc_sessions \<Rightarrow> unit result \<times> ('p, 'st, 'enc, 'dec) mlvc_sessions" where
  "dec_select_canvas env access_unit s =
     (let d = ms_decoder s in
      if au_frame_type access_unit \<noteq> intra then
        (if \<not> scheduler_started (ds_scheduler d) then
           (Inl (mlvc_error malformed_bitstream ''MLVC stream must start with an intra access unit''), s)
         else if au_model_id access_unit \<noteq> bm_stream_identity (cv_model (the (ds_canvas d)))
            \<or> au_width access_unit \<noteq> pm_frame_width (ds_placement d)
            \<or> au_height access_unit \<noteq> pm_frame_height (ds_placement d) then
           (Inl (mlvc_error malformed_bitstream ''MLVC predicted access unit changes model or dimensions''), s)
         else (Inr (), s))
      else
        case model_by_identity (mh_bundle (ms_shared s)) (au_model_id access_unit) of
          None \<Rightarrow> (Inl (mlvc_error malformed_bitstream (''access-unit model '' @ au_model_id access_unit @
            '' is not in the configured MLVC bundle'')), s)
        | Some model \<Rightarrow>
          (case place (au_width access_unit) (au_height access_unit) (bm_parameters model) of
             Inl e \<Rightarrow> (Inl (mlvc_error malformed_bitstream (message e)), s)
           | Inr placement \<Rightarrow>
             and_then (\<lambda>s.
               if map_option cv_model (ds_canvas d) = Some model then (Inr (), s)
               else
                 and_then (on_shared (canvas_of env model decoder_part)) (\<lambda>canvas.
                 and_then (on_shared (decoder_buffers env canvas)) (\<lambda>scratch s.
                 (Inr (), set_decoder (ms_decoder s\<lparr>ds_scratch := scratch, ds_canvas := Some canvas,
                    ds_scheduler := Some (make_scheduler (from_model (bm_parameters model)))\<rparr>) s))) s)
             (\<lambda>_ s. (Inr (), set_decoder (ms_decoder s\<lparr>ds_placement := placement\<rparr>) s)) s))"

text \<open>The network pass of one access unit, up to the decoded picture and the new feature.\<close>

definition decode_network :: "('p, 'st, 'enc, 'dec, 'w, 'r) environment \<Rightarrow> ('st, 'enc, 'dec) canvas \<Rightarrow> latent_symbols \<Rightarrow> u32
    \<Rightarrow> frame_plan \<Rightarrow> tensor \<Rightarrow> ('p, 'st, 'enc, 'dec) mlvc_sessions
    \<Rightarrow> tensor result \<times> ('p, 'st, 'enc, 'dec) mlvc_sessions" where
  "decode_network env canvas symbols q_index p reference s =
     (let d = ms_decoder s; scratch = ds_scratch d; precision = bm_precision (cv_model canvas);
          z = fill_symbols (sy_z symbols) precision (ys_z scratch);
          y_0 = fill_symbols (sy_y_0 symbols) precision (ys_y_0 scratch);
          y_1 = fill_symbols (sy_y_1 symbols) precision (ys_y_1 scratch);
          q = write_q (shifted_q_index (bm_parameters (cv_model canvas)) q_index (pl_coded_index p)) (ys_q scratch);
          s = set_decoder (d\<lparr>ds_scratch := \<lparr>ys_z = z, ys_y_0 = y_0, ys_y_1 = y_1, ys_q = q,
            ys_x_hat = ys_x_hat scratch\<rparr>\<rparr>) s in
      and_then (on_shared (allocate env (cv_feature_shape canvas) (cv_float_type canvas))) (\<lambda>feature s.
      let (ran, outputs, shared) = run_stage env (cv_decoder canvas)
            [(''z_raw'', z), (''y_raw_0'', y_0), (''y_raw_1'', y_1), (''ref_feature'', reference), (''q_index_shifted'', q)]
            [(''x_hat'', ys_x_hat scratch), (''feature'', feature)] (ms_shared s);
          s = s\<lparr>ms_shared := shared\<rparr>;
          s = set_decoder (ms_decoder s\<lparr>ds_scratch := ds_scratch (ms_decoder s)\<lparr>ys_x_hat := outputs ! 0\<rparr>\<rparr>) s in
      and_then (just ran) (\<lambda>_. just (Inr (outputs ! 1))) s) s)"

text \<open>A dropped frame repeats the last output; the coded state stays as it is.\<close>

definition repeat_frame :: "('p, 'st, 'enc, 'dec, 'w, 'r) environment \<Rightarrow> frame_plan \<Rightarrow> timestamp
    \<Rightarrow> ('p, 'st, 'enc, 'dec) mlvc_sessions \<Rightarrow> frame result \<times> ('p, 'st, 'enc, 'dec) mlvc_sessions" where
  "repeat_frame env p ts s =
     (case ds_last_output (ms_decoder s) of
        Some f \<Rightarrow> if \<not> droppable p then
            (Inl (mlvc_error malformed_bitstream ''MLVC frame cannot be dropped at this position''), s)
          else (frame_copy_from (ev_memory env) (fr_width f) (fr_height f) yuv420p8 (fr_data f) ts, s)
      | None \<Rightarrow> (Inl (mlvc_error malformed_bitstream ''MLVC frame cannot be dropped at this position''), s))"

text \<open>What follows a successful network pass.\<close>

definition finish_frame :: "('p, 'st, 'enc, 'dec, 'w, 'r) environment \<Rightarrow> i64 \<Rightarrow> mlvc_precision \<Rightarrow> frame_plan \<Rightarrow> timestamp \<Rightarrow> tensor
    \<Rightarrow> ('p, 'st, 'enc, 'dec) mlvc_sessions \<Rightarrow> frame result \<times> ('p, 'st, 'enc, 'dec) mlvc_sessions" where
  "finish_frame env elapsed precision p ts feature s =
     (let d = ms_decoder s; placement = ds_placement d in
      and_then (just (frame_create (ev_memory env) (pm_frame_width placement) (pm_frame_height placement) yuv420p8 ts)) (\<lambda>frame s.
      let frame = frame\<lparr>fr_data := finish_output (tn_bytes (ys_x_hat (ds_scratch d))) placement precision\<rparr>;
          s = set_decoder (d\<lparr>ds_references := save (pl_coded_index p) feature (pl_mark_as_ltr p) (ds_references d),
                ds_scheduler := map_option (scheduler_commit p) (ds_scheduler d)\<rparr>) s in
      and_then (just (frame_copy_from (ev_memory env) (fr_width frame) (fr_height frame) yuv420p8 (fr_data frame)
        (fr_timestamp frame))) (\<lambda>retained s.
      let s = set_decoder (ms_decoder s\<lparr>ds_last_output := Some retained\<rparr>) s in
      (Inr frame, s\<lparr>ms_shared := ms_shared s\<lparr>mh_statistics := record_decode elapsed (mh_statistics (ms_shared s))\<rparr>\<rparr>)) s) s)"

definition decode_coded :: "('p, 'st, 'enc, 'dec, 'w, 'r) environment \<Rightarrow> i64 \<Rightarrow> frame_plan \<Rightarrow> access_unit \<Rightarrow> frame_record \<Rightarrow> timestamp
    \<Rightarrow> ('p, 'st, 'enc, 'dec) mlvc_sessions \<Rightarrow> frame result \<times> ('p, 'st, 'enc, 'dec) mlvc_sessions" where
  "decode_coded env elapsed p access_unit record ts s =
     (let canvas = the (ds_canvas (ms_decoder s)); q_index = rec_q_index record in
      if q_index \<ge> mp_qp_num (bm_parameters (cv_model canvas)) \<or> au_qp access_unit \<noteq> q_index then
        (Inl (mlvc_error malformed_bitstream ''MLVC record has an invalid Q index''), s)
      else
        and_then (just (entropy_decode (ev_rans env) (cv_entropy canvas) (rec_payload record) q_index)) (\<lambda>symbols s.
        let d = ms_decoder s;
            s = (if au_frame_type access_unit = intra
                 then set_decoder (d\<lparr>ds_references := store_clear (ds_references d)\<rparr>) s else s) in
        case planned_reference p (ds_references (ms_decoder s)) (cv_zero_feature canvas) of
          None \<Rightarrow> (Inl (mlvc_error malformed_bitstream ''MLVC reference feature is not available''), s)
        | Some reference \<Rightarrow>
          and_then (decode_network env canvas symbols q_index p reference)
            (finish_frame env elapsed (bm_precision (cv_model canvas)) p ts) s) s)"

definition mlvc_decode :: "('p, 'st, 'enc, 'dec, 'w, 'r) environment \<Rightarrow> i64 \<Rightarrow> packet
    \<Rightarrow> ('p, 'st, 'enc, 'dec) mlvc_sessions \<Rightarrow> frame result \<times> ('p, 'st, 'enc, 'dec) mlvc_sessions" where
  "mlvc_decode env elapsed packet s =
     (let limit = unat (ro_max_packet_bytes (runtime (mh_configuration (ms_shared s)))) in
      if length (pk_bytes packet) > limit then
        (Inl (mlvc_error resource_exhausted ''packet exceeds configured limit''), s)
      else if \<not> has_magic (pk_bytes packet) then
        (Inl (mlvc_error malformed_bitstream ''MLVC packets must be NVAU access units''), s)
      else
        and_then (just (au_deserialize (ev_memory env) (pk_bytes packet) limit)) (\<lambda>access_unit.
        if au_frame_type access_unit \<noteq> pk_frame_type packet
           \<or> au_reset_state access_unit \<noteq> (au_frame_type access_unit = intra) then
          just (Inl (mlvc_error malformed_bitstream ''packet frame type and access-unit flags disagree''))
        else
          and_then (just (parse_record (au_payload access_unit))) (\<lambda>record.
          and_then (dec_select_canvas env access_unit) (\<lambda>_ s.
          let p = plan (Some (au_frame_type access_unit = intra)) (the (ds_scheduler (ms_decoder s))) in
          if rec_q_index record = dropped_frame_q_index then repeat_frame env p (pk_timestamp packet) s
          else decode_coded env elapsed p access_unit record (pk_timestamp packet) s))) s)"

definition mlvc_send_access_unit :: "('p, 'st, 'enc, 'dec, 'w, 'r) environment \<Rightarrow> i64 \<Rightarrow> packet
    \<Rightarrow> ('p, 'st, 'enc, 'dec) mlvc_sessions \<Rightarrow> unit result \<times> ('p, 'st, 'enc, 'dec) mlvc_sessions" where
  "mlvc_send_access_unit env elapsed packet s =
     (if ds_flushed (ms_decoder s) then (Inl (mlvc_error invalid_state ''decoder is flushed''), s)
      else and_then (mlvc_decode env elapsed packet) (\<lambda>frame s.
        (Inr (), set_decoder (ms_decoder s\<lparr>ds_outputs := ds_outputs (ms_decoder s) @ [frame]\<rparr>) s)) s)"

definition mlvc_receive_frame :: "('p, 'st, 'enc, 'dec) mlvc_sessions
    \<Rightarrow> frame result \<times> ('p, 'st, 'enc, 'dec) mlvc_sessions" where
  "mlvc_receive_frame s =
     (case ds_outputs (ms_decoder s) of
        output # rest \<Rightarrow> (Inr output, set_decoder (ms_decoder s\<lparr>ds_outputs := rest\<rparr>) s)
      | [] \<Rightarrow> if ds_flushed (ms_decoder s) then (Inl (mlvc_error end_of_stream ''decoder is drained''), s)
              else (Inl (mlvc_error try_again ''no decoded output available''), s))"

definition mlvc_flush_decoder :: "('p, 'st, 'enc, 'dec) mlvc_sessions \<Rightarrow> unit result \<times> ('p, 'st, 'enc, 'dec) mlvc_sessions" where
  "mlvc_flush_decoder s = (Inr (), set_decoder (ms_decoder s\<lparr>ds_flushed := True\<rparr>) s)"

definition mlvc_reset_decoder :: "('p, 'st, 'enc, 'dec) mlvc_sessions \<Rightarrow> unit result \<times> ('p, 'st, 'enc, 'dec) mlvc_sessions" where
  "mlvc_reset_decoder s =
     (let d = ms_decoder s in
      (Inr (), set_decoder (d\<lparr>ds_outputs := [], ds_references := store_clear (ds_references d),
         ds_scheduler := map_option scheduler_reset (ds_scheduler d), ds_last_output := None, ds_flushed := False\<rparr>) s))"

subsection \<open>The session contract\<close>

text \<open>What a call of one direction leaves alone: its own queue and flag, and the other direction.\<close>

definition encoder_rest :: "('p, 'st, 'enc, 'dec) mlvc_sessions \<Rightarrow> packet list \<times> bool \<times> ('st, 'enc, 'dec) decoder_session" where
  "encoder_rest s = (es_outputs (ms_encoder s), es_flushed (ms_encoder s), ms_decoder s)"

definition decoder_rest :: "('p, 'st, 'enc, 'dec) mlvc_sessions \<Rightarrow> frame list \<times> bool \<times> ('st, 'enc, 'dec) encoder_session" where
  "decoder_rest s = (ds_outputs (ms_decoder s), ds_flushed (ms_decoder s), ms_encoder s)"

lemmas encoder_rest_and_then = and_then_keeps [where obs = encoder_rest]
lemmas decoder_rest_and_then = and_then_keeps [where obs = decoder_rest]

lemma rest_simps [simp]:
  "encoder_rest (s\<lparr>ms_shared := sh\<rparr>) = encoder_rest s" "decoder_rest (s\<lparr>ms_shared := sh\<rparr>) = decoder_rest s"
  "encoder_rest (set_encoder e s) = (es_outputs e, es_flushed e, ms_decoder s)"
  "decoder_rest (set_decoder d s) = (ds_outputs d, ds_flushed d, ms_encoder s)"
  "encoder_rest (snd (on_shared m s)) = encoder_rest s" "decoder_rest (snd (on_shared m s)) = decoder_rest s"
  "encoder_rest (snd (just r s)) = encoder_rest s" "decoder_rest (snd (just r s)) = decoder_rest s"
  by (simp_all add: encoder_rest_def decoder_rest_def set_encoder_def set_decoder_def on_shared_def just_def
    case_prod_beta)

lemma rest_fold:
  "(es_outputs (ms_encoder s), es_flushed (ms_encoder s), ms_decoder s) = encoder_rest s"
  "(ds_outputs (ms_decoder s), ds_flushed (ms_decoder s), ms_encoder s) = decoder_rest s"
  by (simp_all add: encoder_rest_def decoder_rest_def)

lemma enc_select_rest [simp]: "encoder_rest (snd (enc_select_canvas env frame s)) = encoder_rest s"
  by (simp add: enc_select_canvas_def Let_def encoder_rest_and_then rest_fold)

lemma encode_network_rest [simp]: "encoder_rest (snd (encode_network env canvas frame p reference s)) = encoder_rest s"
  by (simp add: encode_network_def Let_def case_prod_beta encoder_rest_and_then rest_fold)

lemma mlvc_encode_rest [simp]: "encoder_rest (snd (mlvc_encode env elapsed frame s)) = encoder_rest s"
  by (simp add: mlvc_encode_def Let_def case_prod_beta encoder_rest_and_then rest_fold split: option.split)

lemma dec_select_rest [simp]: "decoder_rest (snd (dec_select_canvas env access_unit s)) = decoder_rest s"
  by (simp add: dec_select_canvas_def Let_def decoder_rest_and_then rest_fold split: option.split sum.split)

lemma decode_network_rest [simp]:
  "decoder_rest (snd (decode_network env canvas symbols q_index p reference s)) = decoder_rest s"
  by (simp add: decode_network_def Let_def case_prod_beta decoder_rest_and_then rest_fold)

lemma finish_frame_rest [simp]: "decoder_rest (snd (finish_frame env elapsed precision p ts feature s)) = decoder_rest s"
  by (auto simp: finish_frame_def Let_def and_then_def just_def rest_fold split: sum.splits)

lemma decode_coded_rest [simp]: "decoder_rest (snd (decode_coded env elapsed p access_unit record ts s)) = decoder_rest s"
  by (simp add: decode_coded_def Let_def decoder_rest_and_then rest_fold split: option.split)

lemma mlvc_decode_rest [simp]: "decoder_rest (snd (mlvc_decode env elapsed packet s)) = decoder_rest s"
  by (simp add: mlvc_decode_def Let_def decoder_rest_and_then repeat_frame_def split: option.split)

lemmas mlvc_session_defs =
  mlvc_send_frame_def mlvc_receive_access_unit_def mlvc_flush_encoder_def mlvc_reset_encoder_def
  mlvc_send_access_unit_def mlvc_receive_frame_def mlvc_flush_decoder_def mlvc_reset_decoder_def

lemma encode_rest_of: "mlvc_encode env elapsed frame s = (r, s') \<Longrightarrow> encoder_rest s' = encoder_rest s"
  using mlvc_encode_rest [of env elapsed frame s] by simp

lemma decode_rest_of: "mlvc_decode env elapsed packet s = (r, s') \<Longrightarrow> decoder_rest s' = decoder_rest s"
  using mlvc_decode_rest [of env elapsed packet s] by simp

interpretation mlvc_enc: output_session "mlvc_send_frame env elapsed" mlvc_receive_access_unit mlvc_flush_encoder
  mlvc_reset_encoder "\<lambda>s. es_outputs (ms_encoder s)" "\<lambda>s. es_flushed (ms_encoder s)"
  for env elapsed
  by unfold_locales
    (auto simp: mlvc_session_defs set_encoder_def mlvc_error_def encoder_rest_def Let_def
      split: list.splits if_splits elim!: and_then_cases dest!: encode_rest_of)

interpretation mlvc_dec: output_session "mlvc_send_access_unit env elapsed" mlvc_receive_frame mlvc_flush_decoder
  mlvc_reset_decoder "\<lambda>s. ds_outputs (ms_decoder s)" "\<lambda>s. ds_flushed (ms_decoder s)"
  for env elapsed
  by unfold_locales
    (auto simp: mlvc_session_defs set_decoder_def mlvc_error_def decoder_rest_def Let_def
      split: list.splits if_splits elim!: and_then_cases dest!: decode_rest_of)

lemma encoder_ops_decoder:
  "ms_decoder (snd (mlvc_send_frame env elapsed frame s)) = ms_decoder s"
  "ms_decoder (snd (mlvc_receive_access_unit s)) = ms_decoder s"
  "ms_decoder (snd (mlvc_flush_encoder s)) = ms_decoder s"
proof -
  have "ms_decoder (snd (mlvc_encode env elapsed frame s)) = ms_decoder s" for s
    using mlvc_encode_rest [of env elapsed frame s] by (simp add: encoder_rest_def)
  then show "ms_decoder (snd (mlvc_send_frame env elapsed frame s)) = ms_decoder s"
    by (simp add: mlvc_send_frame_def set_encoder_def and_then_keeps [where obs = ms_decoder])
qed (simp_all add: mlvc_session_defs set_encoder_def split: list.split)

lemma decoder_ops_encoder:
  "ms_encoder (snd (mlvc_send_access_unit env elapsed packet s)) = ms_encoder s"
  "ms_encoder (snd (mlvc_receive_frame s)) = ms_encoder s"
  "ms_encoder (snd (mlvc_flush_decoder s)) = ms_encoder s"
proof -
  have "ms_encoder (snd (mlvc_decode env elapsed packet s)) = ms_encoder s" for s
    using mlvc_decode_rest [of env elapsed packet s] by (simp add: decoder_rest_def)
  then show "ms_encoder (snd (mlvc_send_access_unit env elapsed packet s)) = ms_encoder s"
    by (simp add: mlvc_send_access_unit_def set_decoder_def and_then_keeps [where obs = ms_encoder])
qed (simp_all add: mlvc_session_defs set_decoder_def split: list.split)


end
