(* ===== verification/MlvcLockstep.thy ===== *)
theory MlvcLockstep
  imports MlvcSession
begin

text \<open>
  An MLVC decoder follows its encoder. The encoder's schedule is not in the stream: the decoder sees only which
  access units are intra and reproduces positions, long-term marks, feature resets and references from them. Neither
  is the network: what the stages compute is not constrained. The provider has to work (\<open>reliable\<close>) and the rANS
  library has to be a stack.
\<close>

subsection \<open>What is assumed of the environment and of the bundle\<close>

definition reliable :: "('p, 'st, 'enc, 'dec, 'w, 'r) environment \<Rightarrow> bool" where
  "reliable env \<longleftrightarrow>
     (\<forall>size domain p. \<exists>bytes p'. ev_allocate env size domain p = (Inr bytes, p') \<and> unat size \<le> length bytes)
     \<and> (\<forall>descriptor p. \<exists>stage p'. ev_load_stage env descriptor p = (Inr stage, p'))
     \<and> (\<forall>stage views p. \<exists>written p'. ev_submit env stage views p = (Inr (), written, p'))
     \<and> (\<forall>n. ev_memory env n)"

lemma model_by_identity_unique:
  assumes "bundle_ok b" "m \<in> set (bu_models b)"
  shows "model_by_identity b (bm_stream_identity m) = Some m"
proof (cases "model_by_identity b (bm_stream_identity m)")
  case None
  then show ?thesis using assms(2) by (auto simp: model_by_identity_def find_None_iff)
next
  case (Some m')
  then have m': "m' \<in> set (bu_models b)" "bm_stream_identity m' = bm_stream_identity m"
    by (auto simp: model_by_identity_def find_first)
      (metis in_set_conv_decomp rev_swap set_rev)
  then have "bm_canvas_id m' = bm_canvas_id m" using assms by (auto simp: bundle_ok_def)
  then show ?thesis using bundle_canvas_unique [OF assms(1) m'(1) assms(2)] Some by simp
qed

subsection \<open>Canvases\<close>

definition canvas_ok :: "('p, 'st, 'enc, 'dec, 'w, 'r) environment \<Rightarrow> model_bundle \<Rightarrow> ('st, 'enc, 'dec) canvas \<Rightarrow> bool" where
  "canvas_ok env b c \<longleftrightarrow> cv_model c \<in> set (bu_models b) \<and> verify_digests (ev_file env) (cv_model c) = Inr ()
     \<and> entropy_create (ev_rans env) (cv_model c) = Inr (cv_entropy c)"

definition canvases_ok :: "('p, 'st, 'enc, 'dec, 'w, 'r) environment \<Rightarrow> model_bundle
    \<Rightarrow> (string, ('st, 'enc, 'dec) canvas) omap \<Rightarrow> bool" where
  "canvases_ok env b cs \<longleftrightarrow> (\<forall>(k, c) \<in> set cs. canvas_ok env b c \<and> k = bm_canvas_id (cv_model c))"

definition shared_core :: "('p, 'st, 'enc, 'dec) shared_state
    \<Rightarrow> model_bundle \<times> (string, ('st, 'enc, 'dec) canvas) omap \<times> runtime_configuration" where
  "shared_core s = (mh_bundle s, mh_canvases s, mh_configuration s)"

definition shared_ok :: "('p, 'st, 'enc, 'dec, 'w, 'r) environment \<Rightarrow> model_bundle \<Rightarrow> runtime_configuration
    \<Rightarrow> ('p, 'st, 'enc, 'dec) shared_state \<Rightarrow> bool" where
  "shared_ok env b conf s \<longleftrightarrow> mh_bundle s = b \<and> mh_configuration s = conf \<and> canvases_ok env b (mh_canvases s)"

lemma shared_ok_core: "shared_core s' = shared_core s \<Longrightarrow> shared_ok env b conf s' = shared_ok env b conf s"
  by (simp add: shared_core_def shared_ok_def)

lemmas shared_core_and_then = and_then_keeps [where obs = shared_core]

lemma core_simps [simp]:
  "shared_core (s\<lparr>mh_provider := p\<rparr>) = shared_core s"
  "shared_core (s\<lparr>mh_statistics := st\<rparr>) = shared_core s"
  "shared_core (snd (just r s)) = shared_core s"
  "shared_core (snd (allocate env shape type s)) = shared_core s"
  "shared_core (snd (load_stage env canvas part stage inputs outputs s)) = shared_core s"
  "shared_core (snd (snd (run_stage env stg ins outs s))) = shared_core s"
  by (simp_all add: shared_core_def just_def allocate_def load_stage_def run_stage_def Let_def case_prod_beta
    split: sum.split)

lemma create_canvas_core [simp]: "shared_core (snd (create_canvas env model s)) = shared_core s"
  by (simp add: create_canvas_def Let_def shared_core_and_then)

lemma buffers_core [simp]:
  "shared_core (snd (encoder_buffers env canvas s)) = shared_core s"
  "shared_core (snd (decoder_buffers env canvas s)) = shared_core s"
  by (simp_all add: encoder_buffers_def decoder_buffers_def shared_core_and_then)

lemma core_of: "shared_core (snd x) = k \<Longrightarrow> x = (r, s') \<Longrightarrow> shared_core s' = k"
  by simp

lemma put_canvas_ok:
  assumes "shared_ok env b conf s" "canvas_ok env b c"
  shows "shared_ok env b conf (put_canvas c s)"
  using assms set_omap_assign_pairs [of "bm_canvas_id (cv_model c)" c "mh_canvases s"]
  by (fastforce simp: shared_ok_def put_canvas_def canvases_ok_def)

lemma create_canvas_ok:
  assumes "create_canvas env model s = (Inr c, s')" "model \<in> set (bu_models b)"
  shows "cv_model c = model" "canvas_ok env b c"
  using assms by (auto simp: create_canvas_def and_then_Inr Let_def canvas_ok_def)

lemma find_canvas_ok:
  assumes "find_canvas env model s = (Inr c, s')" "model \<in> set (bu_models b)" "shared_ok env b conf s" "bundle_ok b"
  shows "cv_model c = model \<and> canvas_ok env b c \<and> shared_ok env b conf s'"
proof (cases "map_of (mh_canvases s) (bm_canvas_id model)")
  case (Some c')
  then have "(bm_canvas_id model, c') \<in> set (mh_canvases s)" by (rule map_of_SomeD)
  then have "canvas_ok env b c'" "bm_canvas_id model = bm_canvas_id (cv_model c')"
    using assms(3) by (auto simp: shared_ok_def canvases_ok_def)
  moreover from this have "cv_model c' = model"
    using bundle_canvas_unique [OF assms(4)] assms(2) by (auto simp: canvas_ok_def)
  ultimately show ?thesis using assms(1,3) Some by (simp add: find_canvas_def)
next
  case None
  then obtain s1 where s1: "create_canvas env model s = (Inr c, s1)" "s' = put_canvas c s1"
    using assms(1) by (auto simp: find_canvas_def and_then_Inr)
  have "shared_ok env b conf s1" using core_of [OF create_canvas_core s1(1)] assms(3) shared_ok_core by blast
  then show ?thesis using create_canvas_ok [OF s1(1) assms(2)] put_canvas_ok s1(2) by blast
qed

lemma canvas_of_ok:
  assumes "canvas_of env model part s = (Inr c, s')" "model \<in> set (bu_models b)" "shared_ok env b conf s" "bundle_ok b"
  shows "cv_model c = model \<and> canvas_ok env b c \<and> shared_ok env b conf s'"
proof -
  from assms(1) obtain c0 s1 where f: "find_canvas env model s = (Inr c0, s1)"
    unfolding canvas_of_def and_then_Inr by blast
  note ok = find_canvas_ok [OF f assms(2-4)]
  have upd: "canvas_ok env b (c0\<lparr>cv_encoder := e\<rparr>)" "canvas_ok env b (c0\<lparr>cv_decoder := d\<rparr>)" for e d
    using ok by (auto simp: canvas_ok_def)
  have load: "shared_ok env b conf s2" if "load_stage env cn pt stage i o' s1 = (r, s2)" for s2 cn pt stage i o' r
    using core_of [OF core_simps(5) that] ok shared_ok_core by blast
  show ?thesis
    using assms(1) f ok upd load
    by (auto simp: canvas_of_def and_then_Inr Let_def intro!: put_canvas_ok split: if_splits)
qed

subsection \<open>Computations that cannot fail\<close>

definition succeeds :: "('s \<Rightarrow> 'a result \<times> 's) \<Rightarrow> bool" where
  "succeeds m \<longleftrightarrow> (\<forall>s. \<exists>a s'. m s = (Inr a, s'))"

lemma succeedsD: "succeeds m \<Longrightarrow> \<exists>a s'. m s = (Inr a, s')"
  by (simp add: succeeds_def)

lemma succeeds_and_then: "succeeds m \<Longrightarrow> (\<And>a. succeeds (f a)) \<Longrightarrow> succeeds (and_then m f)"
  unfolding succeeds_def by (metis and_then_step(1))

lemma succeeds_just: "succeeds (just (Inr a))"
  by (simp add: succeeds_def just_def)

lemma succeeds_return: "succeeds (\<lambda>s. (Inr (g s), h s))"
  by (simp add: succeeds_def)

lemma succeeds_if: "succeeds m \<Longrightarrow> succeeds m' \<Longrightarrow> succeeds (if b then m else m')"
  by simp

lemma succeeds_on_shared: "succeeds m \<Longrightarrow> succeeds (on_shared m)"
  unfolding succeeds_def on_shared_def Let_def case_prod_beta by (metis fst_conv)

lemma succeeds_allocate:
  fixes env :: "('p, 'st, 'enc, 'dec, 'w, 'r) environment"
  assumes "reliable env"
  shows "succeeds (allocate env shape type)"
  unfolding succeeds_def
proof
  fix s :: "('p, 'st, 'enc, 'dec) shared_state"
  from assms obtain bytes p where "ev_allocate env (element_count shape * element_bytes type)
      (if uses_tensorrt s then pinned_host else host) (mh_provider s) = (Inr bytes, p)"
    "unat (element_count shape * element_bytes type) \<le> length bytes"
    unfolding reliable_def by blast
  then show "\<exists>a s'. allocate env shape type s = (Inr a, s')" by (simp add: allocate_def)
qed

lemma succeeds_load_stage: "reliable env \<Longrightarrow> succeeds (load_stage env canvas part stage inputs outputs)"
  unfolding succeeds_def load_stage_def reliable_def Let_def case_prod_beta by (metis fst_conv)

lemma succeeds_decoder_buffers: "reliable env \<Longrightarrow> succeeds (decoder_buffers env canvas)"
  unfolding decoder_buffers_def by (intro succeeds_and_then succeeds_allocate succeeds_just)

lemma succeeds_canvas_of:
  assumes "reliable env" "verify_digests (ev_file env) model = Inr ()" "entropy_create (ev_rans env) model = Inr coder"
  shows "succeeds (canvas_of env model part)"
proof -
  have "succeeds (create_canvas env model)"
    unfolding create_canvas_def assms(2,3) Let_def by (intro succeeds_and_then succeeds_allocate succeeds_just assms(1))
  then have "succeeds (and_then (create_canvas env model) (\<lambda>created s. (Inr created, put_canvas created s)))"
    by (intro succeeds_and_then succeeds_return)
  then have "succeeds (find_canvas env model)"
    unfolding succeeds_def find_canvas_def by (auto split: option.split)
  then show ?thesis unfolding canvas_of_def
    by (intro succeeds_and_then succeeds_if succeeds_load_stage [OF assms(1)] succeeds_just)
      (simp_all add: Let_def succeeds_return)
qed

subsection \<open>The decoder's schedule\<close>

lemma plan_forced: "plan (Some (pl_frame_class (plan None s) = intra_class)) s = plan None s"
  unfolding plan_intra by (simp add: plan_def)

lemma plan_same_parameters:
  assumes "lp_reset_period (fs_parameters s') = lp_reset_period (fs_parameters s)"
    "lp_ltr_start_idx (fs_parameters s') = lp_ltr_start_idx (fs_parameters s)"
    "lp_ltr_period (fs_parameters s') = lp_ltr_period (fs_parameters s)"
    "lp_proactive_ltr_recovery (fs_parameters s') = lp_proactive_ltr_recovery (fs_parameters s)"
    "\<not> b \<Longrightarrow> fs_coded_index s' = fs_coded_index s \<and> fs_latest_ltr s' = fs_latest_ltr s"
  shows "plan (Some b) s' = plan (Some b) s"
  unfolding plan_def Let_def assms(1-4) using assms(5) by (cases b) (simp_all only: option.case if_True if_False simp_thms)

lemma plan_mirror:
  assumes "fs_parameters sch = encoder_loop conf model" "fs_parameters sch' = from_model model"
    "pl_frame_class (plan None sch) \<noteq> intra_class \<Longrightarrow>
       fs_coded_index sch' = fs_coded_index sch \<and> fs_latest_ltr sch' = fs_latest_ltr sch"
  shows "plan (Some (pl_frame_class (plan None sch) = intra_class)) sch' = plan None sch"
proof -
  have "plan (Some (pl_frame_class (plan None sch) = intra_class)) sch'
      = plan (Some (pl_frame_class (plan None sch) = intra_class)) sch"
    using assms by (intro plan_same_parameters) (auto simp: encoder_loop_def from_model_def Let_def)
  then show ?thesis by (simp only: plan_forced)
qed

lemma commit_mirror:
  assumes "pl_frame_class p \<noteq> intra_class \<Longrightarrow> fs_latest_ltr sch' = fs_latest_ltr sch"
  shows "fs_started (scheduler_commit p sch')" "fs_coded_index (scheduler_commit p sch') = fs_coded_index (scheduler_commit p sch)"
    "fs_latest_ltr (scheduler_commit p sch') = fs_latest_ltr (scheduler_commit p sch)"
    "fs_parameters (scheduler_commit p sch') = fs_parameters sch'"
  using assms by (auto simp: scheduler_commit_def Let_def)

lemma plan_predicted_started: "pl_frame_class (plan None sch) \<noteq> intra_class \<Longrightarrow> fs_started sch"
  by (auto simp: plan_def Let_def split: if_splits)

subsection \<open>Stores of the same shape\<close>

definition store_shape :: "'f reference_store \<Rightarrow> (u64 \<times> bool) list" where
  "store_shape e = map (\<lambda>(k, f, l). (k, l)) e"

lemma matching_shape: "matching lt e = map fst (filter (\<lambda>(k, l). l = lt) (store_shape e))"
  by (induction e) (auto simp: matching_def store_shape_def)

lemma store_shape_erase: "store_shape (fold omap_erase ks e) = filter (\<lambda>(k, l). k \<notin> set ks) (store_shape e)"
  unfolding fold_omap_erase by (induction e) (auto simp: store_shape_def)

lemma store_shape_prune:
  "store_shape (e :: 'f reference_store) = store_shape (e' :: 'g reference_store) \<Longrightarrow>
     store_shape (prune lt c e) = store_shape (prune lt c e')"
  by (simp add: prune_def Let_def matching_shape store_shape_erase)

lemma store_shape_assign: "store_shape (omap_assign k (f, l) e) = omap_assign k l (store_shape e)"
  by (induction e) (auto simp: store_shape_def)

lemma store_shape_save:
  assumes "store_shape (e :: 'f reference_store) = store_shape (e' :: 'g reference_store)"
  shows "store_shape (save k f l e) = store_shape (save k f' l e')"
  unfolding save_def by (intro store_shape_prune) (simp add: store_shape_assign assms)

lemma store_find_shape:
  assumes "store_shape (e :: 'f reference_store) = store_shape (e' :: 'f reference_store)" "store_find k e \<noteq> None"
  shows "store_find k e' \<noteq> None"
proof -
  have "fst ` set (store_shape e) = fst ` set e" for e :: "'f reference_store"
    by (force simp: store_shape_def)
  then have "map_of e k \<noteq> None \<longleftrightarrow> k \<in> fst ` set (store_shape e)" for e :: "'f reference_store"
    by (simp add: map_of_eq_None_iff)
  note this [of e] this [of e']
  then show ?thesis using assms by (simp add: store_find_def)
qed

lemma planned_reference_shape:
  assumes "store_shape e = store_shape e'" "planned_reference p e zero = Some ref"
  shows "\<exists>ref'. planned_reference p e' zero' = Some ref'"
  using assms store_find_shape [OF assms(1)] by (auto simp: planned_reference_def split: option.splits if_splits)

subsection \<open>The encoder's side\<close>

text \<open>What the network pass of a frame leaves alone.\<close>

definition coded_state :: "('p, 'st, 'enc, 'dec) mlvc_sessions
    \<Rightarrow> (model_bundle \<times> (string, ('st, 'enc, 'dec) canvas) omap \<times> runtime_configuration)
      \<times> ('st, 'enc, 'dec) canvas option \<times> placement \<times> frame_scheduler option \<times> tensor reference_store" where
  "coded_state s = (shared_core (ms_shared s), es_canvas (ms_encoder s), es_placement (ms_encoder s),
     es_scheduler (ms_encoder s), es_references (ms_encoder s))"

lemmas coded_state_and_then = and_then_keeps [where obs = coded_state]

lemma coded_state_simps [simp]:
  "coded_state (snd (just r s)) = coded_state s"
  "coded_state (snd (on_shared (allocate env shape type) s)) = coded_state s"
  "coded_state (set_encoder e s) = (shared_core (ms_shared s), es_canvas e, es_placement e, es_scheduler e, es_references e)"
  by (simp_all add: coded_state_def just_def on_shared_def set_encoder_def Let_def case_prod_beta)

lemma coded_fold:
  "(shared_core (ms_shared s), es_canvas (ms_encoder s), es_placement (ms_encoder s), es_scheduler (ms_encoder s),
     es_references (ms_encoder s)) = coded_state s"
  by (simp add: coded_state_def)

lemma encode_network_state [simp]: "coded_state (snd (encode_network env canvas frame p reference s)) = coded_state s"
  by (simp add: encode_network_def Let_def case_prod_beta coded_state_and_then coded_fold)

lemma encode_network_record:
  assumes "encode_network env canvas frame p reference s = (Inr (record, feature), s')"
  obtains symbols payload where
    "entropy_encode (ev_rans env) (cv_entropy canvas) symbols (cc_intra_qp (codec (mh_configuration (ms_shared s)))) = Inr payload"
    "serialize_record (ev_memory env) (cc_intra_qp (codec (mh_configuration (ms_shared s)))) payload = Inr record"
proof -
  let ?q = "cc_intra_qp (codec (mh_configuration (ms_shared s)))"
  from assms have "\<exists>symbols payload. entropy_encode (ev_rans env) (cv_entropy canvas) symbols ?q = Inr payload
      \<and> serialize_record (ev_memory env) ?q payload = Inr record"
    unfolding encode_network_def Let_def and_then_Inr case_prod_beta just_eq prod.inject by (elim exE conjE) (intro exI conjI, simp_all)
  then show thesis using that by blast
qed

text \<open>Everything an accepted frame goes through.\<close>

lemma encode_steps:
  assumes "mlvc_encode env elapsed frame s = (Inr packet, s')"
  obtains s1 c sch p reference rec feature s2 bytes where
    "enc_select_canvas env frame s = (Inr (), s1)" "c = the (es_canvas (ms_encoder s1))" "sch = the (es_scheduler (ms_encoder s1))"
    "p = plan None sch"
    "planned_reference p (planned_store p (es_references (ms_encoder s1))) (cv_zero_feature c) = Some reference"
    "encode_network env c frame p reference
       (set_encoder (ms_encoder s1\<lparr>es_references := planned_store p (es_references (ms_encoder s1))\<rparr>) s1) = (Inr (rec, feature), s2)"
    "au_serialize (ev_memory env) (make_access_unit (bm_stream_identity (cv_model c)) (fr_width frame) (fr_height frame)
       (cc_intra_qp (codec (mh_configuration (ms_shared s1)))) (if pl_frame_class p = intra_class then intra else predicted)
       (pl_frame_class p = intra_class) rec) (unat (ro_max_packet_bytes (runtime (mh_configuration (ms_shared s2))))) = Inr bytes"
    "packet = make_packet bytes (fr_timestamp frame) (if pl_frame_class p = intra_class then intra else predicted) []"
    "ms_encoder s' = ms_encoder s2\<lparr>es_references := save (pl_coded_index p) feature (pl_mark_as_ltr p) (es_references (ms_encoder s2)),
       es_scheduler := Some (scheduler_commit p sch)\<rparr>"
    "shared_core (ms_shared s') = shared_core (ms_shared s2)"
proof -
  have idem: "s\<lparr>ms_encoder := ms_encoder s\<lparr>es_references := es_references (ms_encoder s)\<rparr>\<rparr> = s" for s :: "('a, 'b, 'c, 'd) mlvc_sessions"
    by simp
  show thesis
    using assms
    unfolding mlvc_encode_def and_then_Inr Let_def
    apply (elim exE conjE)
    subgoal for u s1
      by (cases "pl_frame_class (plan None (the (es_scheduler (ms_encoder s1)))) = intra_class")
        (auto simp: and_then_Inr planned_store_def set_encoder_def idem Let_def split: option.splits intro!: that)
    done
qed

definition encoder_ok :: "('p, 'st, 'enc, 'dec, 'w, 'r) environment \<Rightarrow> model_bundle \<Rightarrow> runtime_configuration
    \<Rightarrow> ('p, 'st, 'enc, 'dec) mlvc_sessions \<Rightarrow> bool" where
  "encoder_ok env b conf s \<longleftrightarrow> shared_ok env b conf (ms_shared s) \<and>
     (case es_canvas (ms_encoder s) of
        None \<Rightarrow> \<not> scheduler_started (es_scheduler (ms_encoder s))
      | Some c \<Rightarrow> canvas_ok env b c \<and> cc_intra_qp (codec conf) < mp_qp_num (bm_parameters (cv_model c))
          \<and> map_option fs_parameters (es_scheduler (ms_encoder s)) = Some (encoder_loop conf (bm_parameters (cv_model c)))
          \<and> place (pm_frame_width (es_placement (ms_encoder s))) (pm_frame_height (es_placement (ms_encoder s)))
              (bm_parameters (cv_model c)) = Inr (es_placement (ms_encoder s)))"

lemma select_model_in_bundle: "select_model b w h [] = Inr m \<Longrightarrow> m \<in> set (bu_models b)"
  by (auto simp: select_model_def find_first split: option.splits if_splits)

lemma on_shared_Inr: "on_shared m s = (Inr a, s') \<longleftrightarrow> (\<exists>sh. m (ms_shared s) = (Inr a, sh) \<and> s' = s\<lparr>ms_shared := sh\<rparr>)"
  by (auto simp: on_shared_def Let_def split: prod.splits)

lemma if_just_Inl: "(if b then just (Inl e) else m) s = (Inr a, s') \<longleftrightarrow> \<not> b \<and> m s = (Inr a, s')"
  by simp

lemma enc_select_ok:
  assumes "enc_select_canvas env frame s = (Inr (), s1)" "encoder_ok env b conf s" "bundle_ok b"
  shows "encoder_ok env b conf s1 \<and> es_canvas (ms_encoder s1) \<noteq> None
    \<and> pm_frame_width (es_placement (ms_encoder s1)) = fr_width frame
    \<and> pm_frame_height (es_placement (ms_encoder s1)) = fr_height frame
    \<and> (s1 = s \<or> \<not> scheduler_started (es_scheduler (ms_encoder s1)))"
proof (cases "es_canvas (ms_encoder s) \<noteq> None \<and> fr_width frame = pm_frame_width (es_placement (ms_encoder s))
    \<and> fr_height frame = pm_frame_height (es_placement (ms_encoder s))")
  case True
  then show ?thesis using assms by (simp add: enc_select_canvas_def)
next
  case False
  have sh: "mh_bundle (ms_shared s) = b" "mh_configuration (ms_shared s) = conf" "shared_ok env b conf (ms_shared s)"
    using assms(2) by (simp_all add: encoder_ok_def shared_ok_def)
  have "\<not> scheduler_started (es_scheduler (ms_encoder s))"
  proof
    assume "scheduler_started (es_scheduler (ms_encoder s))"
    from assms(1) [unfolded enc_select_canvas_def Let_def if_not_P [OF False] if_P [OF this]] show False by simp
  qed
  from assms(1) [unfolded enc_select_canvas_def Let_def if_not_P [OF False] if_not_P [OF this] sh and_then_Inr
    just_eq if_just_Inl prod.inject]
  obtain model c s2 pl scratch s3 where e: "Inr model = select_model b (fr_width frame) (fr_height frame) []"
    "on_shared (canvas_of env model encoder_part) s = (Inr c, s2)"
    "Inr pl = place (fr_width frame) (fr_height frame) (bm_parameters model)"
    "\<not> mp_qp_num (bm_parameters model) \<le> cc_intra_qp (codec conf)"
    "on_shared (encoder_buffers env c) s2 = (Inr scratch, s3)"
    "set_encoder (ms_encoder s3\<lparr>es_scratch := scratch, es_canvas := Some c, es_placement := pl,
       es_scheduler := Some (make_scheduler (encoder_loop conf (bm_parameters model))), es_references := []\<rparr>) s3 = s1"
    by blast
  then obtain shared1 shared2 where
    m: "select_model b (fr_width frame) (fr_height frame) [] = Inr model"
      "canvas_of env model encoder_part (ms_shared s) = (Inr c, shared1)"
      "place (fr_width frame) (fr_height frame) (bm_parameters model) = Inr pl"
      "encoder_buffers env c shared1 = (Inr scratch, shared2)"
    and s1: "s1 = set_encoder (ms_encoder s\<lparr>es_scratch := scratch, es_canvas := Some c, es_placement := pl,
             es_scheduler := Some (make_scheduler (encoder_loop conf (bm_parameters model))), es_references := []\<rparr>)
           (s\<lparr>ms_shared := shared2\<rparr>)"
    by (auto simp: on_shared_Inr)
  note c = canvas_of_ok [OF m(2) select_model_in_bundle [OF m(1)] sh(3) assms(3)]
  have "shared_ok env b conf shared2" using core_of [OF buffers_core(1) m(4)] c shared_ok_core by blast
  then show ?thesis using c place_inside(2,3) [OF m(3)] m(3) e(4) [unfolded not_le]
    by (simp add: encoder_ok_def s1 set_encoder_def make_scheduler_def scheduler_started_def)
qed

subsection \<open>The decoder's side\<close>

definition decoder_ok :: "('p, 'st, 'enc, 'dec, 'w, 'r) environment \<Rightarrow> model_bundle \<Rightarrow> runtime_configuration
    \<Rightarrow> ('p, 'st, 'enc, 'dec) mlvc_sessions \<Rightarrow> bool" where
  "decoder_ok env b conf s \<longleftrightarrow> shared_ok env b conf (ms_shared s) \<and>
     (case ds_canvas (ms_decoder s) of
        None \<Rightarrow> \<not> scheduler_started (ds_scheduler (ms_decoder s))
      | Some c \<Rightarrow> canvas_ok env b c
          \<and> map_option fs_parameters (ds_scheduler (ms_decoder s)) = Some (from_model (bm_parameters (cv_model c))))"

lemma dec_select_intra:
  assumes "reliable env" "bundle_ok b" "decoder_ok env b conf r" "canvas_ok env b c"
    "au_frame_type au = intra" "au_model_id au = bm_stream_identity (cv_model c)"
    "place (au_width au) (au_height au) (bm_parameters (cv_model c)) = Inr pl"
  shows "\<exists>r1 c'. dec_select_canvas env au r = (Inr (), r1) \<and> decoder_ok env b conf r1
    \<and> ds_canvas (ms_decoder r1) = Some c' \<and> cv_model c' = cv_model c \<and> ds_placement (ms_decoder r1) = pl"
proof -
  let ?m = "cv_model c"
  have m: "?m \<in> set (bu_models b)" using assms(4) by (simp add: canvas_ok_def)
  have sh: "mh_bundle (ms_shared r) = b" "shared_ok env b conf (ms_shared r)"
    using assms(3) by (simp_all add: decoder_ok_def shared_ok_def)
  note id = model_by_identity_unique [OF assms(2) m]
  show ?thesis
  proof (cases "map_option cv_model (ds_canvas (ms_decoder r)) = Some ?m")
    case True
    then show ?thesis using assms(3,5-7) id sh(1)
      by (auto simp: dec_select_canvas_def Let_def decoder_ok_def set_decoder_def)
  next
    case False
    have "succeeds (canvas_of env ?m decoder_part)"
      using assms(1,4) by (intro succeeds_canvas_of) (auto simp: canvas_ok_def)
    then obtain c' shared1 where c': "canvas_of env ?m decoder_part (ms_shared r) = (Inr c', shared1)"
      by (metis succeedsD)
    obtain scratch shared2 where sc: "decoder_buffers env c' shared1 = (Inr scratch, shared2)"
      using succeedsD [OF succeeds_decoder_buffers [OF assms(1)]] by metis
    note ok = canvas_of_ok [OF c' m sh(2) assms(2)]
    have "shared_ok env b conf shared2" using core_of [OF buffers_core(2) sc] ok shared_ok_core by blast
    moreover have "on_shared (canvas_of env ?m decoder_part) r = (Inr c', r\<lparr>ms_shared := shared1\<rparr>)"
      "on_shared (decoder_buffers env c') (r\<lparr>ms_shared := shared1\<rparr>) = (Inr scratch, r\<lparr>ms_shared := shared2\<rparr>)"
      using c' sc by (simp_all add: on_shared_Inr)
    ultimately show ?thesis using assms(5-7) id sh(1) False ok
      by (simp add: dec_select_canvas_def and_then_def) (auto simp: decoder_ok_def set_decoder_def make_scheduler_def)
  qed
qed

definition decoded_state :: "('p, 'st, 'enc, 'dec) mlvc_sessions
    \<Rightarrow> (model_bundle \<times> (string, ('st, 'enc, 'dec) canvas) omap \<times> runtime_configuration)
      \<times> ('st, 'enc, 'dec) canvas option \<times> placement \<times> frame_scheduler option \<times> tensor reference_store" where
  "decoded_state s = (shared_core (ms_shared s), ds_canvas (ms_decoder s), ds_placement (ms_decoder s),
     ds_scheduler (ms_decoder s), ds_references (ms_decoder s))"

lemmas decoded_state_and_then = and_then_keeps [where obs = decoded_state]

lemma decoded_state_simps [simp]:
  "decoded_state (snd (just r s)) = decoded_state s"
  "decoded_state (snd (on_shared (allocate env shape type) s)) = decoded_state s"
  "decoded_state (set_decoder d s) = (shared_core (ms_shared s), ds_canvas d, ds_placement d, ds_scheduler d, ds_references d)"
  by (simp_all add: decoded_state_def just_def on_shared_def set_decoder_def Let_def case_prod_beta)

lemma decoded_fold:
  "(shared_core (ms_shared s), ds_canvas (ms_decoder s), ds_placement (ms_decoder s), ds_scheduler (ms_decoder s),
     ds_references (ms_decoder s)) = decoded_state s"
  by (simp add: decoded_state_def)

lemma decode_network_state [simp]:
  "decoded_state (snd (decode_network env canvas symbols q_index p reference s)) = decoded_state s"
  by (simp add: decode_network_def Let_def case_prod_beta decoded_state_and_then decoded_fold)

lemma decode_network_succeeds:
  assumes "reliable env"
  shows "\<exists>feature s'. decode_network env canvas symbols q_index p reference s = (Inr feature, s')
    \<and> decoded_state s' = decoded_state s"
proof -
  have ran: "fst (run_stage env stage ins outs sh) = Inr ()" for stage ins outs sh
    using assms unfolding reliable_def run_stage_def Let_def case_prod_beta by (metis fst_conv)
  have "\<exists>feature s1. on_shared (allocate env (cv_feature_shape canvas) (cv_float_type canvas)) s0 = (Inr feature, s1)" for s0
    by (intro succeedsD succeeds_on_shared succeeds_allocate assms)
  then have "\<exists>feature s'. decode_network env canvas symbols q_index p reference s = (Inr feature, s')"
    unfolding decode_network_def Let_def case_prod_beta ran and_then_Inr just_eq by blast
  then show ?thesis using decode_network_state [of env canvas symbols q_index p reference s] by (metis snd_conv)
qed

lemma length_finish_output:
  "length (finish_output x p precision)
     = unat (pm_frame_width p) * unat (pm_frame_height p)
       + 2 * (unat (pm_frame_width p) div 2 * (unat (pm_frame_height p) div 2))"
  by (simp add: finish_output_parts Let_def)

lemma i420_length:
  assumes "even w" "even h"
  shows "w * h + 2 * (w div 2 * (h div 2)) = w * h + w * h div (2::nat)"
proof -
  from assms obtain a b where "w = 2 * a" "h = 2 * b" by (auto elim!: evenE)
  then show ?thesis by simp
qed

lemma even_frame_size:
  assumes "w \<noteq> 0" "h \<noteq> 0" "even (unat w)" "even (unat h)" "w \<le> 16384" "h \<le> 16384"
  shows "\<exists>size. frame_size_bytes w h yuv420p8 = Inr size \<and> unat size = unat w * unat h + unat w * unat h div 2"
proof -
  let ?c = "ucast w * ucast h :: u64"
  have "unat w * unat h \<le> 16384 * 16384"
    using assms(5,6) by (intro mult_le_mono) (simp_all add: word_le_nat_alt)
  then have "unat w * unat h + unat w * unat h div 2 \<le> 16384 * 16384 + 16384 * 16384"
    using div_le_dividend [of "unat w * unat h" 2] by (intro add_mono) linarith+
  then have "unat w * unat h + unat w * unat h div 2 < 2 ^ 64" by simp
  then have "unat (?c + ?c div 2) = unat ?c + unat ?c div 2"
    unfolding unat_plus_if' ucast_mult_u32 unat_div by (simp add: ucast_mult_u32 unat_div)
  then show ?thesis using assms
    by (simp add: frame_size_bytes_def checked_pixels_nonzero even_u32_iff ucast_mult_u32)
qed

lemma finish_frame_succeeds:
  assumes "reliable env" "place w h model = Inr (ds_placement (ms_decoder s))" "w \<le> 16384" "h \<le> 16384"
    "ds_scheduler (ms_decoder s) = Some sch"
  shows "\<exists>g s'. finish_frame env elapsed precision p ts feature s = (Inr g, s') \<and> fr_width g = w \<and> fr_height g = h
    \<and> fr_timestamp g = ts \<and> fr_format g = yuv420p8
    \<and> decoded_state s' = (shared_core (ms_shared s), ds_canvas (ms_decoder s), ds_placement (ms_decoder s),
         Some (scheduler_commit p sch), save (pl_coded_index p) feature (pl_mark_as_ltr p) (ds_references (ms_decoder s)))"
proof -
  note pl = place_inside [OF assms(2)]
  have "w \<noteq> 0" "h \<noteq> 0" using assms(2) by (auto simp: place_def split: if_splits)
  then obtain size where size: "frame_size_bytes w h yuv420p8 = Inr size"
    "unat size = unat w * unat h + unat w * unat h div 2"
    using even_frame_size pl(4,5) assms(3,4) by blast
  have mem: "ev_memory env n" for n using assms(1) by (simp add: reliable_def)
  have len: "length (finish_output x (ds_placement (ms_decoder s)) precision) = unat size" for x
    using length_finish_output [of x "ds_placement (ms_decoder s)" precision] i420_length [OF pl(4,5)] pl(2,3) size(2) by simp
  show ?thesis
    using size(1) mem len pl(2,3) assms(5)
    by (simp add: finish_frame_def and_then_def just_def frame_create_def frame_copy_from_def Let_def)
      (simp add: set_decoder_def decoded_state_def)
qed

subsection \<open>One access unit\<close>

text \<open>
  The decoder follows once the encoder has started: same model, placement and position, and a store with the same
  frames and marks. Before that, and at every intra frame, nothing is asked of the decoder.
\<close>

definition follows :: "('st, 'enc, 'dec) encoder_session \<Rightarrow> ('st, 'enc, 'dec) decoder_session \<Rightarrow> bool" where
  "follows e d \<longleftrightarrow> (scheduler_started (es_scheduler e) \<longrightarrow>
     (\<exists>c c' sch sch'. es_canvas e = Some c \<and> ds_canvas d = Some c' \<and> cv_model c' = cv_model c
        \<and> ds_placement d = es_placement e \<and> es_scheduler e = Some sch \<and> ds_scheduler d = Some sch' \<and> fs_started sch'
        \<and> fs_coded_index sch' = fs_coded_index sch \<and> fs_latest_ltr sch' = fs_latest_ltr sch
        \<and> store_shape (ds_references d) = store_shape (es_references e)))"

text \<open>What a decoder makes of the access unit of an accepted frame, from a state that has taken its canvas.\<close>

lemma decode_coded_succeeds:
  assumes "reliable env" "stack_stream (ev_rans env) stands"
    "ds_canvas (ms_decoder r) = Some c" "entropy_create (ev_rans env) (cv_model c) = Inr (cv_entropy c)"
    "entropy_encode (ev_rans env) (cv_entropy c) symbols q = Inr payload" "q < mp_qp_num (bm_parameters (cv_model c))"
    "place w h (bm_parameters (cv_model c)) = Inr (ds_placement (ms_decoder r))" "w \<le> 16384" "h \<le> 16384"
    "ds_scheduler (ms_decoder r) = Some sch" "au_qp au = q" "au_frame_type au = intra \<longleftrightarrow> pl_frame_class p = intra_class"
    "planned_reference p (planned_store p (ds_references (ms_decoder r))) (cv_zero_feature c) = Some reference"
  shows "\<exists>g r' feature. decode_coded env elapsed p au \<lparr>rec_q_index = q, rec_payload = payload\<rparr> ts r = (Inr g, r')
    \<and> fr_width g = w \<and> fr_height g = h \<and> fr_timestamp g = ts \<and> fr_format g = yuv420p8
    \<and> decoded_state r' = (shared_core (ms_shared r), Some c, ds_placement (ms_decoder r), Some (scheduler_commit p sch),
         save (pl_coded_index p) feature (pl_mark_as_ltr p) (planned_store p (ds_references (ms_decoder r))))"
proof -
  let ?r1 = "set_decoder (ms_decoder r\<lparr>ds_references := planned_store p (ds_references (ms_decoder r))\<rparr>) r"
  have dec: "entropy_decode (ev_rans env) (cv_entropy c) payload q = Inr symbols"
    by (rule entropy_decode_encode [OF assms(2,4,5)])
  obtain feature r2 where r2: "decode_network env c symbols q p reference ?r1 = (Inr feature, r2)"
    "decoded_state r2 = decoded_state ?r1" using decode_network_succeeds [OF assms(1)] by blast
  then have st: "ds_placement (ms_decoder r2) = ds_placement (ms_decoder r)" "ds_scheduler (ms_decoder r2) = Some sch"
    "ds_canvas (ms_decoder r2) = Some c" "shared_core (ms_shared r2) = shared_core (ms_shared r)"
    "ds_references (ms_decoder r2) = planned_store p (ds_references (ms_decoder r))"
    using assms(3,10) by (simp_all add: decoded_state_def [of r2])
  obtain g r' where r': "finish_frame env elapsed (bm_precision (cv_model c)) p ts feature r2 = (Inr g, r')"
    "fr_width g = w" "fr_height g = h" "fr_timestamp g = ts" "fr_format g = yuv420p8"
    "decoded_state r' = (shared_core (ms_shared r), Some c, ds_placement (ms_decoder r), Some (scheduler_commit p sch),
         save (pl_coded_index p) feature (pl_mark_as_ltr p) (planned_store p (ds_references (ms_decoder r))))"
    using finish_frame_succeeds [OF assms(1) _ assms(8,9) st(2)] assms(7) st by metis
  have first: "decode_coded env elapsed p au \<lparr>rec_q_index = q, rec_payload = payload\<rparr> ts r
      = and_then (decode_network env c symbols q p reference) (finish_frame env elapsed (bm_precision (cv_model c)) p ts) ?r1"
  proof (cases "au_frame_type au = intra")
    case True
    then have "planned_store p e = store_clear e" for e :: "tensor reference_store"
      using assms(12) by (simp add: planned_store_def)
    then show ?thesis using True assms(3,11,13) dec assms(6) [folded not_le] by (simp add: decode_coded_def set_decoder_def Let_def)
  next
    case False
    then have "planned_store p e = e" for e :: "tensor reference_store" using assms(12) by (simp add: planned_store_def)
    then show ?thesis using False assms(3,11,13) dec assms(6) [folded not_le] by (simp add: decode_coded_def set_decoder_def Let_def)
  qed
  have "decode_coded env elapsed p au \<lparr>rec_q_index = q, rec_payload = payload\<rparr> ts r = (Inr g, r')"
    unfolding first using r2(1) r'(1) by simp
  then show ?thesis using r' by blast
qed

text \<open>The packet of an accepted frame, as a decoder reads it.\<close>

lemma serialize_record_parse:
  assumes "serialize_record alloc q payload = Inr rec" "q \<le> 71"
  shows "parse_record rec = Inr \<lparr>rec_q_index = q, rec_payload = payload\<rparr>" "q \<noteq> dropped_frame_q_index"
proof -
  have q: "uint q \<le> 71" using assms(2) by (simp add: word_le_def)
  then have "signed_take_bit 31 (uint q) = uint q"
    by (intro signed_take_bit_int_eq_self order.trans [OF _ uint_ge_0]) simp_all
  then have "sint q = uint q" by (simp add: sint_uint)
  moreover have "serialize_record (\<lambda>_. True) q payload = Inr rec"
    using assms(1) by (auto simp: serialize_record_def split: if_splits)
  ultimately show "parse_record rec = Inr \<lparr>rec_q_index = q, rec_payload = payload\<rparr>"
    using record_codec [of rec "\<lparr>rec_q_index = q, rec_payload = payload\<rparr>"] order.trans [OF _ uint_ge_0, of "- 1" q] by simp
  show "q \<noteq> dropped_frame_q_index" using q by (auto simp: dropped_frame_q_index_def unsigned_minus_1_eq_mask mask_eq_exp_minus_1)
qed

lemma dec_ready:
  assumes env: "reliable env" "bundle_ok b" and ok: "decoder_ok env b conf r" "follows e (ms_decoder r)" "canvas_ok env b c"
    and e: "es_canvas e = Some c" "es_scheduler e = Some sch" "fs_parameters sch = encoder_loop conf' (bm_parameters (cv_model c))"
      "place w h (bm_parameters (cv_model c)) = Inr (es_placement e)" "p = plan None sch"
    and u: "au_frame_type au = intra \<longleftrightarrow> pl_frame_class p = intra_class" "au_model_id au = bm_stream_identity (cv_model c)"
      "au_width au = w" "au_height au = h"
  shows "\<exists>r1 c' sch'. dec_select_canvas env au r = (Inr (), r1) \<and> decoder_ok env b conf r1 \<and> ds_canvas (ms_decoder r1) = Some c'
    \<and> cv_model c' = cv_model c \<and> ds_placement (ms_decoder r1) = es_placement e \<and> ds_scheduler (ms_decoder r1) = Some sch'
    \<and> plan (Some (pl_frame_class p = intra_class)) sch' = p
    \<and> (pl_frame_class p \<noteq> intra_class \<longrightarrow> fs_latest_ltr sch' = fs_latest_ltr sch)
    \<and> store_shape (planned_store p (ds_references (ms_decoder r1))) = store_shape (planned_store p (es_references e))"
proof (cases "pl_frame_class p = intra_class")
  case True
  from dec_select_intra [OF env ok(1,3), of au "es_placement e"] True u e(4) obtain r1 c' where
    r1: "dec_select_canvas env au r = (Inr (), r1)" "decoder_ok env b conf r1" "ds_canvas (ms_decoder r1) = Some c'"
      "cv_model c' = cv_model c" "ds_placement (ms_decoder r1) = es_placement e" by auto
  then obtain sch' where sch': "ds_scheduler (ms_decoder r1) = Some sch'" "fs_parameters sch' = from_model (bm_parameters (cv_model c))"
    by (auto simp: decoder_ok_def)
  have "plan (Some (pl_frame_class p = intra_class)) sch' = p"
    using plan_mirror [OF e(3) sch'(2)] True unfolding e(5) by blast
  moreover have "store_shape (planned_store p (ds_references (ms_decoder r1))) = store_shape (planned_store p (es_references e))"
    using True by (simp add: planned_store_def store_clear_def store_shape_def)
  ultimately show ?thesis using r1 sch'(1) True by blast
next
  case False
  then have "fs_started sch" using plan_predicted_started e(5) by blast
  then obtain c' sch' where f: "ds_canvas (ms_decoder r) = Some c'" "cv_model c' = cv_model c"
    "ds_placement (ms_decoder r) = es_placement e" "ds_scheduler (ms_decoder r) = Some sch'" "fs_started sch'"
    "fs_coded_index sch' = fs_coded_index sch" "fs_latest_ltr sch' = fs_latest_ltr sch"
    "store_shape (ds_references (ms_decoder r)) = store_shape (es_references e)"
    using ok(2) e(1,2) by (auto simp: follows_def scheduler_started_def)
  have "fs_parameters sch' = from_model (bm_parameters (cv_model c))" using ok(1) f(1,2,4) by (simp add: decoder_ok_def)
  from plan_mirror [OF e(3) this] f(6,7) have "plan (Some (pl_frame_class p = intra_class)) sch' = p" unfolding e(5) by blast
  moreover have "dec_select_canvas env au r = (Inr (), r)"
    using False u f place_inside(2,3) [OF e(4)] by (simp add: dec_select_canvas_def scheduler_started_def)
  moreover have "store_shape (planned_store p (ds_references (ms_decoder r))) = store_shape (planned_store p (es_references e))"
    using False f(8) by (simp add: planned_store_def)
  ultimately show ?thesis using ok(1) f by blast
qed

lemma follow_step:
  assumes env: "reliable env" "stack_stream (ev_rans env) stands" "bundle_ok b"
    and ok: "encoder_ok env b conf s" "decoder_ok env b conf' r" "follows (ms_encoder s) (ms_decoder r)"
    and limit: "ro_max_packet_bytes (runtime conf) \<le> ro_max_packet_bytes (runtime conf')"
    and enc: "mlvc_encode env elapsed frame s = (Inr packet, s')"
  shows "\<exists>g r'. mlvc_decode env elapsed' packet r = (Inr g, r') \<and> fr_width g = fr_width frame \<and> fr_height g = fr_height frame
    \<and> fr_timestamp g = fr_timestamp frame \<and> fr_format g = yuv420p8
    \<and> encoder_ok env b conf s' \<and> decoder_ok env b conf' r' \<and> follows (ms_encoder s') (ms_decoder r')"
proof -
  from encode_steps [OF enc] obtain s1 c sch p reference rec feature s2 bytes where
    st: "enc_select_canvas env frame s = (Inr (), s1)" "c = the (es_canvas (ms_encoder s1))" "sch = the (es_scheduler (ms_encoder s1))"
    "p = plan None sch"
    and ref: "planned_reference p (planned_store p (es_references (ms_encoder s1))) (cv_zero_feature c) = Some reference"
    and net: "encode_network env c frame p reference
       (set_encoder (ms_encoder s1\<lparr>es_references := planned_store p (es_references (ms_encoder s1))\<rparr>) s1) = (Inr (rec, feature), s2)"
      (is "encode_network _ _ _ _ _ ?s1 = _")
    and ser: "au_serialize (ev_memory env) (make_access_unit (bm_stream_identity (cv_model c)) (fr_width frame) (fr_height frame)
       (cc_intra_qp (codec (mh_configuration (ms_shared s1)))) (if pl_frame_class p = intra_class then intra else predicted)
       (pl_frame_class p = intra_class) rec) (unat (ro_max_packet_bytes (runtime (mh_configuration (ms_shared s2))))) = Inr bytes"
    and pk: "packet = make_packet bytes (fr_timestamp frame) (if pl_frame_class p = intra_class then intra else predicted) []"
    and es': "ms_encoder s' = ms_encoder s2\<lparr>es_references := save (pl_coded_index p) feature (pl_mark_as_ltr p) (es_references (ms_encoder s2)),
       es_scheduler := Some (scheduler_commit p sch)\<rparr>"
    and sh': "shared_core (ms_shared s') = shared_core (ms_shared s2)" by metis
  let ?q = "cc_intra_qp (codec conf)" and ?t = "if pl_frame_class p = intra_class then intra else predicted"
  define au where "au = make_access_unit (bm_stream_identity (cv_model c)) (fr_width frame) (fr_height frame) ?q ?t
    (pl_frame_class p = intra_class) rec"
  have au: "au_frame_type au = intra \<longleftrightarrow> pl_frame_class p = intra_class" "au_model_id au = bm_stream_identity (cv_model c)"
    "au_width au = fr_width frame" "au_height au = fr_height frame" "au_qp au = ?q" "au_payload au = rec"
    "au_frame_type au = ?t" "au_reset_state au \<longleftrightarrow> pl_frame_class p = intra_class"
    by (simp_all add: au_def make_access_unit_def)
  note sel = enc_select_ok [OF st(1) ok(1) env(3)]
  then have c: "es_canvas (ms_encoder s1) = Some c" using st(2) by auto
  with sel have e1: "canvas_ok env b c" "?q < mp_qp_num (bm_parameters (cv_model c))" "es_scheduler (ms_encoder s1) = Some sch"
    "fs_parameters sch = encoder_loop conf (bm_parameters (cv_model c))"
    "place (fr_width frame) (fr_height frame) (bm_parameters (cv_model c)) = Inr (es_placement (ms_encoder s1))"
    "mh_configuration (ms_shared s1) = conf" "shared_ok env b conf (ms_shared s1)"
    using st(3) by (auto simp: encoder_ok_def shared_ok_def)
  have s2: "coded_state s2 = coded_state ?s1" using encode_network_state [of env c frame p reference ?s1] net by simp
  then have e2: "shared_core (ms_shared s2) = shared_core (ms_shared s1)" "es_canvas (ms_encoder s2) = Some c"
    "es_placement (ms_encoder s2) = es_placement (ms_encoder s1)"
    "es_references (ms_encoder s2) = planned_store p (es_references (ms_encoder s1))"
    using c by (simp_all add: coded_state_def [of s2])
  have conf2: "mh_configuration (ms_shared s2) = conf" using e2(1) e1(6) by (simp add: shared_core_def)
  obtain symbols payload where sym: "entropy_encode (ev_rans env) (cv_entropy c) symbols ?q = Inr payload"
    "serialize_record (ev_memory env) ?q payload = Inr rec"
    using encode_network_record [OF net] e1(6) by (auto simp: set_encoder_def)
  have mem: "ev_memory env n" for n using env(1) by (simp add: reliable_def)
  have lim: "unat (ro_max_packet_bytes (runtime conf)) \<le> unat (ro_max_packet_bytes (runtime conf'))"
    using limit by (simp add: word_le_nat_alt)
  note u = serialized_unit [OF ser [unfolded e1(6) conf2] mem lim, folded au_def]
  note parsed = serialize_record_parse [OF sym(2) u(4)]
  have follows1: "follows (ms_encoder s1) (ms_decoder r)" using sel ok(3) by (auto simp: follows_def)
  from dec_ready [OF env(1,3) ok(2) follows1 e1(1) c e1(3-5) st(4) au(1-4)] obtain r1 c' sch' where
    r1: "dec_select_canvas env au r = (Inr (), r1)" "decoder_ok env b conf' r1" "ds_canvas (ms_decoder r1) = Some c'"
      "cv_model c' = cv_model c" "ds_placement (ms_decoder r1) = es_placement (ms_encoder s1)" "ds_scheduler (ms_decoder r1) = Some sch'"
      "plan (Some (pl_frame_class p = intra_class)) sch' = p"
      "pl_frame_class p \<noteq> intra_class \<longrightarrow> fs_latest_ltr sch' = fs_latest_ltr sch"
      "store_shape (planned_store p (ds_references (ms_decoder r1))) = store_shape (planned_store p (es_references (ms_encoder s1)))"
    by blast
  obtain reference' where ref': "planned_reference p (planned_store p (ds_references (ms_decoder r1))) (cv_zero_feature c') = Some reference'"
    using planned_reference_shape [OF r1(9) [symmetric] ref] by blast
  have ent: "entropy_create (ev_rans env) (cv_model c') = Inr (cv_entropy c')" "cv_entropy c' = cv_entropy c"
    using r1(2,3,4) e1(1) by (auto simp: decoder_ok_def canvas_ok_def)
  obtain g r' feature' where g: "decode_coded env elapsed' p au \<lparr>rec_q_index = ?q, rec_payload = payload\<rparr> (fr_timestamp frame) r1 = (Inr g, r')"
    "fr_width g = fr_width frame" "fr_height g = fr_height frame" "fr_timestamp g = fr_timestamp frame" "fr_format g = yuv420p8"
    "decoded_state r' = (shared_core (ms_shared r1), Some c', ds_placement (ms_decoder r1), Some (scheduler_commit p sch'),
         save (pl_coded_index p) feature' (pl_mark_as_ltr p) (planned_store p (ds_references (ms_decoder r1))))"
    using decode_coded_succeeds [OF env(1,2) r1(3) ent(1) sym(1) [folded ent(2)] e1(2) [folded r1(4)]
      e1(5) [folded r1(4,5)] u(5,6) r1(6) au(5,1) ref'] by blast
  have dec: "mlvc_decode env elapsed' packet r = (Inr g, r')"
  proof -
    have cr: "mh_configuration (ms_shared r) = conf'" using ok(2) by (simp add: decoder_ok_def shared_ok_def)
    show ?thesis
      using u(1-3) parsed r1(1,6,7) g(1) cr au(6-8)
      by (cases "pl_frame_class p = intra_class") (simp_all add: mlvc_decode_def pk make_packet_def just_def and_then_def)
  qed
  have enc_ok: "encoder_ok env b conf s'"
    using e1(1,2,4,5,7) sel c es' e2 sh' shared_ok_core [of "ms_shared s'" "ms_shared s1" env b conf]
    by (simp add: encoder_ok_def commit_mirror(4))
  have rs: "ds_canvas (ms_decoder r') = Some c'" "ds_placement (ms_decoder r') = es_placement (ms_encoder s1)"
    "ds_scheduler (ms_decoder r') = Some (scheduler_commit p sch')" "shared_core (ms_shared r') = shared_core (ms_shared r1)"
    "ds_references (ms_decoder r') = save (pl_coded_index p) feature' (pl_mark_as_ltr p) (planned_store p (ds_references (ms_decoder r1)))"
    using g(6) r1(5) by (simp_all add: decoded_state_def [of r'])
  have "decoder_ok env b conf' r'"
    using r1(2,3,6) rs shared_ok_core [of "ms_shared r'" "ms_shared r1" env b conf'] by (simp add: decoder_ok_def commit_mirror(4))
  moreover have "follows (ms_encoder s') (ms_decoder r')"
    using es' e2 rs r1(4,8,9) commit_mirror [of p sch' sch] store_shape_save [OF r1(9)]
    by (simp add: follows_def)
  ultimately show ?thesis using dec g(2-5) enc_ok by blast
qed

subsection \<open>Streams\<close>

definition fresh_mlvc :: "model_bundle \<Rightarrow> 'p \<Rightarrow> string \<Rightarrow> runtime_configuration \<Rightarrow> ('p, 'st, 'enc, 'dec) mlvc_sessions" where
  "fresh_mlvc b p pid conf = \<lparr>ms_shared = \<lparr>mh_bundle = b, mh_provider = p, mh_provider_id = pid, mh_canvases = [],
     mh_statistics = make_statistics, mh_configuration = conf\<rparr>,
     ms_encoder = make_encoder_session, ms_decoder = make_decoder_session\<rparr>"

text \<open>A frame is sent and its packet received, and so on; likewise on the other side.\<close>

fun mlvc_encode_all :: "('p, 'st, 'enc, 'dec, 'w, 'r) environment \<Rightarrow> i64 \<Rightarrow> frame list
    \<Rightarrow> ('p, 'st, 'enc, 'dec) mlvc_sessions \<Rightarrow> packet list result \<times> ('p, 'st, 'enc, 'dec) mlvc_sessions" where
  "mlvc_encode_all env t [] s = (Inr [], s)"
| "mlvc_encode_all env t (f # fs) s =
     and_then (mlvc_send_frame env t f) (\<lambda>_. and_then mlvc_receive_access_unit (\<lambda>packet.
     and_then (mlvc_encode_all env t fs) (\<lambda>packets. just (Inr (packet # packets))))) s"

fun mlvc_decode_all :: "('p, 'st, 'enc, 'dec, 'w, 'r) environment \<Rightarrow> i64 \<Rightarrow> packet list
    \<Rightarrow> ('p, 'st, 'enc, 'dec) mlvc_sessions \<Rightarrow> frame list result \<times> ('p, 'st, 'enc, 'dec) mlvc_sessions" where
  "mlvc_decode_all env t [] s = (Inr [], s)"
| "mlvc_decode_all env t (packet # packets) s =
     and_then (mlvc_send_access_unit env t packet) (\<lambda>_. and_then mlvc_receive_frame (\<lambda>frame.
     and_then (mlvc_decode_all env t packets) (\<lambda>frames. just (Inr (frame # frames))))) s"

definition encoder_idle :: "('p, 'st, 'enc, 'dec) mlvc_sessions \<Rightarrow> bool" where
  "encoder_idle s \<longleftrightarrow> es_outputs (ms_encoder s) = [] \<and> \<not> es_flushed (ms_encoder s)"

definition decoder_idle :: "('p, 'st, 'enc, 'dec) mlvc_sessions \<Rightarrow> bool" where
  "decoder_idle s \<longleftrightarrow> ds_outputs (ms_decoder s) = [] \<and> \<not> ds_flushed (ms_decoder s)"

lemma send_then_receive:
  assumes "encoder_idle s" "mlvc_send_frame env t f s = (Inr (), s1)" "mlvc_receive_access_unit s1 = (Inr packet, s2)"
  shows "mlvc_encode env t f s = (Inr packet, s2)" "encoder_idle s2"
proof -
  from assms(1,2) obtain s0 packet' where e: "mlvc_encode env t f s = (Inr packet', s0)"
    "s1 = set_encoder (ms_encoder s0\<lparr>es_outputs := es_outputs (ms_encoder s0) @ [packet']\<rparr>) s0"
    by (auto simp: mlvc_send_frame_def and_then_Inr encoder_idle_def split: if_splits)
  have idle: "es_outputs (ms_encoder s0) = []" "\<not> es_flushed (ms_encoder s0)"
    using encode_rest_of [OF e(1)] assms(1) by (simp_all add: encoder_rest_def encoder_idle_def)
  then have "ms_encoder s0\<lparr>es_outputs := []\<rparr> = ms_encoder s0" by (metis encoder_session.surjective encoder_session.update_convs(6))
  then have "packet' = packet" "s2 = s0"
    using assms(3) e(2) idle(1) by (auto simp: mlvc_receive_access_unit_def set_encoder_def)
  then show "mlvc_encode env t f s = (Inr packet, s2)" "encoder_idle s2" using e(1) idle by (simp_all add: encoder_idle_def)
qed

lemma send_then_receive_decoder:
  assumes "decoder_idle s" "mlvc_decode env t packet s = (Inr g, s')"
  shows "\<exists>s1. mlvc_send_access_unit env t packet s = (Inr (), s1) \<and> mlvc_receive_frame s1 = (Inr g, s')" "decoder_idle s'"
proof -
  have idle: "ds_outputs (ms_decoder s') = []" "\<not> ds_flushed (ms_decoder s')"
    using decode_rest_of [OF assms(2)] assms(1) by (simp_all add: decoder_rest_def decoder_idle_def)
  then show "decoder_idle s'" by (simp add: decoder_idle_def)
  have "ms_decoder s'\<lparr>ds_outputs := []\<rparr> = ms_decoder s'" using idle(1)
    by (metis decoder_session.surjective decoder_session.update_convs(7))
  then have "mlvc_receive_frame (set_decoder (ms_decoder s'\<lparr>ds_outputs := [g]\<rparr>) s') = (Inr g, s')"
    by (simp add: mlvc_receive_frame_def set_decoder_def)
  moreover have "mlvc_send_access_unit env t packet s = (Inr (), set_decoder (ms_decoder s'\<lparr>ds_outputs := [g]\<rparr>) s')"
    using assms idle(1) by (simp add: mlvc_send_access_unit_def decoder_idle_def)
  ultimately show "\<exists>s1. mlvc_send_access_unit env t packet s = (Inr (), s1) \<and> mlvc_receive_frame s1 = (Inr g, s')" by blast
qed

lemma follow_stream:
  assumes env: "reliable env" "stack_stream (ev_rans env) stands" "bundle_ok b"
    and limit: "ro_max_packet_bytes (runtime conf) \<le> ro_max_packet_bytes (runtime conf')"
  shows "encoder_ok env b conf s \<Longrightarrow> decoder_ok env b conf' r \<Longrightarrow> follows (ms_encoder s) (ms_decoder r) \<Longrightarrow>
    encoder_idle s \<Longrightarrow> decoder_idle r \<Longrightarrow> mlvc_encode_all env t fs s = (Inr packets, s') \<Longrightarrow>
    \<exists>gs r'. mlvc_decode_all env t' packets r = (Inr gs, r') \<and> map picture_of gs = map picture_of fs"
proof (induction fs arbitrary: s r packets s')
  case Nil
  then show ?case by simp
next
  case (Cons f fs)
  from Cons.prems(6) obtain s1 packet s2 packets' where
    e: "mlvc_send_frame env t f s = (Inr (), s1)" "mlvc_receive_access_unit s1 = (Inr packet, s2)"
      "mlvc_encode_all env t fs s2 = (Inr packets', s')" "packets = packet # packets'"
    by (auto simp: and_then_Inr)
  have fmt: "fr_format f = yuv420p8" using e(1) by (auto simp: mlvc_send_frame_def split: if_splits)
  note one = send_then_receive [OF Cons.prems(4) e(1,2)]
  from follow_step [OF env Cons.prems(1-3) limit one(1), of t'] obtain g r' where
    g: "mlvc_decode env t' packet r = (Inr g, r')" "picture_of g = picture_of f"
    and ok: "encoder_ok env b conf s2" "decoder_ok env b conf' r'" "follows (ms_encoder s2) (ms_decoder r')"
    using fmt by (auto simp: picture_of_def)
  from send_then_receive_decoder [OF Cons.prems(5) g(1)] obtain r1 where
    d: "mlvc_send_access_unit env t' packet r = (Inr (), r1)" "mlvc_receive_frame r1 = (Inr g, r')" "decoder_idle r'" by blast
  from Cons.IH [OF ok one(2) d(3) e(3)] obtain gs r'' where
    "mlvc_decode_all env t' packets' r' = (Inr gs, r'')" "map picture_of gs = map picture_of fs" by blast
  then show ?case using d(1,2) e(4) g(2) by simp
qed


subsection \<open>A working environment\<close>

definition quiet_environment :: "(unit, unit, unit, unit, byte list, byte list) environment" where
  "quiet_environment =
     \<lparr>ev_allocate = (\<lambda>size domain p. (Inr (replicate (unat size) 0), p)), ev_load_stage = (\<lambda>descriptor p. (Inr (), p)),
      ev_submit = (\<lambda>stage views p. (Inr (), map tv_bytes (filter (\<lambda>v. tv_access v = write_access) views), p)),
      ev_rans = byte_library,
      ev_file = (\<lambda>path. \<lparr>if_path = path, if_open = True, if_content = [], if_reaches_eof = True\<rparr>),
      ev_memory = (\<lambda>n. True)\<rparr>"

definition empty_digest :: string where
  "empty_digest = (case sha256_files [ev_file quiet_environment ''m.onnx'', ev_file quiet_environment ''w''] ''mlvc.bundle'' of
     Inr digest \<Rightarrow> digest | Inl e \<Rightarrow> [])"

definition quiet_part :: model_part where
  "quiet_part = \<lparr>part_component_id = ''m'', part_model_path = ''m.onnx'', part_weights_path = ''w'', part_sha256 = empty_digest\<rparr>"

definition quiet_model :: bundle_model where
  "quiet_model = (sample_model 4 4 ''4x4'')\<lparr>bm_stream_identity := ''b-4x4'', bm_encoder := quiet_part, bm_decoder := quiet_part,
     bm_parameters := (sample_parameters 4 4)\<lparr>mp_latent_channels := 0, mp_hyperprior_channels := 0\<rparr>\<rparr>"

definition quiet_bundle :: model_bundle where
  "quiet_bundle = \<lparr>bu_root = ''/b'', bu_name = ''b'', bu_target_device = ''cpu'', bu_models = [quiet_model]\<rparr>"

lemma quiet_reliable: "reliable quiet_environment"
  by (simp add: reliable_def quiet_environment_def)

lemma quiet_bundle_ok: "bundle_ok quiet_bundle"
  by (simp add: bundle_ok_def quiet_bundle_def quiet_model_def sample_model_def)

lemma quiet_digests: "verify_digests (ev_file quiet_environment) quiet_model = Inr ()"
proof -
  have "sha256_files [ev_file quiet_environment ''m.onnx'', ev_file quiet_environment ''w''] ''mlvc.bundle'' = Inr empty_digest"
    by (simp add: empty_digest_def sha256_files_def quiet_environment_def)
  then show ?thesis by (simp add: verify_digests_def verify_digest_def quiet_model_def quiet_part_def)
qed

definition grey_frame :: "timestamp \<Rightarrow> frame" where
  "grey_frame ts = \<lparr>fr_width = 4, fr_height = 2, fr_format = yuv420p8, fr_timestamp = ts, fr_data = replicate 12 128\<rparr>"

lemma quiet_calls [simp]:
  "ev_allocate quiet_environment n domain p = (Inr (replicate (unat n) 0), p)"
  "ev_load_stage quiet_environment descriptor p = (Inr (), p)"
  "ev_submit quiet_environment stage views p = (Inr (), map tv_bytes (filter (\<lambda>v. tv_access v = write_access) views), p)"
  "ev_rans quiet_environment = byte_library" "ev_memory quiet_environment k"
  by (simp_all add: quiet_environment_def)

lemma quiet_library [simp]:
  "lib_encoder_initialize byte_library table s b = Inr ()" "lib_decoder_initialize byte_library table s b = Inr ()"
  "lib_encoder_stream byte_library = Inr []" "lib_encode byte_library enc w indices [] = Inr w" "lib_flush byte_library w = w"
  by (simp_all add: byte_library_def)

lemma quiet_fields [simp]:
  "bm_canvas_id quiet_model = ''4x4''" "bm_precision quiet_model = fp16" "bm_stream_identity quiet_model = ''b-4x4''"
  "mp_width (bm_parameters quiet_model) = 4" "mp_height (bm_parameters quiet_model) = 4" "mp_qp_num (bm_parameters quiet_model) = 64"
  "mp_feature_channels (bm_parameters quiet_model) = 48" "mp_downsample_feature (bm_parameters quiet_model) = 8"
  "be_qp_num (bm_bit_estimator quiet_model) = 64"
  "latent_shape_of (bm_parameters quiet_model) = \<lparr>ls_y_channels = 0, ls_y_height = 0, ls_y_width = 0, ls_z_channels = 0,
     ls_z_height = 1, ls_z_width = 1\<rparr>"
  by (simp_all add: quiet_model_def sample_model_def sample_parameters_def latent_shape_of_def)

definition quiet_canvas :: "(unit, unit, unit) canvas" where
  "quiet_canvas = \<lparr>cv_model = quiet_model, cv_latent = latent_shape_of (bm_parameters quiet_model), cv_float_type = float16,
     cv_encoder = Some (), cv_decoder = None,
     cv_entropy = \<lparr>ec_gaussian_encoder = (), ec_gaussian_decoder = (), ec_z_encoder = (), ec_z_decoder = (),
       ec_parameters = bm_parameters quiet_model, ec_scale_levels = ga_scale_levels (bm_gaussian quiet_model), ec_z_qp_num = 64,
       ec_shape = latent_shape_of (bm_parameters quiet_model)\<rparr>,
     cv_image_shape = [1, 3, 4, 4], cv_feature_shape = [1, 48, 0, 0], cv_z_shape = [1, 0, 1, 1], cv_y_shape = [1, 0, 0, 0],
     cv_zero_feature = \<lparr>tn_shape = [1, 48, 0, 0], tn_type = float16, tn_bytes = []\<rparr>\<rparr>"

lemma quiet_canvas_of:
  assumes "mh_canvases sh = []" "mh_provider_id sh = ''cpu''"
  shows "canvas_of quiet_environment quiet_model encoder_part sh = (Inr quiet_canvas, sh\<lparr>mh_canvases := [(''4x4'', quiet_canvas)]\<rparr>)"
  using assms
  by (simp add: canvas_of_def find_canvas_def create_canvas_def quiet_digests and_then_def just_def
    entropy_create_def allocate_def load_stage_def put_canvas_def Let_def quiet_canvas_def element_count_def)


lemmas encode_defs = mlvc_send_frame_def mlvc_receive_access_unit_def mlvc_encode_def enc_select_canvas_def
  encode_network_def encoder_buffers_def and_then_def just_def on_shared_def set_encoder_def

lemma quiet_configuration [simp]:
  "cc_intra_qp (codec default_configuration) = 32" "ro_max_packet_bytes (runtime default_configuration) = 67108864"
  by (simp_all add: default_configuration_def default_codec_configuration_def default_runtime_options_def)

lemma quiet_schedule:
  "plan None (make_scheduler (encoder_loop default_configuration (bm_parameters quiet_model)))
     = \<lparr>pl_frame_class = intra_class, pl_coded_index = 0, pl_reference = None, pl_mark_as_ltr = False, pl_feature_reset = False\<rparr>"
  by (simp add: plan_def make_scheduler_def encoder_loop_def from_model_def default_configuration_def default_codec_configuration_def
    quiet_model_def sample_model_def sample_parameters_def divides_index_def use_model_iframe_period_def)

lemma quiet_record: "serialize_record (ev_memory quiet_environment) 32 [] = Inr [32, 0, 0, 0, 0, 0, 0, 0]"
  by (simp add: serialize_record_def record_write_u32_le le_bytes_numeral dropped_frame_q_index_def)

lemma quiet_unit:
  "\<exists>bytes. au_serialize (ev_memory quiet_environment) (make_access_unit ''b-4x4'' 4 2 32 t (t = intra) [32, 0, 0, 0, 0, 0, 0, 0]) 67108864 = Inr bytes"
  by (simp add: au_serialize_iff validate_v1_fields_def validate_common_fields_def make_access_unit_def v1_layout_def
    valid_model_id_def valid_identifier_def identifier_char_def isalnum_def isdigit_def isupper_def islower_def char_code_def au_constants)

lemma quiet_encode:
  "\<exists>packets s'. mlvc_encode_all quiet_environment 0 [grey_frame ts] (fresh_mlvc quiet_bundle () ''cpu'' default_configuration)
     = (Inr packets, s') \<and> length packets = 1"
  using quiet_unit [of intra]
  by (auto simp: encode_defs fresh_mlvc_def make_encoder_session_def scheduler_started_def select_model_def quiet_bundle_def fits_def
    grey_frame_def quiet_canvas_of place_def allocate_def Let_def uses_tensorrt_def quiet_schedule planned_reference_def
    run_stage_def bind_view_def quiet_canvas_def element_count_def latent_symbols_of_def tensor_symbols_def to_symbols_def
    entropy_encode_def z_elements_def y_elements_def quiet_record upt_rec)


subsection \<open>A packet over the limit\<close>

definition tight_configuration :: runtime_configuration where
  "tight_configuration = default_configuration\<lparr>runtime := default_runtime_options\<lparr>ro_max_packet_bytes := 16\<rparr>\<rparr>"

lemma tight_fields [simp]:
  "cc_intra_qp (codec tight_configuration) = 32" "ro_max_packet_bytes (runtime tight_configuration) = 16"
  "encoder_loop tight_configuration = encoder_loop default_configuration"
  by (simp_all add: tight_configuration_def encoder_loop_def fun_eq_iff Let_def)

lemma tight_unit:
  "au_serialize (ev_memory quiet_environment) (make_access_unit ''b-4x4'' 4 2 32 intra True [32, 0, 0, 0, 0, 0, 0, 0]) 16 = Inl au_over_limit"
  by (simp add: au_serialize_def validate_v1_fields_def validate_common_fields_def make_access_unit_def
    valid_model_id_def valid_identifier_def identifier_char_def isalnum_def isdigit_def isupper_def islower_def char_code_def au_constants)


end
