(* ===== verification/UfPayload.thy ===== *)
theory UfPayload
  imports AccessUnits Configuration
begin

text \<open>
  The payload of a DCVC-UF access unit (\<^verbatim>\<open>src/dcvcuf/adapter.cpp\<close>): a magic for intra frames and for groups of
  frames, the number of time stamps, the parallelism of the entropy coder, a flag byte, the time stamps and the
  entropy-coded bytes.
\<close>

subsection \<open>Model\<close>

definition uf_intra_magic :: "byte list" where "uf_intra_magic = [0x55, 0x46, 0x49, 0x31]"
definition uf_predicted_magic :: "byte list" where "uf_predicted_magic = [0x55, 0x46, 0x50, 0x31]"

definition uf_error :: "error_code \<Rightarrow> string \<Rightarrow> error" where
  "uf_error ec msg = Error ec msg ''dcvcuf''"

definition append_u64 :: "byte list \<Rightarrow> u64 \<Rightarrow> byte list" where
  "append_u64 output value =
     fold (\<lambda>shift out. out @ [ucast (drop_bit shift value AND 0xff)]) [0, 8, 16, 24, 32, 40, 48, 56] output"

definition uf_read_u64 :: "byte list \<Rightarrow> nat \<Rightarrow> u64" where
  "uf_read_u64 input offset =
     fold (\<lambda>shift value. value OR push_bit shift (ucast (input ! (offset + shift div 8))))
       [0, 8, 16, 24, 32, 40, 48, 56] 0"

definition group_frames :: nat where "group_frames = 8"
definition reset_interval :: u64 where "reset_interval = 32"
definition max_qp :: u32 where "max_qp = 63"
definition reset_feature_memory_flag :: u8 where "reset_feature_memory_flag = 1"

record encoded =
  ed_bitstream :: "byte list"
  ed_entropy_parallel :: u8

record codec_payload =
  cp_entropy_parallel :: u8
  cp_reset_feature_memory :: bool
  cp_timestamps :: "timestamp list"
  cp_bitstream :: "byte list"

definition payload_magic :: "frame_type \<Rightarrow> byte list" where
  "payload_magic type = (if type = intra then uf_intra_magic else uf_predicted_magic)"

definition make_payload :: "frame_type \<Rightarrow> encoded \<Rightarrow> timestamp list \<Rightarrow> bool \<Rightarrow> byte list" where
  "make_payload type enc timestamps reset_feature_memory =
     (let output = payload_magic type;
          output = output @ [word_of_nat (length timestamps)];
          output = output @ [ed_entropy_parallel enc];
          output = output @ [if reset_feature_memory then reset_feature_memory_flag else 0];
          output = output @ [0];
          output = fold (\<lambda>ts output. append_u64 output ts) timestamps output
      in output @ ed_bitstream enc)"

definition parse_payload :: "frame_type \<Rightarrow> byte list \<Rightarrow> codec_payload result" where
  "parse_payload type payload =
     (if length payload < 17 \<or> take 4 payload \<noteq> payload_magic type then
        Inl (uf_error malformed_bitstream ''invalid DCVC-UF codec payload header'')
      else
        let count = payload ! 4; entropy_parallel = payload ! 5; flags = payload ! 6;
            allowed_flags = (if type = intra then 0 else reset_feature_memory_flag) in
        if flags AND NOT allowed_flags \<noteq> 0 \<or> payload ! 7 \<noteq> 0 \<or> entropy_parallel = 0 \<or> count = 0 \<or> count > 8
           \<or> (type = intra \<and> count \<noteq> 1) then
          Inl (uf_error malformed_bitstream ''invalid DCVC-UF payload fields'')
        else
          let header = 8 + unat count * 8 in
          if length payload \<le> header then
            Inl (uf_error malformed_bitstream ''DCVC-UF payload has no entropy stream'')
          else
            let parsed = \<lparr>cp_entropy_parallel = entropy_parallel,
                  cp_reset_feature_memory = (flags AND reset_feature_memory_flag \<noteq> 0),
                  cp_timestamps = map (\<lambda>index. uf_read_u64 payload (8 + index * 8)) [0..<unat count],
                  cp_bitstream = drop header payload\<rparr> in
            if length (cp_bitstream parsed) > 2 ^ 31 - 1 then
              Inl (uf_error resource_exhausted ''DCVC-UF entropy stream is too large'')
            else Inr parsed)"

definition wrap_access_unit :: "(nat \<Rightarrow> bool) \<Rightarrow> runtime_configuration \<Rightarrow> frame_type \<Rightarrow> u32 \<Rightarrow> u32 \<Rightarrow> timestamp
    \<Rightarrow> byte list \<Rightarrow> packet result" where
  "wrap_access_unit alloc configuration type width height ts payload =
     (let access_unit = make_access_unit (sp_bitstream_model_id (stream configuration)) width height
            (cc_intra_qp (codec configuration)) type (type = intra) payload in
      res_bind (au_serialize alloc access_unit (unat (ro_max_packet_bytes (runtime configuration)))) (\<lambda>serialized.
      Inr (make_packet serialized ts type [])))"

subsection \<open>Layout\<close>

lemma append_u64_le: "append_u64 out v = out @ le64 v"
proof -
  have "append_u64 [] v = le64 v"
    by (simp add: append_u64_def ucast_and_ff eval_nat_numeral)
  moreover have "append_u64 out v = out @ append_u64 [] v" by (simp add: append_u64_def)
  ultimately show ?thesis by simp
qed

lemma append_all: "fold (\<lambda>ts output. append_u64 output ts) ts out = out @ concat (map le64 ts)"
  by (induction ts arbitrary: out) (simp_all add: append_u64_le)

lemma make_payload_layout:
  "make_payload type enc ts reset = payload_magic type @ [word_of_nat (length ts), ed_entropy_parallel enc,
     if reset then 1 else 0, 0] @ concat (map le64 ts) @ ed_bitstream enc"
  by (simp add: make_payload_def append_all reset_feature_memory_flag_def)

lemma uf_read_u64_at: "length pre = k \<Longrightarrow> uf_read_u64 (pre @ le64 v @ post) k = v"
proof -
  assume k: "length pre = k"
  have "(pre @ le64 v @ post) ! (k + i) = le64 v ! i" if "i < 8" for i
    using that k by (simp add: nth_append)
  from this [of 0] this [of 1] this [of 2] this show ?thesis
    using le_value_8 [of "le64 v"] by (simp add: uf_read_u64_def le_value_bytes_full)
qed

lemma length_le64s [simp]: "length (concat (map le64 ts)) = 8 * length ts"
  by (induction ts) simp_all

lemma uf_read_timestamps:
  assumes "length header = 8"
  shows "map (\<lambda>index. uf_read_u64 (header @ concat (map le64 ts) @ post) (8 + index * 8)) [0..<length ts] = ts"
proof (rule nth_equalityI)
  fix i assume "i < length (map (\<lambda>index. uf_read_u64 (header @ concat (map le64 ts) @ post) (8 + index * 8)) [0..<length ts])"
  then have i: "i < length ts" by simp
  then have "concat (map le64 ts) = concat (map le64 (take i ts)) @ le64 (ts ! i) @ concat (map le64 (drop (Suc i) ts))"
    by (metis id_take_nth_drop map_append list.simps(9) concat_append concat.simps(2))
  then have "uf_read_u64 (header @ concat (map le64 ts) @ post) (8 + i * 8) = ts ! i"
    using uf_read_u64_at [of "header @ concat (map le64 (take i ts))" "8 + i * 8" "ts ! i"] assms i by simp
  then show "map (\<lambda>index. uf_read_u64 (header @ concat (map le64 ts) @ post) (8 + index * 8)) [0..<length ts] ! i = ts ! i"
    using i by simp
qed simp

lemma timestamps_of_bytes: "8 * n \<le> length bs \<Longrightarrow> \<exists>ts :: u64 list. length ts = n \<and> bs = concat (map le64 ts) @ drop (8 * n) bs"
proof (induction n arbitrary: bs)
  case (Suc n)
  then obtain ts :: "u64 list" where ts: "length ts = n" "drop 8 bs = concat (map le64 ts) @ drop (8 * n) (drop 8 bs)"
    using Suc.IH [of "drop 8 bs"] Suc.prems by (auto simp: le_diff_conv2)
  have "take 8 bs = le64 (le_value (take 8 bs))"
    using Suc.prems le_bytes_le_value [of "take 8 bs", where ?'a = 64] by simp
  then have "bs = le64 (le_value (take 8 bs)) @ drop 8 bs" by (metis append_take_drop_id)
  then have "bs = concat (map le64 (le_value (take 8 bs) # ts)) @ drop (8 * Suc n) bs"
    using ts(2) by (simp add: add.commute)
  then show ?case using ts(1) by (intro exI [of _ "le_value (take 8 bs) # ts"]) simp
qed simp

subsection \<open>The payload codec\<close>

definition payload_supported :: "frame_type \<Rightarrow> codec_payload \<Rightarrow> bool" where
  "payload_supported type p \<longleftrightarrow>
     cp_entropy_parallel p \<noteq> 0 \<and> cp_timestamps p \<noteq> [] \<and> length (cp_timestamps p) \<le> 8
     \<and> (type = intra \<longrightarrow> length (cp_timestamps p) = 1 \<and> \<not> cp_reset_feature_memory p)
     \<and> cp_bitstream p \<noteq> [] \<and> length (cp_bitstream p) \<le> 2 ^ 31 - 1"

definition payload_bytes :: "frame_type \<Rightarrow> codec_payload \<Rightarrow> byte list" where
  "payload_bytes type p =
     make_payload type \<lparr>ed_bitstream = cp_bitstream p, ed_entropy_parallel = cp_entropy_parallel p\<rparr> (cp_timestamps p)
       (cp_reset_feature_memory p)"

lemma length_uf_magic [simp]: "length (payload_magic type) = 4"
  by (simp add: payload_magic_def uf_intra_magic_def uf_predicted_magic_def)

lemma payload_header:
  assumes "bs = payload_magic type @ [a, b, c, d] @ rest"
  shows "take 4 bs = payload_magic type" "bs ! 4 = a" "bs ! 5 = b" "bs ! 6 = c" "bs ! 7 = d" "length bs = 8 + length rest"
  using assms by (simp_all add: nth_append)

lemma flag_bits: "(if r then 1 else 0 :: u8) AND NOT (if t = intra then 0 else 1) \<noteq> 0 \<longleftrightarrow> r \<and> t = intra"
  "(if r then 1 else 0 :: u8) AND 1 \<noteq> 0 \<longleftrightarrow> r"
  by simp_all

lemma flag_cases: "(v :: u8) AND NOT 1 = 0 \<Longrightarrow> v = 0 \<or> v = 1"
proof -
  assume "v AND NOT 1 = 0"
  moreover have "v = (v AND NOT 1) OR (v AND 1)" by (metis bit.conj_disj_distrib bit.disj_cancel_left bit.conj_one_right)
  moreover have "v AND 1 = 0 \<or> v AND 1 = 1" by (simp add: and_one_eq mod_2_eq_odd)
  ultimately show ?thesis by auto
qed

lemma parse_make_payload:
  assumes "payload_supported type p"
  shows "parse_payload type (payload_bytes type p) = Inr p"
proof -
  let ?n = "length (cp_timestamps p)" and ?bs = "payload_bytes type p"
  have s: "cp_entropy_parallel p \<noteq> 0" "1 \<le> ?n" "?n \<le> 8" "type = intra \<longrightarrow> ?n = 1 \<and> \<not> cp_reset_feature_memory p"
    "1 \<le> length (cp_bitstream p)" "length (cp_bitstream p) \<le> 2 ^ 31 - 1"
    using assms by (auto simp: payload_supported_def Suc_le_eq)
  have u: "unat (word_of_nat ?n :: u8) = ?n" using s(3) by (simp add: unat_of_nat take_bit_nat_eq_self)
  then have c: "(word_of_nat ?n :: u8) \<noteq> 0" "\<not> (word_of_nat ?n :: u8) > 8" "type = intra \<longrightarrow> (word_of_nat ?n :: u8) = 1"
    using s(2-4) by (auto simp: word_less_nat_alt unat_eq_0 [symmetric])
  have bs: "?bs = payload_magic type @ [word_of_nat ?n, cp_entropy_parallel p, if cp_reset_feature_memory p then 1 else 0, 0]
      @ concat (map le64 (cp_timestamps p)) @ cp_bitstream p"
    by (simp add: payload_bytes_def make_payload_layout)
  note h = payload_header [OF bs]
  have ts: "map (\<lambda>index. uf_read_u64 ?bs (8 + index * 8)) [0..<?n] = cp_timestamps p"
    using uf_read_timestamps [of "payload_magic type @ [word_of_nat ?n, cp_entropy_parallel p, if cp_reset_feature_memory p then 1 else 0, 0]"
      "cp_timestamps p" "cp_bitstream p"] by (simp add: bs)
  have "drop (8 + ?n * 8) ?bs = drop (8 * ?n) (drop 8 ?bs)" by (simp add: add.commute mult.commute)
  also have "drop 8 ?bs = concat (map le64 (cp_timestamps p)) @ cp_bitstream p" by (simp add: bs eval_nat_numeral)
  finally have d: "drop (8 + ?n * 8) ?bs = cp_bitstream p" by simp
  show ?thesis
    using s c u h ts d flag_bits(1) [of "cp_reset_feature_memory p" type] flag_bits(2) [of "cp_reset_feature_memory p"]
    by (auto simp: parse_payload_def Let_def reset_feature_memory_flag_def)
qed

lemma parse_payload_shape:
  assumes "parse_payload type bs = Inr p"
  shows "payload_supported type p \<and> bs = payload_bytes type p"
proof -
  from assms have h: "17 \<le> length bs" "take 4 bs = payload_magic type" "bs ! 6 AND NOT (if type = intra then 0 else 1) = 0"
      "bs ! 7 = 0" "bs ! 5 \<noteq> 0" "bs ! 4 \<noteq> 0" "bs ! 4 \<le> 8" "type = intra \<longrightarrow> bs ! 4 = 1"
      "8 + unat (bs ! 4) * 8 < length bs" "length bs - (8 + unat (bs ! 4) * 8) \<le> 2 ^ 31 - 1"
    by (auto simp: parse_payload_def Let_def reset_feature_memory_flag_def not_less split: if_splits)
  obtain ts :: "u64 list" where ts: "length ts = unat (bs ! 4)"
    "drop 8 bs = concat (map le64 ts) @ drop (8 * unat (bs ! 4)) (drop 8 bs)"
    using timestamps_of_bytes [of "unat (bs ! 4)" "drop 8 bs"] h(9) by (auto simp: le_diff_conv2)
  define q where "q = \<lparr>cp_entropy_parallel = bs ! 5, cp_reset_feature_memory = (bs ! 6 = 1), cp_timestamps = ts,
    cp_bitstream = drop (8 * unat (bs ! 4)) (drop 8 bs)\<rparr>"
  have flags: "bs ! 6 = (if bs ! 6 = 1 then 1 else 0)" "type = intra \<longrightarrow> bs ! 6 = 0"
    using h(3) flag_cases [of "bs ! 6"] by (auto split: if_splits)
  have n: "1 \<le> unat (bs ! 4)" "unat (bs ! 4) \<le> 8" "type = intra \<longrightarrow> unat (bs ! 4) = 1"
    using h(6,7,8) by (auto simp: word_le_nat_alt unat_gt_0 Suc_le_eq)
  then have sup: "payload_supported type q"
    using h(5,9,10) ts(1) flags by (auto simp: payload_supported_def q_def)
  have "drop 4 bs = [bs ! 4, bs ! 5, bs ! 6, bs ! 7] @ drop 8 bs"
    using h(1) Cons_nth_drop_Suc [of 4 bs] Cons_nth_drop_Suc [of 5 bs] Cons_nth_drop_Suc [of 6 bs] Cons_nth_drop_Suc [of 7 bs]
    by simp
  then have "bs = take 4 bs @ [bs ! 4, bs ! 5, bs ! 6, bs ! 7] @ drop 8 bs" by (metis append_take_drop_id)
  also have "\<dots> = payload_bytes type q"
    using flags(1) ts h(2,4) by (simp add: payload_bytes_def make_payload_layout q_def)
  finally have bs: "bs = payload_bytes type q" .
  then have "p = q" using parse_make_payload [OF sup] assms by simp
  then show ?thesis using sup bs by simp
qed

text \<open>
  Property C17. \<open>parse_payload\<close> accepts exactly the payloads \<open>make_payload\<close> builds from supported fields: at least one
  and at most eight time stamps, one for an intra frame, a non-zero parallelism, a non-empty entropy stream a signed
  32-bit length can describe, and the reset flag on groups only; and it returns these fields.
\<close>

theorem uf_payload_codec:
  "parse_payload type bs = Inr p \<longleftrightarrow> payload_supported type p \<and>
     bs = make_payload type \<lparr>ed_bitstream = cp_bitstream p, ed_entropy_parallel = cp_entropy_parallel p\<rparr> (cp_timestamps p)
       (cp_reset_feature_memory p)"
  using parse_payload_shape [of type bs p] parse_make_payload [of type p] unfolding payload_bytes_def by blast

end
