(* ===== verification/UfSession.thy ===== *)
theory UfSession
  imports UfPayload SessionApi Stats Json
begin

text \<open>
  The DCVC-UF sessions (\<^verbatim>\<open>src/dcvcuf/adapter.cpp\<close>, \<^verbatim>\<open>src/dcvcuf/registration.cpp\<close>). The encoder codes an intra frame at
  once and gathers other frames into groups of eight; \<open>flush\<close> pads an open group with copies of its last frame and
  transmits only the time stamps of the real ones. The interface \<open>ExecutionSession\<close>
  (\<^verbatim>\<open>src/dcvcuf/execution_session.hpp\<close>), behind which the networks and the reference features are, is an argument.
\<close>

subsection \<open>State\<close>

record 'p execution =
  ex_encode_intra :: "frame \<Rightarrow> u32 \<Rightarrow> 'p \<Rightarrow> encoded result \<times> 'p"
  ex_decode_intra :: "byte list \<Rightarrow> u8 \<Rightarrow> u32 \<Rightarrow> u32 \<Rightarrow> u32 \<Rightarrow> timestamp \<Rightarrow> 'p \<Rightarrow> frame result \<times> 'p"
  ex_encode_predicted :: "frame list \<Rightarrow> u32 \<Rightarrow> bool \<Rightarrow> 'p \<Rightarrow> encoded result \<times> 'p"
  ex_decode_predicted :: "byte list \<Rightarrow> u8 \<Rightarrow> u32 \<Rightarrow> u32 \<Rightarrow> u32 \<Rightarrow> timestamp list \<Rightarrow> bool \<Rightarrow> 'p \<Rightarrow> frame list result \<times> 'p"
  ex_reset_encoder_state :: "'p \<Rightarrow> unit result \<times> 'p"
  ex_reset_decoder_state :: "'p \<Rightarrow> unit result \<times> 'p"

record uf_encoder =
  ue_pending :: "frame list"
  ue_outputs :: "packet list"
  ue_frame_index :: u64
  ue_step_index :: u64
  ue_width :: u32
  ue_height :: u32
  ue_flushed :: bool

record uf_decoder =
  ud_outputs :: "frame list"
  ud_flushed :: bool

record 'p uf_sessions =
  us_configuration :: runtime_configuration
  us_provider :: 'p
  us_statistics :: statistics
  us_encoder :: uf_encoder
  us_decoder :: uf_decoder

definition on_provider :: "('p \<Rightarrow> 'a result \<times> 'p) \<Rightarrow> 'p uf_sessions \<Rightarrow> 'a result \<times> 'p uf_sessions" where
  "on_provider m s = (let (r, p) = m (us_provider s) in (r, s\<lparr>us_provider := p\<rparr>))"

definition fresh_uf :: "runtime_configuration \<Rightarrow> 'p \<Rightarrow> 'p uf_sessions" where
  "fresh_uf configuration p =
     \<lparr>us_configuration = configuration, us_provider = p, us_statistics = make_statistics,
      us_encoder = \<lparr>ue_pending = [], ue_outputs = [], ue_frame_index = 0, ue_step_index = 0, ue_width = 0, ue_height = 0,
        ue_flushed = False\<rparr>,
      us_decoder = \<lparr>ud_outputs = [], ud_flushed = False\<rparr>\<rparr>"

text \<open>\<open>native\<close> is the execution session the provider's session is or is wrapped in, if there is one.\<close>

definition uf_create_sessions :: "runtime_configuration \<Rightarrow> 'p option result \<Rightarrow> 'p uf_sessions result" where
  "uf_create_sessions configuration native =
     res_bind native (\<lambda>native.
     case native of
       None \<Rightarrow> Inl (uf_error missing_provider ''DCVC-UF runs on the dcvcuf-upstream-cuda or tensorrt provider'')
     | Some p \<Rightarrow>
         if cc_gop_size (codec configuration) \<noteq> 1 \<and> cc_gop_size (codec configuration) mod 8 \<noteq> 0 then
           Inl (uf_error invalid_argument ''DCVC-UF HT-S requires --gop-size 1 or a multiple of 8'')
         else Inr (fresh_uf configuration p))"

definition uf_runtime_configuration :: "(string \<Rightarrow> bool) \<Rightarrow> (string \<Rightarrow> bool) \<Rightarrow> string option \<Rightarrow> string \<Rightarrow> runtime_configuration result" where
  "uf_runtime_configuration is_regular_file is_directory environment_bundle given =
     (let bundle_path = (if given = [] then (case environment_bundle of None \<Rightarrow> given | Some v \<Rightarrow> v) else given);
          tensorrt = is_regular_file (path_append bundle_path ''engine_manifest.json'');
          bundle_path = (if is_directory bundle_path \<and> \<not> tensorrt then path_append bundle_path ''dcvcuf-cvpr2026-hts.pt''
            else bundle_path) in
      if \<not> tensorrt \<and> \<not> is_regular_file bundle_path then
        Inl (uf_error missing_artifact ''DCVC-UF requires a weight bundle path or NVCR_DCVCUF_BUNDLE'')
      else
        let c = default_configuration in
        Inr (c\<lparr>artifacts := (artifacts c)\<lparr>as_intra_engine_path := bundle_path, as_model_id := ''dcvcuf-cvpr2026-hts''\<rparr>,
          codec := (codec c)\<lparr>cc_id := ''dcvc-uf''\<rparr>,
          provider := (provider c)\<lparr>pc_id := if tensorrt then ''tensorrt'' else ''dcvcuf-upstream-cuda''\<rparr>,
          stream := (stream c)\<lparr>sp_bitstream_model_id := ''dcvcuf-cvpr2026-hts''\<rparr>\<rparr>))"

subsection \<open>Encoding\<close>

definition validate_frame :: "frame \<Rightarrow> uf_encoder \<Rightarrow> unit result \<times> uf_encoder" where
  "validate_frame frame e =
     (if fr_format frame \<noteq> yuv420p8 \<or> fr_width frame = 0 \<or> fr_height frame = 0
         \<or> fr_width frame AND 1 \<noteq> 0 \<or> fr_height frame AND 1 \<noteq> 0 then
        (Inl (uf_error invalid_argument ''DCVC-UF requires nonempty even-dimension YUV420P8 frames''), e)
      else if ue_frame_index e \<noteq> 0 \<and> (fr_width frame \<noteq> ue_width e \<or> fr_height frame \<noteq> ue_height e) then
        (Inl (uf_error invalid_argument ''DCVC-UF does not support resolution changes within a sequence''), e)
      else (Inr (), if ue_frame_index e = 0 then e\<lparr>ue_width := fr_width frame, ue_height := fr_height frame\<rparr> else e))"

definition starts_intra :: "runtime_configuration \<Rightarrow> uf_encoder \<Rightarrow> bool" where
  "starts_intra configuration e \<longleftrightarrow>
     (let period = ucast (cc_gop_size (codec configuration)) :: u64 in
      ue_pending e = [] \<and>
      (ue_step_index e = 0 \<or> period = 1 \<or> (period > 1 \<and> ue_step_index e \<noteq> 1 \<and> ue_step_index e mod period = 1)))"

definition emit_intra :: "'p execution \<Rightarrow> (nat \<Rightarrow> bool) \<Rightarrow> i64 \<Rightarrow> frame \<Rightarrow> 'p uf_sessions \<Rightarrow> unit result \<times> 'p uf_sessions" where
  "emit_intra ex alloc elapsed frame s =
     and_then (on_provider (ex_encode_intra ex frame (cc_intra_qp (codec (us_configuration s))))) (\<lambda>enc s.
     and_then (just (wrap_access_unit alloc (us_configuration s) intra (fr_width frame) (fr_height frame) (fr_timestamp frame)
       (make_payload intra enc [fr_timestamp frame] False))) (\<lambda>packet s.
     let e = us_encoder s in
     (Inr (), s\<lparr>us_statistics := record_encode (length (pk_bytes packet)) elapsed (us_statistics s),
        us_encoder := e\<lparr>ue_outputs := ue_outputs e @ [packet], ue_step_index := ue_step_index e + 1\<rparr>\<rparr>)) s) s"

definition emit_predicted :: "'p execution \<Rightarrow> (nat \<Rightarrow> bool) \<Rightarrow> i64 \<Rightarrow> nat \<Rightarrow> 'p uf_sessions \<Rightarrow> unit result \<times> 'p uf_sessions" where
  "emit_predicted ex alloc elapsed valid_count s =
     (let e = us_encoder s;
          reset_feature_memory = ((ue_step_index e + word_of_nat group_frames) mod reset_interval = 1) in
      and_then (on_provider (ex_encode_predicted ex (ue_pending e) (cc_intra_qp (codec (us_configuration s))) reset_feature_memory)) (\<lambda>enc s.
      let timestamps = map fr_timestamp (take valid_count (ue_pending e)) in
      and_then (just (wrap_access_unit alloc (us_configuration s) predicted (ue_width e) (ue_height e) (hd timestamps)
        (make_payload predicted enc timestamps reset_feature_memory))) (\<lambda>packet s.
      (Inr (), s\<lparr>us_statistics := record_encode (length (pk_bytes packet)) elapsed (us_statistics s),
         us_encoder := e\<lparr>ue_outputs := ue_outputs e @ [packet], ue_pending := [],
           ue_step_index := ue_step_index e + word_of_nat valid_count\<rparr>\<rparr>)) s) s)"

definition put_uf_encoder :: "uf_encoder \<Rightarrow> 'p uf_sessions \<Rightarrow> 'p uf_sessions" where
  "put_uf_encoder e s = s\<lparr>us_encoder := e\<rparr>"

definition next_frame :: "'p uf_sessions \<Rightarrow> 'p uf_sessions" where
  "next_frame s = put_uf_encoder ((us_encoder s)\<lparr>ue_frame_index := ue_frame_index (us_encoder s) + 1\<rparr>) s"

definition uf_send_frame :: "'p execution \<Rightarrow> (nat \<Rightarrow> bool) \<Rightarrow> i64 \<Rightarrow> frame \<Rightarrow> 'p uf_sessions \<Rightarrow> unit result \<times> 'p uf_sessions" where
  "uf_send_frame ex alloc elapsed frame s =
     (if ue_flushed (us_encoder s) then (Inl (uf_error invalid_state ''encoder is flushed''), s)
      else
        let (valid, e) = validate_frame frame (us_encoder s); s = put_uf_encoder e s in
        and_then (just valid) (\<lambda>_ s.
        and_then
          (if starts_intra (us_configuration s) e then emit_intra ex alloc elapsed frame
           else
             (\<lambda>s. let e = us_encoder s; e = e\<lparr>ue_pending := ue_pending e @ [frame]\<rparr>; s = put_uf_encoder e s in
               if length (ue_pending e) = group_frames then emit_predicted ex alloc elapsed group_frames s else (Inr (), s)))
          (\<lambda>_ s. (Inr (), next_frame s)) s) s)"

definition uf_receive_access_unit :: "'p uf_sessions \<Rightarrow> packet result \<times> 'p uf_sessions" where
  "uf_receive_access_unit s =
     (case ue_outputs (us_encoder s) of
        output # rest \<Rightarrow> (Inr output, put_uf_encoder ((us_encoder s)\<lparr>ue_outputs := rest\<rparr>) s)
      | [] \<Rightarrow>
        if ue_flushed (us_encoder s) then (Inl (uf_error end_of_stream ''encoder is drained''), s)
        else (Inl (uf_error try_again ''encoder needs more input''), s))"

definition uf_flush_encoder :: "'p execution \<Rightarrow> (nat \<Rightarrow> bool) \<Rightarrow> i64 \<Rightarrow> 'p uf_sessions \<Rightarrow> unit result \<times> 'p uf_sessions" where
  "uf_flush_encoder ex alloc elapsed s =
     (let e = us_encoder s in
      if ue_flushed e then (Inr (), s)
      else
        and_then
          (if ue_pending e \<noteq> [] then
             let valid_count = length (ue_pending e);
                 padded = ue_pending e @ replicate (group_frames - valid_count) (last (ue_pending e)) in
             (\<lambda>s. emit_predicted ex alloc elapsed valid_count (put_uf_encoder (e\<lparr>ue_pending := padded\<rparr>) s))
           else just (Inr ()))
          (\<lambda>_ s. (Inr (), put_uf_encoder ((us_encoder s)\<lparr>ue_flushed := True\<rparr>) s)) s)"

definition uf_reset_encoder :: "'p execution \<Rightarrow> 'p uf_sessions \<Rightarrow> unit result \<times> 'p uf_sessions" where
  "uf_reset_encoder ex s =
     on_provider (ex_reset_encoder_state ex)
       (put_uf_encoder ((us_encoder s)\<lparr>ue_pending := [], ue_outputs := [], ue_frame_index := 0, ue_step_index := 0,
          ue_flushed := False\<rparr>) s)"

subsection \<open>Decoding\<close>

definition put_uf_decoder :: "uf_decoder \<Rightarrow> 'p uf_sessions \<Rightarrow> 'p uf_sessions" where
  "put_uf_decoder d s = s\<lparr>us_decoder := d\<rparr>"

definition push_frames :: "frame list \<Rightarrow> 'p uf_sessions \<Rightarrow> 'p uf_sessions" where
  "push_frames frames s = put_uf_decoder ((us_decoder s)\<lparr>ud_outputs := ud_outputs (us_decoder s) @ frames\<rparr>) s"

text \<open>\<open>elapsed i\<close> is the clock read for the \<open>i\<close>-th frame of the access unit; the quotient by an unsigned size is unsigned.\<close>

definition uf_send_access_unit :: "'p execution \<Rightarrow> (nat \<Rightarrow> bool) \<Rightarrow> (nat \<Rightarrow> i64) \<Rightarrow> packet \<Rightarrow> 'p uf_sessions
    \<Rightarrow> unit result \<times> 'p uf_sessions" where
  "uf_send_access_unit ex alloc elapsed packet s =
     (let limit = unat (ro_max_packet_bytes (runtime (us_configuration s))) in
      if ud_flushed (us_decoder s) then (Inl (uf_error invalid_state ''decoder is flushed''), s)
      else if length (pk_bytes packet) > limit then
        (Inl (uf_error resource_exhausted ''DCVC-UF packet exceeds configured limit''), s)
      else
        and_then (just (au_deserialize alloc (pk_bytes packet) limit)) (\<lambda>au s.
        if au_model_id au \<noteq> sp_bitstream_model_id (stream (us_configuration s)) \<or> au_frame_type au \<noteq> pk_frame_type packet then
          (Inl (uf_error malformed_bitstream ''DCVC-UF access-unit identity or frame type mismatch''), s)
        else if au_qp au > max_qp then (Inl (uf_error malformed_bitstream ''DCVC-UF QP exceeds 63''), s)
        else
          and_then (just (parse_payload (au_frame_type au) (au_payload au))) (\<lambda>payload.
          and_then
            (if au_frame_type au = intra then
               and_then (on_provider (ex_reset_decoder_state ex)) (\<lambda>_.
               and_then (on_provider (ex_decode_intra ex (cp_bitstream payload) (cp_entropy_parallel payload) (au_qp au)
                 (au_width au) (au_height au) (hd (cp_timestamps payload)))) (\<lambda>decoded s.
               (Inr (), push_frames [decoded] s)))
             else
               and_then (on_provider (ex_decode_predicted ex (cp_bitstream payload) (cp_entropy_parallel payload) (au_qp au)
                 (au_width au) (au_height au) (cp_timestamps payload) (cp_reset_feature_memory payload))) (\<lambda>decoded s.
               (Inr (), push_frames decoded s)))
            (\<lambda>_ s. (Inr (), s\<lparr>us_statistics :=
               fold (\<lambda>i. record_decode (elapsed i div word_of_nat (length (cp_timestamps payload))))
                 [0..<length (cp_timestamps payload)] (us_statistics s)\<rparr>))) s) s)"

definition uf_receive_frame :: "'p uf_sessions \<Rightarrow> frame result \<times> 'p uf_sessions" where
  "uf_receive_frame s =
     (case ud_outputs (us_decoder s) of
        output # rest \<Rightarrow> (Inr output, put_uf_decoder ((us_decoder s)\<lparr>ud_outputs := rest\<rparr>) s)
      | [] \<Rightarrow>
        if ud_flushed (us_decoder s) then (Inl (uf_error end_of_stream ''decoder is drained''), s)
        else (Inl (uf_error try_again ''decoder needs more input''), s))"

definition uf_flush_decoder :: "'p uf_sessions \<Rightarrow> unit result \<times> 'p uf_sessions" where
  "uf_flush_decoder s = (Inr (), put_uf_decoder ((us_decoder s)\<lparr>ud_flushed := True\<rparr>) s)"

definition uf_reset_decoder :: "'p execution \<Rightarrow> 'p uf_sessions \<Rightarrow> unit result \<times> 'p uf_sessions" where
  "uf_reset_decoder ex s =
     on_provider (ex_reset_decoder_state ex)
       (put_uf_decoder ((us_decoder s)\<lparr>ud_outputs := [], ud_flushed := False\<rparr>) s)"

subsection \<open>The session contract\<close>

lemmas uf_put_defs = put_uf_encoder_def put_uf_decoder_def push_frames_def next_frame_def

lemma on_provider_simps [simp]:
  "us_encoder (snd (on_provider m s)) = us_encoder s" "us_decoder (snd (on_provider m s)) = us_decoder s"
  "us_configuration (snd (on_provider m s)) = us_configuration s"
  by (simp_all add: on_provider_def case_prod_beta)

lemma on_provider_eq:
  "on_provider m s = (r, s') \<longleftrightarrow> (\<exists>p. m (us_provider s) = (r, p) \<and> s' = s\<lparr>us_provider := p\<rparr>)"
  by (auto simp: on_provider_def split: prod.split)

text \<open>A group that is coded: what the call changes, and what it leaves when it fails.\<close>

lemma emit_predicted_Inr:
  assumes "emit_predicted ex alloc t n s = (Inr (), s')"
  obtains enc p packet where
    "ex_encode_predicted ex (ue_pending (us_encoder s)) (cc_intra_qp (codec (us_configuration s)))
       ((ue_step_index (us_encoder s) + 8) mod 32 = 1) (us_provider s) = (Inr enc, p)"
    "wrap_access_unit alloc (us_configuration s) predicted (ue_width (us_encoder s)) (ue_height (us_encoder s))
       (hd (map fr_timestamp (take n (ue_pending (us_encoder s)))))
       (make_payload predicted enc (map fr_timestamp (take n (ue_pending (us_encoder s))))
         ((ue_step_index (us_encoder s) + 8) mod 32 = 1)) = Inr packet"
    "s' = s\<lparr>us_provider := p, us_statistics := record_encode (length (pk_bytes packet)) t (us_statistics s),
       us_encoder := us_encoder s\<lparr>ue_outputs := ue_outputs (us_encoder s) @ [packet], ue_pending := [],
         ue_step_index := ue_step_index (us_encoder s) + word_of_nat n\<rparr>\<rparr>"
  using assms
  by (clarsimp simp: emit_predicted_def Let_def and_then_Inr on_provider_eq group_frames_def reset_interval_def)
    (rule that, assumption, erule sym, simp)

lemma emit_predicted_Inl:
  "emit_predicted ex alloc t n s = (Inl e, s') \<Longrightarrow> us_encoder s' = us_encoder s \<and> us_decoder s' = us_decoder s
     \<and> us_configuration s' = us_configuration s"
  by (auto simp: emit_predicted_def Let_def on_provider_eq elim!: and_then_cases)

lemma emit_intra_Inr:
  assumes "emit_intra ex alloc t f s = (Inr (), s')"
  obtains enc p packet where
    "ex_encode_intra ex f (cc_intra_qp (codec (us_configuration s))) (us_provider s) = (Inr enc, p)"
    "wrap_access_unit alloc (us_configuration s) intra (fr_width f) (fr_height f) (fr_timestamp f)
       (make_payload intra enc [fr_timestamp f] False) = Inr packet"
    "s' = s\<lparr>us_provider := p, us_statistics := record_encode (length (pk_bytes packet)) t (us_statistics s),
       us_encoder := us_encoder s\<lparr>ue_outputs := ue_outputs (us_encoder s) @ [packet],
         ue_step_index := ue_step_index (us_encoder s) + 1\<rparr>\<rparr>"
  using assms by (clarsimp simp: emit_intra_def Let_def and_then_Inr on_provider_eq) (rule that, assumption, erule sym, simp)

lemma emit_intra_Inl:
  "emit_intra ex alloc t f s = (Inl e, s') \<Longrightarrow> us_encoder s' = us_encoder s \<and> us_decoder s' = us_decoder s
     \<and> us_configuration s' = us_configuration s"
  by (auto simp: emit_intra_def Let_def on_provider_eq elim!: and_then_cases)

lemma validate_frame_keeps:
  "validate_frame f e = (r, e') \<Longrightarrow> ue_outputs e' = ue_outputs e \<and> ue_flushed e' = ue_flushed e \<and> ue_pending e' = ue_pending e
     \<and> ue_step_index e' = ue_step_index e \<and> ue_frame_index e' = ue_frame_index e"
  by (auto simp: validate_frame_def split: if_splits)

text \<open>The outcomes of \<open>send_frame\<close>.\<close>

lemma uf_send_frame_cases:
  assumes "uf_send_frame ex alloc t f s = (r, s')"
  obtains (flushed) "ue_flushed (us_encoder s)" "r = Inl (uf_error invalid_state ''encoder is flushed'')" "s' = s"
  | (refused) x e where "\<not> ue_flushed (us_encoder s)" "validate_frame f (us_encoder s) = (Inl x, e)" "r = Inl x" "s' = put_uf_encoder e s"
  | (intra) e r1 s1 where "\<not> ue_flushed (us_encoder s)" "validate_frame f (us_encoder s) = (Inr (), e)" "starts_intra (us_configuration s) e"
      "emit_intra ex alloc t f (put_uf_encoder e s) = (r1, s1)" "r = r1" "s' = (case r1 of Inl _ \<Rightarrow> s1 | Inr _ \<Rightarrow> next_frame s1)"
  | (waiting) e where "\<not> ue_flushed (us_encoder s)" "validate_frame f (us_encoder s) = (Inr (), e)" "\<not> starts_intra (us_configuration s) e"
      "length (ue_pending e) + 1 \<noteq> 8" "r = Inr ()" "s' = next_frame (put_uf_encoder (e\<lparr>ue_pending := ue_pending e @ [f]\<rparr>) s)"
  | (group) e r1 s1 where "\<not> ue_flushed (us_encoder s)" "validate_frame f (us_encoder s) = (Inr (), e)" "\<not> starts_intra (us_configuration s) e"
      "length (ue_pending e) + 1 = 8" "emit_predicted ex alloc t 8 (put_uf_encoder (e\<lparr>ue_pending := ue_pending e @ [f]\<rparr>) s) = (r1, s1)"
      "r = r1" "s' = (case r1 of Inl _ \<Rightarrow> s1 | Inr _ \<Rightarrow> next_frame s1)"
proof (cases "ue_flushed (us_encoder s)")
  case True
  then show ?thesis using assms by (intro flushed) (simp_all add: uf_send_frame_def)
next
  case False
  obtain v e where v: "validate_frame f (us_encoder s) = (v, e)" by force
  note unfolded = assms [unfolded uf_send_frame_def Let_def v prod.case]
  show ?thesis
  proof (cases v)
    case (Inl x)
    then show ?thesis using unfolded False v by (intro refused [of x e]) (simp_all add: and_then_def just_def)
  next
    case (Inr u)
    then have v: "validate_frame f (us_encoder s) = (Inr (), e)" using v by simp
    have e: "us_encoder (put_uf_encoder e s) = e" "us_configuration (put_uf_encoder e s) = us_configuration s"
      "put_uf_encoder e' (put_uf_encoder e s) = put_uf_encoder e' s" for e'
      by (simp_all add: put_uf_encoder_def)
    consider "starts_intra (us_configuration s) e" | "\<not> starts_intra (us_configuration s) e" "length (ue_pending e) + 1 \<noteq> 8"
      | "\<not> starts_intra (us_configuration s) e" "length (ue_pending e) + 1 = 8" by blast
    then show ?thesis
    proof cases
      case 1
      obtain r1 s1 where em: "emit_intra ex alloc t f (put_uf_encoder e s) = (r1, s1)" by force
      have "(r, s') = (r1, case r1 of Inl _ \<Rightarrow> s1 | Inr _ \<Rightarrow> next_frame s1)"
        unfolding assms [symmetric] by (cases r1) (simp_all add: uf_send_frame_def v False 1 e em and_then_def just_def)
      then show ?thesis by (intro intra [OF False v 1 em]) simp_all
    next
      case 2
      have "(r, s') = (Inr (), next_frame (put_uf_encoder (e\<lparr>ue_pending := ue_pending e @ [f]\<rparr>) s))"
        unfolding assms [symmetric] using 2
        by (simp add: uf_send_frame_def v False e and_then_def just_def group_frames_def Let_def)
      then show ?thesis by (intro waiting [OF False v 2]) simp_all
    next
      case 3
      obtain r1 s1 where em: "emit_predicted ex alloc t 8 (put_uf_encoder (e\<lparr>ue_pending := ue_pending e @ [f]\<rparr>) s) = (r1, s1)" by force
      have "(r, s') = (r1, case r1 of Inl _ \<Rightarrow> s1 | Inr _ \<Rightarrow> next_frame s1)"
        unfolding assms [symmetric] using 3
        by (cases r1) (simp_all add: uf_send_frame_def v False e em and_then_def just_def group_frames_def Let_def)
      then show ?thesis by (intro group [OF False v 3 em]) simp_all
    qed
  qed
qed

lemmas uf_ops = uf_receive_access_unit_def uf_flush_encoder_def uf_reset_encoder_def uf_receive_frame_def uf_flush_decoder_def
  uf_reset_decoder_def

lemma uf_send_error:
  assumes "uf_send_frame ex alloc t f s = (Inl x, s')"
  shows "ue_outputs (us_encoder s') = ue_outputs (us_encoder s) \<and> ue_flushed (us_encoder s') = ue_flushed (us_encoder s)"
  using assms
  by (cases rule: uf_send_frame_cases)
    (auto dest!: validate_frame_keeps emit_intra_Inl emit_predicted_Inl simp: put_uf_encoder_def)

lemma uf_send_success:
  assumes "uf_send_frame ex alloc t f s = (Inr (), s')"
  shows "\<not> ue_flushed (us_encoder s) \<and> ue_flushed (us_encoder s') = ue_flushed (us_encoder s)
    \<and> (\<exists>new. ue_outputs (us_encoder s') = ue_outputs (us_encoder s) @ new)"
  using assms
  by (cases rule: uf_send_frame_cases)
    (auto dest!: validate_frame_keeps elim!: emit_intra_Inr emit_predicted_Inr simp: put_uf_encoder_def next_frame_def)

interpretation uf_enc: output_session "uf_send_frame ex alloc t" uf_receive_access_unit "uf_flush_encoder ex alloc t"
  "uf_reset_encoder ex" "\<lambda>s. ue_outputs (us_encoder s)" "\<lambda>s. ue_flushed (us_encoder s)"
  for ex alloc t
proof unfold_locales
  show "ue_outputs (us_encoder s') = ue_outputs (us_encoder s) \<and> ue_flushed (us_encoder s') = ue_flushed (us_encoder s)"
    if "uf_send_frame ex alloc t f s = (Inl x, s')" for f s x s' using uf_send_error [OF that] .
  show "\<not> ue_flushed (us_encoder s) \<and> ue_flushed (us_encoder s') = ue_flushed (us_encoder s)
    \<and> (\<exists>new. ue_outputs (us_encoder s') = ue_outputs (us_encoder s) @ new)"
    if "uf_send_frame ex alloc t f s = (Inr (), s')" for f s s' using uf_send_success [OF that] .
  show "ue_outputs (us_encoder s') = ue_outputs (us_encoder s) \<and> ue_flushed (us_encoder s') = ue_flushed (us_encoder s)"
    if "uf_flush_encoder ex alloc t s = (Inl x, s')" for s x s'
    using that by (auto simp: uf_flush_encoder_def Let_def put_uf_encoder_def split: if_splits elim!: and_then_cases
      dest!: emit_predicted_Inl)
  show "ue_flushed (us_encoder s') \<and> (\<exists>new. ue_outputs (us_encoder s') = ue_outputs (us_encoder s) @ new)"
    if "uf_flush_encoder ex alloc t s = (Inr (), s')" for s s'
    using that by (auto simp: uf_flush_encoder_def Let_def put_uf_encoder_def split: if_splits elim!: and_then_cases emit_predicted_Inr)
qed (auto simp: uf_receive_access_unit_def uf_reset_encoder_def uf_send_frame_def put_uf_encoder_def uf_error_def on_provider_eq
    split: list.splits)

lemma uf_decoder_rest:
  "uf_send_access_unit ex alloc t packet s = (Inl x, s') \<Longrightarrow> us_decoder s' = us_decoder s"
  "uf_send_access_unit ex alloc t packet s = (Inr (), s') \<Longrightarrow>
     \<not> ud_flushed (us_decoder s) \<and> ud_flushed (us_decoder s') = ud_flushed (us_decoder s)
     \<and> (\<exists>new. ud_outputs (us_decoder s') = ud_outputs (us_decoder s) @ new)"
  by (auto simp: uf_send_access_unit_def Let_def on_provider_eq push_frames_def put_uf_decoder_def
    split: if_splits elim!: and_then_cases)

lemma uf_send_flushed:
  "ud_flushed (us_decoder s) \<Longrightarrow> uf_send_access_unit ex alloc t packet s = (Inl (uf_error invalid_state ''decoder is flushed''), s)"
  by (simp add: uf_send_access_unit_def)

interpretation uf_dec: output_session "uf_send_access_unit ex alloc elapsed" uf_receive_frame uf_flush_decoder
  "uf_reset_decoder ex" "\<lambda>s. ud_outputs (us_decoder s)" "\<lambda>s. ud_flushed (us_decoder s)"
  for ex alloc elapsed
  by unfold_locales
    (auto simp: uf_receive_frame_def uf_flush_decoder_def uf_reset_decoder_def put_uf_decoder_def uf_error_def on_provider_eq
      uf_send_flushed split: list.splits dest!: uf_decoder_rest)

end
