(* ===== verification/UfLockstep.thy ===== *)
theory UfLockstep
  imports UfSession
begin

text \<open>
  A DCVC-UF decoder presents every frame a DCVC-UF encoder took, in order and once: frames wait in a group, the last
  group is padded, and still the decoder's frames are those that were sent. The execution sessions have to mirror each
  other, call by call. Also the schedule of intra frames, and what a failing \<open>flush\<close> leaves behind.
\<close>

subsection \<open>What is assumed of the execution sessions\<close>

definition encoded_ok :: "encoded \<Rightarrow> bool" where
  "encoded_ok e \<longleftrightarrow> ed_entropy_parallel e \<noteq> 0 \<and> ed_bitstream e \<noteq> [] \<and> length (ed_bitstream e) \<le> 2 ^ 31 - 1"

text \<open>
  \<open>agree p q\<close>: the decoder state \<open>q\<close> holds the reference features the encoder state \<open>p\<close> holds. An intra
  frame is decoded from a reset state into a frame of its size and time stamp; a group of eight
  frames is decoded, from states that agree, into as many of its first frames as there are time stamps. Both leave
  states that agree.
\<close>

definition decodes_intra :: "'p execution \<Rightarrow> ('p \<Rightarrow> 'p \<Rightarrow> bool) \<Rightarrow> frame \<Rightarrow> u32 \<Rightarrow> encoded \<Rightarrow> 'p \<Rightarrow> bool" where
  "decodes_intra ex agree f qp enc p' \<longleftrightarrow> encoded_ok enc \<and>
     (\<forall>q. \<exists>q1 g q2. ex_reset_decoder_state ex q = (Inr (), q1)
       \<and> ex_decode_intra ex (ed_bitstream enc) (ed_entropy_parallel enc) qp (fr_width f) (fr_height f) (fr_timestamp f) q1 = (Inr g, q2)
       \<and> picture_of g = picture_of f \<and> agree p' q2)"

definition decodes_group :: "'p execution \<Rightarrow> ('p \<Rightarrow> 'p \<Rightarrow> bool) \<Rightarrow> frame list \<Rightarrow> u32 \<Rightarrow> bool \<Rightarrow> encoded \<Rightarrow> 'p \<Rightarrow> 'p \<Rightarrow> bool" where
  "decodes_group ex agree fs qp reset enc p' q \<longleftrightarrow> encoded_ok enc \<and>
     (\<forall>n. 1 \<le> n \<and> n \<le> 8 \<longrightarrow> (\<exists>gs q'.
        ex_decode_predicted ex (ed_bitstream enc) (ed_entropy_parallel enc) qp (fr_width (hd fs)) (fr_height (hd fs))
          (map fr_timestamp (take n fs)) reset q = (Inr gs, q')
        \<and> map picture_of gs = map picture_of (take n fs) \<and> agree p' q'))"

definition uf_mirrors :: "'p execution \<Rightarrow> ('p \<Rightarrow> 'p \<Rightarrow> bool) \<Rightarrow> bool" where
  "uf_mirrors ex agree \<longleftrightarrow>
     (\<forall>f qp p enc p'. fr_format f = yuv420p8 \<longrightarrow> ex_encode_intra ex f qp p = (Inr enc, p') \<longrightarrow> decodes_intra ex agree f qp enc p')
     \<and> (\<forall>fs qp reset p q enc p'. agree p q \<longrightarrow> length fs = 8 \<longrightarrow>
          (\<forall>f \<in> set fs. fr_format f = yuv420p8 \<and> fr_width f = fr_width (hd fs) \<and> fr_height f = fr_height (hd fs)) \<longrightarrow>
          ex_encode_predicted ex fs qp reset p = (Inr enc, p') \<longrightarrow> decodes_group ex agree fs qp reset enc p' q)"

subsection \<open>One access unit\<close>

definition decodable :: "runtime_configuration \<Rightarrow> runtime_configuration \<Rightarrow> bool" where
  "decodable conf conf' \<longleftrightarrow>
     cc_intra_qp (codec conf) \<le> max_qp \<and> sp_bitstream_model_id (stream conf) = sp_bitstream_model_id (stream conf')
     \<and> ro_max_packet_bytes (runtime conf) \<le> ro_max_packet_bytes (runtime conf')"

lemma wrapped_unit:
  assumes "wrap_access_unit alloc conf type w h ts payload = Inr packet" "decodable conf conf'" "\<And>n. alloc' n"
    "us_configuration r = conf'" "\<not> ud_flushed (us_decoder r)" "parse_payload type payload = Inr cp"
  shows "uf_send_access_unit ex alloc' elapsed packet r =
    and_then
      (if type = intra then
         and_then (on_provider (ex_reset_decoder_state ex)) (\<lambda>_.
         and_then (on_provider (ex_decode_intra ex (cp_bitstream cp) (cp_entropy_parallel cp) (cc_intra_qp (codec conf)) w h
           (hd (cp_timestamps cp)))) (\<lambda>decoded s. (Inr (), push_frames [decoded] s)))
       else
         and_then (on_provider (ex_decode_predicted ex (cp_bitstream cp) (cp_entropy_parallel cp) (cc_intra_qp (codec conf)) w h
           (cp_timestamps cp) (cp_reset_feature_memory cp))) (\<lambda>decoded s. (Inr (), push_frames decoded s)))
      (\<lambda>_ s. (Inr (), s\<lparr>us_statistics :=
         fold (\<lambda>i. record_decode (elapsed i div word_of_nat (length (cp_timestamps cp)))) [0..<length (cp_timestamps cp)]
           (us_statistics s)\<rparr>)) r"
proof -
  define au where "au = make_access_unit (sp_bitstream_model_id (stream conf)) w h (cc_intra_qp (codec conf)) type (type = intra) payload"
  from assms(1) obtain bytes where b: "au_serialize alloc au (unat (ro_max_packet_bytes (runtime conf))) = Inr bytes"
    "packet = make_packet bytes ts type []"
    by (auto simp: wrap_access_unit_def result_simps au_def)
  have lim: "unat (ro_max_packet_bytes (runtime conf)) \<le> unat (ro_max_packet_bytes (runtime conf'))"
    using assms(2) by (simp add: decodable_def word_le_nat_alt)
  have u: "au_deserialize alloc' bytes (unat (ro_max_packet_bytes (runtime conf'))) = Inr au"
    "\<not> length bytes > unat (ro_max_packet_bytes (runtime conf'))"
    using serialized_unit [where alloc' = alloc', OF b(1) [unfolded au_def] _ lim] assms(3) by (auto simp: au_def not_less)
  have f: "au_model_id au = sp_bitstream_model_id (stream conf')" "au_qp au = cc_intra_qp (codec conf)" "\<not> cc_intra_qp (codec conf) > max_qp"
    "au_width au = w" "au_height au = h" "au_frame_type au = type" "au_payload au = payload"
    using assms(2) by (simp_all add: make_access_unit_def decodable_def not_less au_def)
  show ?thesis
    using u f assms(4-6) by (cases type) (simp_all add: uf_send_access_unit_def b(2) make_packet_def)
qed

lemma parse_made:
  assumes "encoded_ok enc" "1 \<le> length ts" "length ts \<le> 8" "type = intra \<Longrightarrow> length ts = 1 \<and> \<not> reset"
  shows "parse_payload type (make_payload type enc ts reset) = Inr \<lparr>cp_entropy_parallel = ed_entropy_parallel enc,
    cp_reset_feature_memory = reset, cp_timestamps = ts, cp_bitstream = ed_bitstream enc\<rparr>"
  using parse_make_payload [of type "\<lparr>cp_entropy_parallel = ed_entropy_parallel enc, cp_reset_feature_memory = reset,
    cp_timestamps = ts, cp_bitstream = ed_bitstream enc\<rparr>"] assms
  by (cases enc; cases ts) (auto simp: payload_supported_def payload_bytes_def encoded_ok_def)

text \<open>The decoder's state after an access unit.\<close>

definition follows_uf :: "runtime_configuration \<Rightarrow> 'p \<Rightarrow> frame list \<Rightarrow> 'p uf_sessions \<Rightarrow> bool" where
  "follows_uf conf q frames r \<longleftrightarrow> us_configuration r = conf \<and> us_provider r = q \<and> \<not> ud_flushed (us_decoder r)
     \<and> ud_outputs (us_decoder r) = frames"

lemma decode_intra_unit:
  assumes "wrap_access_unit alloc conf intra (fr_width f) (fr_height f) (fr_timestamp f) (make_payload intra enc [fr_timestamp f] False) = Inr packet"
    "decodable conf conf'" "\<And>n. alloc' n" "follows_uf conf' q gs r" "decodes_intra ex agree f (cc_intra_qp (codec conf)) enc p'"
  shows "\<exists>g q' r'. uf_send_access_unit ex alloc' elapsed packet r = (Inr (), r') \<and> follows_uf conf' q' (gs @ [g]) r'
    \<and> picture_of g = picture_of f \<and> agree p' q'"
proof -
  from assms(5) obtain q1 g q2 where d: "encoded_ok enc" "ex_reset_decoder_state ex q = (Inr (), q1)"
    "ex_decode_intra ex (ed_bitstream enc) (ed_entropy_parallel enc) (cc_intra_qp (codec conf)) (fr_width f) (fr_height f) (fr_timestamp f) q1 = (Inr g, q2)"
    "picture_of g = picture_of f" "agree p' q2"
    unfolding decodes_intra_def by blast
  have "parse_payload intra (make_payload intra enc [fr_timestamp f] False) = Inr \<lparr>cp_entropy_parallel = ed_entropy_parallel enc,
    cp_reset_feature_memory = False, cp_timestamps = [fr_timestamp f], cp_bitstream = ed_bitstream enc\<rparr>"
    using parse_made [OF d(1), of "[fr_timestamp f]" intra False] by simp
  from wrapped_unit [OF assms(1,2) _ _ _ this, of alloc' r ex elapsed] assms(3,4) d show ?thesis
    by (auto simp: follows_uf_def and_then_def on_provider_def push_frames_def put_uf_decoder_def)
qed

lemma decode_group_unit:
  assumes "wrap_access_unit alloc conf predicted (fr_width (hd fs)) (fr_height (hd fs)) ts
      (make_payload predicted enc (map fr_timestamp (take n fs)) reset) = Inr packet"
    "decodable conf conf'" "\<And>n. alloc' n" "follows_uf conf' q gs r" "decodes_group ex agree fs (cc_intra_qp (codec conf)) reset enc p' q"
    "1 \<le> n" "n \<le> 8" "n \<le> length fs"
  shows "\<exists>new q' r'. uf_send_access_unit ex alloc' elapsed packet r = (Inr (), r') \<and> follows_uf conf' q' (gs @ new) r'
    \<and> map picture_of new = map picture_of (take n fs) \<and> agree p' q'"
proof -
  from assms(5-7) obtain new q' where d: "encoded_ok enc"
    "ex_decode_predicted ex (ed_bitstream enc) (ed_entropy_parallel enc) (cc_intra_qp (codec conf)) (fr_width (hd fs)) (fr_height (hd fs))
          (map fr_timestamp (take n fs)) reset q = (Inr new, q')"
    "map picture_of new = map picture_of (take n fs)" "agree p' q'"
    unfolding decodes_group_def by blast
  have "parse_payload predicted (make_payload predicted enc (map fr_timestamp (take n fs)) reset) = Inr \<lparr>cp_entropy_parallel = ed_entropy_parallel enc,
    cp_reset_feature_memory = reset, cp_timestamps = map fr_timestamp (take n fs), cp_bitstream = ed_bitstream enc\<rparr>"
    using parse_made [OF d(1), of "map fr_timestamp (take n fs)" predicted reset] assms(6-8) by simp
  from wrapped_unit [OF assms(1,2) _ _ _ this, of alloc' r ex elapsed] assms(3,4) d show ?thesis
    by (auto simp: follows_uf_def and_then_def on_provider_def push_frames_def put_uf_decoder_def)
qed

subsection \<open>A stream\<close>

text \<open>
  The invariant of encoding \<open>sent\<close>: a decoder that got the packets so far has presented the coded frames, the rest waits in
  the open group, and the execution states agree unless nothing was coded yet.
\<close>

definition sizes_ok :: "uf_encoder \<Rightarrow> bool" where
  "sizes_ok e \<longleftrightarrow> (\<forall>f \<in> set (ue_pending e). fr_format f = yuv420p8 \<and> fr_width f = ue_width e \<and> fr_height f = ue_height e)"

definition uf_following :: "'p execution \<Rightarrow> ('p \<Rightarrow> 'p \<Rightarrow> bool) \<Rightarrow> (nat \<Rightarrow> bool) \<Rightarrow> (nat \<Rightarrow> i64) \<Rightarrow> runtime_configuration \<Rightarrow> runtime_configuration
    \<Rightarrow> 'p \<Rightarrow> frame list \<Rightarrow> 'p uf_sessions \<Rightarrow> bool" where
  "uf_following ex agree alloc' elapsed conf conf' q sent s \<longleftrightarrow>
     us_configuration s = conf \<and> sizes_ok (us_encoder s) \<and> length (ue_pending (us_encoder s)) < 8
     \<and> ue_frame_index (us_encoder s) = word_of_nat (length sent) \<and> (sent = [] \<longrightarrow> ue_pending (us_encoder s) = [])
     \<and> (\<exists>r q' gs. send_all (uf_send_access_unit ex alloc' elapsed) (ue_outputs (us_encoder s)) (fresh_uf conf' q) = (Inr (), r)
          \<and> follows_uf conf' q' gs r \<and> map picture_of (gs @ ue_pending (us_encoder s)) = map picture_of sent
          \<and> (agree (us_provider s) q' \<or> ue_step_index (us_encoder s) = 0 \<and> ue_pending (us_encoder s) = []))"

lemma uf_followingI:
  assumes "send_all (uf_send_access_unit ex alloc' elapsed) (ue_outputs (us_encoder s)) (fresh_uf conf' q) = (Inr (), r)"
    "follows_uf conf' q' gs r" "agree (us_provider s) q'"
    "map picture_of (gs @ ue_pending (us_encoder s)) = map picture_of sent" "us_configuration s = conf" "sizes_ok (us_encoder s)"
    "length (ue_pending (us_encoder s)) < 8" "ue_frame_index (us_encoder s) = word_of_nat (length sent)" "sent \<noteq> []"
  shows "uf_following ex agree alloc' elapsed conf conf' q sent s"
  using assms unfolding uf_following_def by blast

lemma validate_frame_ok:
  assumes "validate_frame f e = (Inr (), e')"
  shows "fr_format f = yuv420p8" "fr_width f = ue_width e'" "fr_height f = ue_height e'"
    "ue_frame_index e \<noteq> 0 \<or> ue_pending e = [] \<Longrightarrow> sizes_ok e \<Longrightarrow> sizes_ok e'"
  using assms by (auto simp: validate_frame_def sizes_ok_def split: if_splits)

lemma group_decodes:
  assumes "uf_mirrors ex agree" "sizes_ok e" "length (ue_pending e) = 8" "agree p q"
    "ex_encode_predicted ex (ue_pending e) qp reset p = (Inr enc, p')"
  shows "decodes_group ex agree (ue_pending e) qp reset enc p' q" "fr_width (hd (ue_pending e)) = ue_width e"
    "fr_height (hd (ue_pending e)) = ue_height e"
proof -
  have "hd (ue_pending e) \<in> set (ue_pending e)" using assms(3) by (intro hd_in_set) auto
  then show hd: "fr_width (hd (ue_pending e)) = ue_width e" "fr_height (hd (ue_pending e)) = ue_height e"
    using assms(2) by (simp_all add: sizes_ok_def)
  show "decodes_group ex agree (ue_pending e) qp reset enc p' q"
    using assms hd unfolding uf_mirrors_def sizes_ok_def by simp
qed

lemma uf_following_step:
  assumes env: "uf_mirrors ex agree" "decodable conf conf'" "\<And>n. alloc' n"
    and before: "uf_following ex agree alloc' elapsed conf conf' q sent s" "length sent < 2 ^ 64"
    and send: "uf_send_frame ex alloc t f s = (Inr (), s')"
  shows "uf_following ex agree alloc' elapsed conf conf' q (sent @ [f]) s'"
proof -
  from before obtain r q' gs where
    c: "us_configuration s = conf" "sizes_ok (us_encoder s)" "length (ue_pending (us_encoder s)) < 8"
      "ue_frame_index (us_encoder s) = word_of_nat (length sent)" "sent = [] \<longrightarrow> ue_pending (us_encoder s) = []"
    and r: "send_all (uf_send_access_unit ex alloc' elapsed) (ue_outputs (us_encoder s)) (fresh_uf conf' q) = (Inr (), r)"
      "follows_uf conf' q' gs r" "map picture_of (gs @ ue_pending (us_encoder s)) = map picture_of sent"
      "agree (us_provider s) q' \<or> ue_step_index (us_encoder s) = 0 \<and> ue_pending (us_encoder s) = []"
    unfolding uf_following_def by blast
  have nz: "ue_frame_index (us_encoder s) \<noteq> 0 \<or> ue_pending (us_encoder s) = []"
    using c(4,5) before(2) by (auto simp: word_of_nat_eq_0_iff dest: nat_dvd_not_less)
  from send show ?thesis
  proof (cases rule: uf_send_frame_cases)
    case (intra e r1 s1)
    note v = validate_frame_ok [OF intra(2)] and k = validate_frame_keeps [OF intra(2)]
    have pe: "ue_pending e = []" using intra(3) by (simp add: starts_intra_def Let_def)
    from intra(4,5) obtain enc p packet where
      em: "ex_encode_intra ex f (cc_intra_qp (codec conf)) (us_provider s) = (Inr enc, p)"
        "wrap_access_unit alloc conf intra (fr_width f) (fr_height f) (fr_timestamp f) (make_payload intra enc [fr_timestamp f] False) = Inr packet"
        "s1 = (put_uf_encoder e s)\<lparr>us_provider := p, us_statistics := record_encode (length (pk_bytes packet)) t (us_statistics s),
           us_encoder := e\<lparr>ue_outputs := ue_outputs e @ [packet], ue_step_index := ue_step_index e + 1\<rparr>\<rparr>"
      using c(1) by (auto elim!: emit_intra_Inr simp: put_uf_encoder_def)
    have "decodes_intra ex agree f (cc_intra_qp (codec conf)) enc p" using env(1) v(1) em(1) unfolding uf_mirrors_def by blast
    from decode_intra_unit [OF em(2) env(2) _ r(2) this, of alloc' elapsed] env(3) obtain g q2 r2 where
      d: "uf_send_access_unit ex alloc' elapsed packet r = (Inr (), r2)" "follows_uf conf' q2 (gs @ [g]) r2"
        "picture_of g = picture_of f" "agree p q2" by blast
    have "send_all (uf_send_access_unit ex alloc' elapsed) (ue_outputs e @ [packet]) (fresh_uf conf' q) = (Inr (), r2)"
      using r(1) d(1) k by (simp add: send_all_append)
    then show ?thesis
      using c d r(3) k pe intra(5,6) em(3)
      by (intro uf_followingI [where r = r2 and q' = q2 and gs = "gs @ [g]"])
        (auto simp: next_frame_def put_uf_encoder_def sizes_ok_def)
  next
    case (waiting e)
    note v = validate_frame_ok [OF waiting(2)] and k = validate_frame_keeps [OF waiting(2)]
    have ag: "agree (us_provider s) q'" using r(4) waiting(3) k by (auto simp: starts_intra_def Let_def)
    have "sizes_ok (e\<lparr>ue_pending := ue_pending e @ [f]\<rparr>)" using v by (simp add: sizes_ok_def) (use v(4) [OF nz c(2)] in \<open>simp add: sizes_ok_def\<close>)
    then show ?thesis
      using c r ag k waiting(4,6)
      by (intro uf_followingI [where r = r and q' = q' and gs = gs])
        (auto simp: next_frame_def put_uf_encoder_def sizes_ok_def)
  next
    case (group e r1 s1)
    note v = validate_frame_ok [OF group(2)] and k = validate_frame_keeps [OF group(2)]
    have ag: "agree (us_provider s) q'" using r(4) group(3) k by (auto simp: starts_intra_def Let_def)
    define e' where "e' = e\<lparr>ue_pending := ue_pending e @ [f]\<rparr>"
    have e': "sizes_ok e'" "length (ue_pending e') = 8" "ue_outputs e' = ue_outputs (us_encoder s)" "ue_pending e' = ue_pending (us_encoder s) @ [f]"
      "ue_frame_index e' = ue_frame_index (us_encoder s)"
      using v v(4) [OF nz c(2)] group(4) k by (simp_all add: e'_def sizes_ok_def)
    from group(5,6) obtain enc p packet reset where
      em: "ex_encode_predicted ex (ue_pending e') (cc_intra_qp (codec conf)) reset (us_provider s) = (Inr enc, p)"
        "wrap_access_unit alloc conf predicted (ue_width e') (ue_height e') (hd (map fr_timestamp (take 8 (ue_pending e'))))
          (make_payload predicted enc (map fr_timestamp (take 8 (ue_pending e'))) reset) = Inr packet"
        "s1 = (put_uf_encoder e' s)\<lparr>us_provider := p, us_statistics := record_encode (length (pk_bytes packet)) t (us_statistics s),
           us_encoder := e'\<lparr>ue_outputs := ue_outputs e' @ [packet], ue_pending := [], ue_step_index := ue_step_index e' + 8\<rparr>\<rparr>"
      using c(1) unfolding e'_def [symmetric] by (auto elim!: emit_predicted_Inr simp: put_uf_encoder_def)
    note dg = group_decodes [OF env(1) e'(1,2) ag em(1)]
    from decode_group_unit [OF em(2) [folded dg(2,3)] env(2) _ r(2) dg(1), of alloc' elapsed] env(3) e'(2) obtain new q2 r2 where
      d: "uf_send_access_unit ex alloc' elapsed packet r = (Inr (), r2)" "follows_uf conf' q2 (gs @ new) r2"
        "map picture_of new = map picture_of (ue_pending e')" "agree p q2" by auto
    have "send_all (uf_send_access_unit ex alloc' elapsed) (ue_outputs e' @ [packet]) (fresh_uf conf' q) = (Inr (), r2)"
      using r(1) d(1) e'(3) by (simp add: send_all_append)
    then show ?thesis
      using c d r(3) e' group(6,7) em(3)
      by (intro uf_followingI [where r = r2 and q' = q2 and gs = "gs @ new"])
        (auto simp: next_frame_def put_uf_encoder_def sizes_ok_def)
  qed (use send in auto)
qed

lemma uf_following_flush:
  assumes env: "uf_mirrors ex agree" "decodable conf conf'" "\<And>n. alloc' n"
    and before: "uf_following ex agree alloc' elapsed conf conf' q sent s" "\<not> ue_flushed (us_encoder s)"
    and flush: "uf_flush_encoder ex alloc t s = (Inr (), s')"
  shows "\<exists>r. send_all (uf_send_access_unit ex alloc' elapsed) (ue_outputs (us_encoder s')) (fresh_uf conf' q) = (Inr (), r)
    \<and> map picture_of (ud_outputs (us_decoder r)) = map picture_of sent"
proof -
  let ?e = "us_encoder s"
  from before(1) obtain r q' gs where
    c: "us_configuration s = conf" "sizes_ok ?e" "length (ue_pending ?e) < 8"
    and r: "send_all (uf_send_access_unit ex alloc' elapsed) (ue_outputs ?e) (fresh_uf conf' q) = (Inr (), r)"
      "follows_uf conf' q' gs r" "map picture_of (gs @ ue_pending ?e) = map picture_of sent"
      "agree (us_provider s) q' \<or> ue_pending ?e = []"
    unfolding uf_following_def by blast
  show ?thesis
  proof (cases "ue_pending ?e = []")
    case True
    then have "ue_outputs (us_encoder s') = ue_outputs ?e"
      using flush before(2) by (auto simp: uf_flush_encoder_def Let_def and_then_def just_def put_uf_encoder_def)
    then show ?thesis using r True by (auto simp: follows_uf_def)
  next
    case False
    let ?n = "length (ue_pending ?e)"
    define e' where "e' = ?e\<lparr>ue_pending := ue_pending ?e @ replicate (8 - ?n) (last (ue_pending ?e))\<rparr>"
    have e': "sizes_ok e'" "length (ue_pending e') = 8" "take ?n (ue_pending e') = ue_pending ?e" "1 \<le> ?n" "?n \<le> 8"
      "ue_outputs e' = ue_outputs ?e"
      using c(2,3) False last_in_set [OF False] by (auto simp: e'_def sizes_ok_def Suc_le_eq)
    from flush before(2) False obtain s1 where
      s1: "emit_predicted ex alloc t ?n (put_uf_encoder e' s) = (Inr (), s1)" "us_encoder s' = us_encoder s1\<lparr>ue_flushed := True\<rparr>"
      by (auto simp: uf_flush_encoder_def Let_def and_then_Inr put_uf_encoder_def e'_def group_frames_def)
    from s1(1) obtain enc p packet reset where
      em: "ex_encode_predicted ex (ue_pending e') (cc_intra_qp (codec conf)) reset (us_provider s) = (Inr enc, p)"
        "wrap_access_unit alloc conf predicted (ue_width e') (ue_height e') (hd (map fr_timestamp (take ?n (ue_pending e'))))
          (make_payload predicted enc (map fr_timestamp (take ?n (ue_pending e'))) reset) = Inr packet"
        "ue_outputs (us_encoder s1) = ue_outputs e' @ [packet]"
      using c(1) by (auto elim!: emit_predicted_Inr simp: put_uf_encoder_def)
    have ag: "agree (us_provider s) q'" using r(4) False by simp
    note dg = group_decodes [OF env(1) e'(1,2) ag em(1)]
    from decode_group_unit [OF em(2) [folded dg(2,3)] env(2) _ r(2) dg(1) e'(4,5), of alloc' elapsed] env(3) e'(2,3) c(3) obtain new q2 r2 where
      d: "uf_send_access_unit ex alloc' elapsed packet r = (Inr (), r2)" "follows_uf conf' q2 (gs @ new) r2"
        "map picture_of new = map picture_of (ue_pending ?e)" by auto
    have "send_all (uf_send_access_unit ex alloc' elapsed) (ue_outputs (us_encoder s')) (fresh_uf conf' q) = (Inr (), r2)"
      using r(1) d(1) e'(6) em(3) s1(2) by (simp add: send_all_append)
    then show ?thesis using d(2,3) r(3) by (auto simp: follows_uf_def)
  qed
qed

lemma uf_sends_unflushed:
  "send_all (uf_send_frame ex alloc t) frames s = (Inr (), s') \<Longrightarrow> \<not> ue_flushed (us_encoder s) \<Longrightarrow> \<not> ue_flushed (us_encoder s')"
  by (induction frames arbitrary: s) (auto simp: and_then_Inr dest: uf_send_success)

text \<open>
  Property C4. A DCVC-UF decoder presents exactly the frames the encoder was sent. When every frame is
  accepted and the encoder is flushed, sending its packets to a decoder succeeds and gives as many frames as were sent,
  of the same sizes and with the same time stamps, in the same order: no frame of the open group is lost and no padding
  frame appears, whatever the number of frames.
\<close>

theorem uf_stream_decodable:
  assumes "uf_mirrors ex agree" "decodable conf conf'" "length frames < 2 ^ 64"
    "send_all (uf_send_frame ex alloc t) frames (fresh_uf conf p) = (Inr (), s)"
    "uf_flush_encoder ex alloc t' s = (Inr (), s')"
  shows "\<exists>r. send_all (uf_send_access_unit ex (\<lambda>_. True) elapsed) (ue_outputs (us_encoder s')) (fresh_uf conf' q) = (Inr (), r)
    \<and> map picture_of (ud_outputs (us_decoder r)) = map picture_of frames"
proof (rule uf_following_flush [OF assms(1,2) _ _ _ assms(5)])
  show "uf_following ex agree (\<lambda>_. True) elapsed conf conf' q frames s"
  proof (rule send_all_induct [OF assms(4)])
    show "uf_following ex agree (\<lambda>_. True) elapsed conf conf' q [] (fresh_uf conf p)"
      by (auto simp: uf_following_def fresh_uf_def sizes_ok_def follows_uf_def)
  qed (use uf_following_step [OF assms(1,2)] assms(3) in auto)
  show "\<not> ue_flushed (us_encoder s)" using uf_sends_unflushed [OF assms(4)] by (simp add: fresh_uf_def)
qed simp

subsection \<open>Execution sessions that mirror each other\<close>

definition blank_frame :: "u32 \<Rightarrow> u32 \<Rightarrow> timestamp \<Rightarrow> frame" where
  "blank_frame w h ts = \<lparr>fr_width = w, fr_height = h, fr_format = yuv420p8, fr_timestamp = ts, fr_data = []\<rparr>"

definition blank_execution :: "unit execution" where
  "blank_execution =
     \<lparr>ex_encode_intra = (\<lambda>f qp p. (Inr \<lparr>ed_bitstream = [1], ed_entropy_parallel = 1\<rparr>, p)),
      ex_decode_intra = (\<lambda>bs n qp w h ts p. (Inr (blank_frame w h ts), p)),
      ex_encode_predicted = (\<lambda>fs qp reset p. (Inr \<lparr>ed_bitstream = [2], ed_entropy_parallel = 2\<rparr>, p)),
      ex_decode_predicted = (\<lambda>bs n qp w h ts reset p. (Inr (map (blank_frame w h) ts), p)),
      ex_reset_encoder_state = (\<lambda>p. (Inr (), p)), ex_reset_decoder_state = (\<lambda>p. (Inr (), p))\<rparr>"

lemma blank_mirrors: "uf_mirrors blank_execution (\<lambda>_ _. True)"
  by (auto simp: uf_mirrors_def decodes_intra_def decodes_group_def encoded_ok_def blank_execution_def picture_of_def
    blank_frame_def dest: in_set_takeD)

lemma default_decodable: "decodable default_configuration default_configuration"
  by (simp add: decodable_def max_qp_def default_configuration_def default_codec_configuration_def)

lemma blank_unit:
  "payload \<noteq> [] \<Longrightarrow> length payload \<le> 1000 \<Longrightarrow> \<exists>packet. wrap_access_unit (\<lambda>_. True) default_configuration type 2 2 ts payload = Inr packet"
  by (cases type) (simp_all add: wrap_access_unit_def result_simps au_serialize_iff validate_v1_fields_def validate_common_fields_def make_access_unit_def
    v1_layout_def default_configuration_def default_codec_configuration_def default_stream_policy_def default_runtime_options_def
    valid_model_id_def valid_identifier_def identifier_char_def isalnum_def isdigit_def isupper_def islower_def char_code_def au_constants)

lemma blank_payload:
  "length stamps \<le> 8 \<Longrightarrow> \<exists>packet. wrap_access_unit (\<lambda>_. True) default_configuration type 2 2 ts
     (make_payload type \<lparr>ed_bitstream = [b], ed_entropy_parallel = n\<rparr> stamps r) = Inr packet"
  by (rule blank_unit) (simp_all add: make_payload_layout)

lemma blank_run:
  "\<exists>s s'. send_all (uf_send_frame blank_execution (\<lambda>_. True) 0) [blank_frame 2 2 1, blank_frame 2 2 2, blank_frame 2 2 3]
       (fresh_uf default_configuration ()) = (Inr (), s)
     \<and> uf_flush_encoder blank_execution (\<lambda>_. True) 0 s = (Inr (), s') \<and> length (ue_outputs (us_encoder s)) = 1
     \<and> (\<exists>x s1 s2. uf_flush_encoder blank_execution (\<lambda>_. False) 0 s = (Inl x, s1)
          \<and> uf_flush_encoder blank_execution (\<lambda>_. True) 0 s1 = (Inr (), s2))
     \<and> ue_pending (us_encoder s) = [blank_frame 2 2 2] @ [blank_frame 2 2 3] \<and> \<not> ue_flushed (us_encoder s)"
proof -
  obtain b1 where b1: "wrap_access_unit (\<lambda>_. True) default_configuration intra 2 2 1
      (make_payload intra \<lparr>ed_bitstream = [1], ed_entropy_parallel = 1\<rparr> [1] False) = Inr b1"
    using blank_payload by force
  obtain b2 where b2: "wrap_access_unit (\<lambda>_. True) default_configuration predicted 2 2 2
      (make_payload predicted \<lparr>ed_bitstream = [2], ed_entropy_parallel = 2\<rparr> [2, 3] False) = Inr b2"
    using blank_payload by force
  obtain b3 where b3: "wrap_access_unit (\<lambda>_. True) default_configuration predicted 2 2 2
      (make_payload predicted \<lparr>ed_bitstream = [2], ed_entropy_parallel = 2\<rparr> (2 # 3 # replicate 6 3) False) = Inr b3"
    using blank_payload by force
  have "\<nexists>k. wrap_access_unit (\<lambda>_. False) default_configuration predicted 2 2 2
      (make_payload predicted \<lparr>ed_bitstream = [2], ed_entropy_parallel = 2\<rparr> [2, 3] False) = Inr k"
    by (simp add: wrap_access_unit_def result_simps au_serialize_iff)
  then obtain x where x: "wrap_access_unit (\<lambda>_. False) default_configuration predicted 2 2 2
      (make_payload predicted \<lparr>ed_bitstream = [2], ed_entropy_parallel = 2\<rparr> [2, 3] False) = Inl x"
    by (metis sum.exhaust)
  have g: "cc_gop_size (codec default_configuration) = 32"
    by (simp add: default_configuration_def default_codec_configuration_def)
  show ?thesis
    using b1 b2 b3 x g
    by (simp add: uf_send_frame_def validate_frame_def starts_intra_def emit_intra_def emit_predicted_def uf_flush_encoder_def
      fresh_uf_def blank_execution_def blank_frame_def and_then_def just_def on_provider_def put_uf_encoder_def next_frame_def
      group_frames_def reset_interval_def Let_def)
qed

theorem uf_stream_decodable_witness:
  "\<exists>s s' r. send_all (uf_send_frame blank_execution (\<lambda>_. True) 0) [blank_frame 2 2 1, blank_frame 2 2 2, blank_frame 2 2 3]
       (fresh_uf default_configuration ()) = (Inr (), s)
     \<and> uf_flush_encoder blank_execution (\<lambda>_. True) 0 s = (Inr (), s')
     \<and> send_all (uf_send_access_unit blank_execution (\<lambda>_. True) (\<lambda>_. 0)) (ue_outputs (us_encoder s')) (fresh_uf default_configuration ()) = (Inr (), r)
     \<and> map fr_timestamp (ud_outputs (us_decoder r)) = [1, 2, 3]"
proof -
  from blank_run obtain s s' where
    run: "send_all (uf_send_frame blank_execution (\<lambda>_. True) 0) [blank_frame 2 2 1, blank_frame 2 2 2, blank_frame 2 2 3]
      (fresh_uf default_configuration ()) = (Inr (), s)" "uf_flush_encoder blank_execution (\<lambda>_. True) 0 s = (Inr (), s')" by blast
  have "length [blank_frame 2 2 1, blank_frame 2 2 2, blank_frame 2 2 3] < 2 ^ 64" by simp
  from uf_stream_decodable [OF blank_mirrors default_decodable this run] obtain r where
    r: "send_all (uf_send_access_unit blank_execution (\<lambda>_. True) (\<lambda>_. 0)) (ue_outputs (us_encoder s')) (fresh_uf default_configuration ()) = (Inr (), r)"
      "map picture_of (ud_outputs (us_decoder r)) = map picture_of [blank_frame 2 2 1, blank_frame 2 2 2, blank_frame 2 2 3]" by blast
  have "map fr_timestamp (ud_outputs (us_decoder r)) = map (snd \<circ> snd \<circ> snd) (map picture_of (ud_outputs (us_decoder r)))"
    by (simp add: picture_of_def)
  also note r(2)
  finally have "map fr_timestamp (ud_outputs (us_decoder r)) = [1, 2, 3]" by (simp add: picture_of_def blank_frame_def)
  then show ?thesis using run r(1) by (intro exI conjI)
qed

subsection \<open>The schedule of intra frames\<close>

text \<open>The number of frames in the first \<open>n\<close> access units.\<close>

definition frames_before :: "nat \<Rightarrow> nat \<Rightarrow> nat" where
  "frames_before period n = (if n = 0 then 0 else if 0 < period \<and> period div 8 + 1 < n then 8 * n - 14 else 8 * n - 7)"

definition intra_unit :: "nat \<Rightarrow> nat \<Rightarrow> bool" where
  "intra_unit period n \<longleftrightarrow> n = 0 \<or> 0 < period \<and> n = period div 8 + 1"

lemma frames_before_Suc:
  "8 dvd period \<Longrightarrow> frames_before period (Suc n) = frames_before period n + (if intra_unit period n then 1 else 8)"
  by (auto simp: frames_before_def intra_unit_def)

lemma frames_before_intra:
  assumes "8 dvd period" "0 < n"
  shows "frames_before period n \<noteq> 0"
    "0 < period \<Longrightarrow> frames_before period n \<noteq> 1 \<and> frames_before period n mod period = 1 \<longleftrightarrow> n = period div 8 + 1"
proof -
  obtain k where k: "period = 8 * k" using assms(1) by blast
  show "frames_before period n \<noteq> 0" using assms(2) by (auto simp: frames_before_def)
  assume pos: "0 < period"
  then have "0 < k" using k by simp
  show "frames_before period n \<noteq> 1 \<and> frames_before period n mod period = 1 \<longleftrightarrow> n = period div 8 + 1"
  proof (cases "k + 1 < n")
    case True
    then have "frames_before period n = 8 * (n - 2) + 2" using \<open>0 < k\<close> by (simp add: frames_before_def k)
    moreover have "(8 * m + 2) mod 8 = (2 :: nat)" for m by presburger
    ultimately have "frames_before period n mod period mod 8 = 2" by (metis assms(1) mod_mod_cancel)
    then have "frames_before period n mod period \<noteq> 1" by auto
    then show ?thesis using True by (simp add: k)
  next
    case False
    then have f: "frames_before period n = 8 * (n - 1) + 1" "n - 1 \<le> k" using assms(2) by (auto simp: frames_before_def k)
    show ?thesis
    proof (cases "n = k + 1")
      case True
      then show ?thesis using f \<open>0 < k\<close> by (simp add: k mod_Suc)
    next
      case False
      then have "8 * (n - 1) + 1 < 8 * k" using f(2) assms(2) by linarith
      then show ?thesis using f False assms(2) by (auto simp: k)
    qed
  qed
qed

lemma starts_intra_unit:
  assumes "8 dvd unat (cc_gop_size (codec conf))" "ue_pending e = []"
    "unat (ue_step_index e) = frames_before (unat (cc_gop_size (codec conf))) n"
  shows "starts_intra conf e \<longleftrightarrow> intra_unit (unat (cc_gop_size (codec conf))) n"
proof -
  let ?g = "unat (cc_gop_size (codec conf))" and ?p = "ucast (cc_gop_size (codec conf)) :: u64"
  have p: "unat ?p = ?g" by (simp add: unsigned_ucast_eq take_bit_nat_eq_self less_trans [OF unsigned_less])
  have "?g \<noteq> 1" using assms(1) by auto
  then have one: "?p \<noteq> 1" and gt: "1 < ?p \<longleftrightarrow> 0 < ?g" using p by (auto simp: word_less_nat_alt)
  have m: "ue_step_index e mod ?p = 1 \<longleftrightarrow> unat (ue_step_index e) mod ?g = 1" by (simp add: word_unat_eq_iff unat_mod p)
  have z: "ue_step_index e = 0 \<longleftrightarrow> unat (ue_step_index e) = 0" "ue_step_index e = 1 \<longleftrightarrow> unat (ue_step_index e) = 1"
    by (simp_all add: word_unat_eq_iff)
  show ?thesis
    using frames_before_intra [OF assms(1), of n] assms(2,3) one m gt
    by (cases "n = 0") (auto simp: starts_intra_def Let_def z intra_unit_def frames_before_def)
qed

definition scheduled :: "runtime_configuration \<Rightarrow> frame list \<Rightarrow> 'p uf_sessions \<Rightarrow> bool" where
  "scheduled conf sent s \<longleftrightarrow>
     (let e = us_encoder s; period = unat (cc_gop_size (codec conf)) in
      us_configuration s = conf \<and> unat (ue_step_index e) = frames_before period (length (ue_outputs e))
      \<and> length sent = unat (ue_step_index e) + length (ue_pending e) \<and> length (ue_pending e) < 8
      \<and> (ue_pending e \<noteq> [] \<longrightarrow> \<not> intra_unit period (length (ue_outputs e)))
      \<and> map (\<lambda>k. pk_frame_type k = intra) (ue_outputs e) = map (intra_unit period) [0..<length (ue_outputs e)])"

lemma wrapped_type: "wrap_access_unit alloc conf type w h ts payload = Inr packet \<Longrightarrow> pk_frame_type packet = type"
  by (auto simp: wrap_access_unit_def result_simps make_packet_def)

lemma unat_step:
  assumes "unat (i :: u64) + k < 2 ^ 64"
  shows "unat (i + word_of_nat k) = unat i + k"
  using assms by (simp add: unat_word_ariths(1) unat_of_nat take_bit_nat_eq_self)

lemma scheduled_step:
  assumes g: "8 dvd unat (cc_gop_size (codec conf))"
    and before: "scheduled conf sent s" "length sent + 1 < 2 ^ 64"
    and send: "uf_send_frame ex alloc t f s = (Inr (), s')"
  shows "scheduled conf (sent @ [f]) s'"
proof -
  let ?p = "unat (cc_gop_size (codec conf))" and ?n = "length (ue_outputs (us_encoder s))"
  from before(1) have c: "us_configuration s = conf" "unat (ue_step_index (us_encoder s)) = frames_before ?p ?n"
    "length sent = unat (ue_step_index (us_encoder s)) + length (ue_pending (us_encoder s))"
    "ue_pending (us_encoder s) \<noteq> [] \<longrightarrow> \<not> intra_unit ?p ?n"
    "map (\<lambda>k. pk_frame_type k = intra) (ue_outputs (us_encoder s)) = map (intra_unit ?p) [0..<?n]"
    "length (ue_pending (us_encoder s)) < 8"
    by (simp_all add: scheduled_def Let_def)
  have start: "starts_intra conf e \<longleftrightarrow> ue_pending e = [] \<and> intra_unit ?p ?n"
    if "ue_pending e = ue_pending (us_encoder s)" "ue_step_index e = ue_step_index (us_encoder s)" for e
    using starts_intra_unit [OF g, of e ?n] c(2) that by (cases "ue_pending e = []") (auto simp: starts_intra_def Let_def)
  from send show ?thesis
  proof (cases rule: uf_send_frame_cases)
    case (intra e r1 s1)
    note k = validate_frame_keeps [OF intra(2)]
    with intra(3) start [of e] c(1) have i: "intra_unit ?p ?n" "ue_pending e = []" by auto
    from intra(4,5) obtain q packet st where
      s1: "s1 = (put_uf_encoder e s)\<lparr>us_provider := q, us_statistics := st,
        us_encoder := e\<lparr>ue_outputs := ue_outputs e @ [packet], ue_step_index := ue_step_index e + 1\<rparr>\<rparr>" "pk_frame_type packet = intra"
      by (auto elim!: emit_intra_Inr dest!: wrapped_type simp: put_uf_encoder_def)
    show ?thesis
      using c k i s1 intra(6) intra(5) [symmetric] unat_step [of "ue_step_index e" 1] before(2) frames_before_Suc [OF g, of ?n]
      by (simp add: scheduled_def Let_def next_frame_def put_uf_encoder_def)
  next
    case (waiting e)
    note k = validate_frame_keeps [OF waiting(2)]
    with waiting(3) start [of e] c(1,4) have "\<not> intra_unit ?p ?n" by auto
    then show ?thesis
      using c k waiting(4,6) by (simp add: scheduled_def Let_def next_frame_def put_uf_encoder_def)
  next
    case (group e r1 s1)
    note k = validate_frame_keeps [OF group(2)]
    with group(3) start [of e] c(1,4) have i: "\<not> intra_unit ?p ?n" by auto
    from group(5,6) obtain q packet st where
      s1: "s1 = (put_uf_encoder e s)\<lparr>us_provider := q, us_statistics := st,
        us_encoder := e\<lparr>ue_outputs := ue_outputs e @ [packet], ue_pending := [], ue_step_index := ue_step_index e + 8\<rparr>\<rparr>"
        "pk_frame_type packet = predicted"
      by (auto elim!: emit_predicted_Inr dest!: wrapped_type simp: put_uf_encoder_def)
    show ?thesis
      using c k i s1 group(4,7) group(6) [symmetric] unat_step [of "ue_step_index e" 8] before(2) frames_before_Suc [OF g, of ?n]
      by (simp add: scheduled_def Let_def next_frame_def put_uf_encoder_def)
  qed (use send in auto)
qed



subsection \<open>A flush that fails\<close>

text \<open>
  Property C40. A failing \<open>flush\<close> turns padding into frames. When the last group cannot be coded, for
  instance because its access unit exceeds the packet limit, the encoder stays open with the padding in its group, and
  a later \<open>flush\<close> codes the group as eight genuine frames: it advances by eight and transmits eight time stamps, of which the
  last ones repeat that of the last frame that was sent.
\<close>

theorem uf_failed_flush_repeats:
  assumes "ue_pending (us_encoder s) = fs @ [f]" "length fs < 7" "\<not> ue_flushed (us_encoder s)"
    "uf_flush_encoder ex alloc t s = (Inl x, s1)" "uf_flush_encoder ex alloc' t' s1 = (Inr (), s2)"
  shows "\<exists>enc reset packet. wrap_access_unit alloc' (us_configuration s) predicted (ue_width (us_encoder s)) (ue_height (us_encoder s))
       (fr_timestamp (hd (fs @ [f])))
       (make_payload predicted enc (map fr_timestamp fs @ replicate (8 - length fs) (fr_timestamp f)) reset) = Inr packet
     \<and> ue_outputs (us_encoder s2) = ue_outputs (us_encoder s) @ [packet]
     \<and> ue_step_index (us_encoder s2) = ue_step_index (us_encoder s) + 8"
proof -
  define e' where "e' = us_encoder s\<lparr>ue_pending := fs @ replicate (8 - length fs) f\<rparr>"
  have "Suc (7 - length fs) = 8 - length fs" using assms(2) by simp
  then have pad: "(fs @ [f]) @ replicate (8 - length (fs @ [f])) f = fs @ replicate (8 - length fs) f"
    by (simp flip: replicate_Suc)
  have s1: "us_encoder s1 = e'" "us_configuration s1 = us_configuration s"
    using assms(3,4) pad emit_predicted_Inl
    by (auto simp: uf_flush_encoder_def Let_def assms(1) put_uf_encoder_def e'_def group_frames_def
      elim!: and_then_cases dest!: emit_predicted_Inl split: if_splits)
  have p8: "length (ue_pending e') = 8" "ue_pending e' \<noteq> []" "\<not> ue_flushed e'" using assms(2,3) by (auto simp: e'_def)
  have same: "s1\<lparr>us_encoder := e'\<rparr> = s1" "e'\<lparr>ue_pending := ue_pending e'\<rparr> = e'" using s1(1) by (cases s1, simp) (cases e', simp)
  from assms(5) p8 obtain s3 where
    s3: "emit_predicted ex alloc' t' 8 s1 = (Inr (), s3)" "us_encoder s2 = us_encoder s3\<lparr>ue_flushed := True\<rparr>"
    by (auto simp: uf_flush_encoder_def Let_def and_then_Inr put_uf_encoder_def group_frames_def s1(1) same)
  have ts: "map fr_timestamp (take 8 (ue_pending e')) = map fr_timestamp fs @ replicate (8 - length fs) (fr_timestamp f)"
    using assms(2) by (simp add: e'_def)
  moreover have "hd \<dots> = fr_timestamp (hd (fs @ [f]))" using assms(2) by (cases fs) simp_all
  ultimately have hd: "hd (map fr_timestamp (take 8 (ue_pending e'))) = fr_timestamp (hd (fs @ [f]))" by simp
  from s3(1) obtain enc packet reset where
    em: "wrap_access_unit alloc' (us_configuration s) predicted (ue_width e') (ue_height e') (hd (map fr_timestamp (take 8 (ue_pending e'))))
       (make_payload predicted enc (map fr_timestamp (take 8 (ue_pending e'))) reset) = Inr packet"
      "ue_outputs (us_encoder s3) = ue_outputs e' @ [packet]" "ue_step_index (us_encoder s3) = ue_step_index e' + 8"
    by (rule emit_predicted_Inr) (use s1 in simp)
  show ?thesis using em(1) [unfolded hd, unfolded ts] em(2,3) s3(2) by (auto simp: e'_def)
qed

theorem uf_failed_flush_repeats_witness:
  "\<exists>(s :: unit uf_sessions) x s1 s2 enc reset packet. ue_pending (us_encoder s) = [blank_frame 2 2 2] @ [blank_frame 2 2 3]
     \<and> uf_flush_encoder blank_execution (\<lambda>_. False) 0 s = (Inl x, s1) \<and> uf_flush_encoder blank_execution (\<lambda>_. True) 0 s1 = (Inr (), s2)
     \<and> wrap_access_unit (\<lambda>_. True) (us_configuration s) predicted (ue_width (us_encoder s)) (ue_height (us_encoder s)) 2
         (make_payload predicted enc [2, 3, 3, 3, 3, 3, 3, 3] reset) = Inr packet
     \<and> ue_outputs (us_encoder s2) = ue_outputs (us_encoder s) @ [packet]"
proof -
  from blank_run obtain s x s1 s2 where
    run: "ue_pending (us_encoder (s :: unit uf_sessions)) = [blank_frame 2 2 2] @ [blank_frame 2 2 3]" "\<not> ue_flushed (us_encoder s)"
      "uf_flush_encoder blank_execution (\<lambda>_. False) 0 s = (Inl x, s1)" "uf_flush_encoder blank_execution (\<lambda>_. True) 0 s1 = (Inr (), s2)"
    by metis
  have "length [blank_frame 2 2 2] < 7" by simp
  from uf_failed_flush_repeats [OF run(1) this run(2-4)] obtain enc reset packet where
    w: "wrap_access_unit (\<lambda>_. True) (us_configuration s) predicted (ue_width (us_encoder s)) (ue_height (us_encoder s)) 2
         (make_payload predicted enc [2, 3, 3, 3, 3, 3, 3, 3] reset) = Inr packet"
      "ue_outputs (us_encoder s2) = ue_outputs (us_encoder s) @ [packet]"
    by (auto simp: blank_frame_def eval_nat_numeral)
  then show ?thesis using run by (intro exI conjI)
qed

end
