(* ===== verification/RansByte.thy ===== *)
theory RansByte
  imports Prelude
begin

text \<open>
  \<^verbatim>\<open>third_party/dcvc_rans/src/rans_byte.h\<close> and the bypass primitives of
  \<^verbatim>\<open>third_party/dcvc_rans/src/rans.cpp\<close>: the byte-aligned rANS coder. A 32-bit state is a natural
  number, with the wrap-around of stores written out. The encoder writes backwards from its
  pointer, so its output is the list of the bytes from the pointer on, and a write puts a byte in
  front. The decoder's input is the list of unread bytes; reading past its end is \<open>None\<close>. A loop
  that does not return is \<open>None\<close>, too. Decoding inverts encoding on normalised states.
\<close>

subsection \<open>Primitives\<close>

definition scale_total :: nat where "scale_total = 2 ^ 16"
definition rans_byte_l :: nat where "rans_byte_l = 2 ^ 23"

lemmas rans_constants = scale_total_def rans_byte_l_def

definition rans_enc_init :: nat where "rans_enc_init = rans_byte_l"

definition renorm_limit :: "nat \<Rightarrow> nat" where
  "renorm_limit freq = freq * 2 ^ 15 mod 2 ^ 32"

partial_function (option) rans_enc_renorm :: "nat \<Rightarrow> nat \<Rightarrow> u8 list \<Rightarrow> (nat \<times> u8 list) option" where
  "rans_enc_renorm x_max x out =
     (if x \<ge> x_max then rans_enc_renorm x_max (x div 256) (word_of_nat (x mod 256) # out)
      else Some (x, out))"

definition rans_enc_put :: "nat \<Rightarrow> nat \<Rightarrow> nat \<times> u8 list \<Rightarrow> (nat \<times> u8 list) option" where
  "rans_enc_put start freq st =
     Option.bind (rans_enc_renorm (renorm_limit freq) (fst st) (snd st)) (\<lambda>(r, out).
       Some (((r div freq) * scale_total + r mod freq + start) mod 2 ^ 32, out))"

definition bypass_base :: nat where "bypass_base = 4"

definition rans_enc_put_bits :: "nat \<Rightarrow> nat \<times> u8 list \<Rightarrow> (nat \<times> u8 list) option" where
  "rans_enc_put_bits val st =
     Option.bind (rans_enc_renorm (renorm_limit (2 ^ 14)) (fst st) (snd st)) (\<lambda>(r, out).
       Some ((r * bypass_base + val) mod 2 ^ 32, out))"

definition rans_enc_flush :: "nat \<times> u8 list \<Rightarrow> u8 list" where
  "rans_enc_flush st =
     (let r = fst st in
      word_of_nat r # word_of_nat (r div 2 ^ 8) # word_of_nat (r div 2 ^ 16)
        # word_of_nat (r div 2 ^ 24) # snd st)"

fun rans_dec_init :: "u8 list \<Rightarrow> (nat \<times> u8 list) option" where
  "rans_dec_init (b0 # b1 # b2 # b3 # rest) =
     Some (unat b0 + unat b1 * 2 ^ 8 + unat b2 * 2 ^ 16 + unat b3 * 2 ^ 24, rest)"
| "rans_dec_init _ = None"

definition rans_dec_get :: "nat \<times> u8 list \<Rightarrow> nat" where
  "rans_dec_get st = fst st mod scale_total"

fun rans_dec_renorm :: "nat \<Rightarrow> u8 list \<Rightarrow> (nat \<times> u8 list) option" where
  "rans_dec_renorm r [] = (if r < rans_byte_l then None else Some (r, []))"
| "rans_dec_renorm r (b # rest) =
     (if r < rans_byte_l then rans_dec_renorm ((r * 256 + unat b) mod 2 ^ 32) rest
      else Some (r, b # rest))"

definition rans_dec_advance :: "nat \<Rightarrow> nat \<Rightarrow> nat \<times> u8 list \<Rightarrow> (nat \<times> u8 list) option" where
  "rans_dec_advance start freq st =
     rans_dec_renorm
       ((freq * (fst st div scale_total) + fst st mod scale_total + (2 ^ 32 - start)) mod 2 ^ 32)
       (snd st)"

definition rans_dec_get_bits :: "nat \<times> u8 list \<Rightarrow> (nat \<times> nat \<times> u8 list) option" where
  "rans_dec_get_bits st =
     (let val = fst st mod bypass_base; r = fst st div bypass_base in
      if r < rans_byte_l then
        (case snd st of [] \<Rightarrow> None | b # rest \<Rightarrow> Some (val, (r * 256 + unat b) mod 2 ^ 32, rest))
      else Some (val, r, snd st))"

subsection \<open>Normalised states\<close>

definition normalised :: "nat \<times> u8 list \<Rightarrow> bool" where
  "normalised st \<longleftrightarrow> rans_byte_l \<le> fst st \<and> fst st < 256 * rans_byte_l"

lemma normalised_init: "normalised (rans_enc_init, out)"
  by (simp add: normalised_def rans_enc_init_def rans_constants)

lemma dec_renorm_normal: "rans_byte_l \<le> r \<Longrightarrow> rans_dec_renorm r rest = Some (r, rest)"
  by (cases rest) simp_all

lemma unat_mod_byte: "unat (word_of_nat (x mod 256) :: u8) = x mod 256"
  by (simp add: unsigned_of_nat take_bit_nat_eq_self)

lemma enc_renorm_spec:
  assumes "0 < x_max" "lo \<le> x_max div 256" "lo \<le> r" "r < 256 * rans_byte_l"
  shows "\<exists>r1 bs. rans_enc_renorm x_max r out = Some (r1, bs @ out) \<and> r1 < x_max \<and> lo \<le> r1
     \<and> (\<forall>rest. rans_dec_renorm r1 (bs @ rest) = rans_dec_renorm r rest)
     \<and> length bs = (if r < x_max then 0 else if r div 256 < x_max then 1 else length bs)
     \<and> (bs \<noteq> [] \<longrightarrow> r1 < rans_byte_l)"
  using assms(3,4)
proof (induction r arbitrary: out rule: less_induct)
  case (less r)
  show ?case
  proof (cases "r < x_max")
    case True
    then show ?thesis
      using less.prems
      by (intro exI [of _ r] exI [of _ "[]"]) (simp add: rans_enc_renorm.simps)
  next
    case False
    let ?b = "word_of_nat (r mod 256) :: u8"
    have q: "r div 256 < r" "lo \<le> r div 256" "r div 256 < 256 * rans_byte_l" "r div 256 < rans_byte_l"
      using False assms(1,2) less.prems div_le_mono [of x_max r 256] by (auto simp: rans_constants)
    from less.IH [OF q(1-3), of "?b # out"] obtain r1 bs where ih:
      "rans_enc_renorm x_max (r div 256) (?b # out) = Some (r1, bs @ ?b # out)" "r1 < x_max" "lo \<le> r1"
      "\<And>rest. rans_dec_renorm r1 (bs @ rest) = rans_dec_renorm (r div 256) rest"
      "length bs = (if r div 256 < x_max then 0 else if r div 256 div 256 < x_max then 1 else length bs)"
      "bs \<noteq> [] \<longrightarrow> r1 < rans_byte_l" by blast
    have "r div 256 * 256 + unat ?b = r" by (simp only: unat_mod_byte) simp
    moreover have "r mod 2 ^ 32 = r" using less.prems by (simp add: rans_constants)
    ultimately have d: "rans_dec_renorm (r div 256) (?b # rest) = rans_dec_renorm r rest" for rest
      using q(4) by simp
    have "r1 < rans_byte_l"
    proof (cases "bs = []")
      case True
      then have "rans_dec_renorm r1 [] = rans_dec_renorm (r div 256) []" using ih(4) [of "[]"] by simp
      then show ?thesis using q(4) by (simp split: if_splits)
    qed (use ih in simp)
    then show ?thesis
      using False ih d
      by (intro exI [of _ r1] exI [of _ "bs @ [?b]"])
         (auto simp: rans_enc_renorm.simps [of x_max r])
  qed
qed

subsection \<open>Decoding inverts encoding\<close>

lemma enc_put_inverse:
  assumes n: "normalised st" and f: "0 < freq" "freq < scale_total" and sf: "start + freq \<le> scale_total"
  shows "\<exists>st'. rans_enc_put start freq st = Some st' \<and> normalised st'
     \<and> start \<le> rans_dec_get st' \<and> rans_dec_get st' < start + freq
     \<and> (\<exists>bs. snd st' = bs @ snd st)
     \<and> (\<forall>rest bs. snd st' = bs @ snd st \<longrightarrow>
          rans_dec_advance start freq (fst st', bs @ rest) = Some (fst st, rest))"
proof -
  have lim: "renorm_limit freq = freq * 2 ^ 15" using f by (simp add: renorm_limit_def rans_constants)
  have "freq * 2 ^ 7 \<le> fst st" using n f by (simp add: normalised_def rans_constants)
  from enc_renorm_spec [of "freq * 2 ^ 15" "freq * 2 ^ 7" "fst st" "snd st"] this f n
  obtain r1 bs where r1: "rans_enc_renorm (freq * 2 ^ 15) (fst st) (snd st) = Some (r1, bs @ snd st)"
    "r1 < freq * 2 ^ 15" "freq * 2 ^ 7 \<le> r1"
    "\<And>rest. rans_dec_renorm r1 (bs @ rest) = rans_dec_renorm (fst st) rest"
    by (auto simp: normalised_def)
  define low where "low = r1 mod freq + start"
  define r2 where "r2 = (r1 div freq) * scale_total + low"
  have low: "low < scale_total" "start \<le> low" "low < start + freq"
    using mod_less_divisor [OF f(1), of r1] sf unfolding low_def by linarith+
  have q: "r1 div freq < 2 ^ 15" "2 ^ 7 \<le> r1 div freq"
    using r1(2,3) f by (simp_all add: less_mult_imp_div_less mult.commute div_less_iff_less_mult less_eq_div_iff_mult_less_eq)
  have r2: "r2 < 2 ^ 31" "2 ^ 23 \<le> r2"
    using q low by (auto simp: r2_def scale_total_def)
  have parts: "r2 div scale_total = r1 div freq" "r2 mod scale_total = low"
    using low(1) by (simp_all add: r2_def scale_total_def)
  have put: "rans_enc_put start freq st = Some (r2, bs @ snd st)"
    using r1(1) r2 by (simp add: rans_enc_put_def lim r2_def low_def add.assoc)
  have "freq * (r2 div scale_total) + r2 mod scale_total = r1 + start"
    unfolding parts low_def by (simp add: add.assoc [symmetric])
  moreover have "(r1 + start + (2 ^ 32 - start)) mod 2 ^ 32 = r1"
    using r1(2) f sf by (simp add: scale_total_def)
  ultimately have "rans_dec_advance start freq (r2, bs @ rest) = Some (fst st, rest)" for rest
    using r1(4) [of rest] n by (simp add: rans_dec_advance_def dec_renorm_normal normalised_def)
  then show ?thesis
    using put r2 low by (auto simp: normalised_def rans_dec_get_def parts rans_byte_l_def)
qed

lemma enc_put_bits_inverse:
  assumes n: "normalised st" and v: "val < bypass_base"
  shows "\<exists>st'. rans_enc_put_bits val st = Some st' \<and> normalised st'
     \<and> (\<exists>bs. snd st' = bs @ snd st)
     \<and> (\<forall>rest bs. snd st' = bs @ snd st \<longrightarrow>
          rans_dec_get_bits (fst st', bs @ rest) = Some (val, fst st, rest))"
proof -
  have lim: "renorm_limit (2 ^ 14) = 2 ^ 29" by (simp add: renorm_limit_def)
  have b: "2 ^ 21 \<le> fst st" "fst st < 2 ^ 31" "2 ^ 23 \<le> fst st" using n by (simp_all add: normalised_def rans_constants)
  from enc_renorm_spec [of "2 ^ 29" "2 ^ 21" "fst st" "snd st"] b
  obtain r1 bs where r1: "rans_enc_renorm (2 ^ 29) (fst st) (snd st) = Some (r1, bs @ snd st)"
    "r1 < 2 ^ 29" "2 ^ 21 \<le> r1"
    "\<And>rest. rans_dec_renorm r1 (bs @ rest) = rans_dec_renorm (fst st) rest"
    "length bs = (if fst st < 2 ^ 29 then 0 else if fst st div 256 < 2 ^ 29 then 1 else length bs)"
    by (auto simp: rans_byte_l_def)
  have len: "length bs \<le> 1" using r1(5) b(2) by (auto split: if_splits)
  define r2 where "r2 = r1 * bypass_base + val"
  have r2: "r2 < 2 ^ 31" "2 ^ 23 \<le> r2" "r2 div bypass_base = r1" "r2 mod bypass_base = val"
    using r1(2,3) v by (simp_all add: r2_def bypass_base_def)
  have put: "rans_enc_put_bits val st = Some (r2, bs @ snd st)"
    unfolding rans_enc_put_bits_def lim using r1(1) r2 by (simp add: r2_def)
  have dec: "rans_dec_renorm r1 (bs @ rest) = Some (fst st, rest)" for rest
    using r1(4) [of rest] n by (simp add: normalised_def dec_renorm_normal)
  have get: "rans_dec_get_bits (r2, bs @ rest) = Some (val, fst st, rest)" for rest
  proof (cases bs)
    case Nil
    then have "rans_dec_renorm r1 [] = Some (fst st, [])" using dec [of "[]"] by simp
    then have "rans_byte_l \<le> r1" "r1 = fst st" by (simp_all split: if_splits)
    then show ?thesis using Nil r2 by (simp add: rans_dec_get_bits_def)
  next
    case (Cons b cs)
    then have bs: "bs = [b]" using len by simp
    then have "rans_dec_renorm r1 [b] = Some (fst st, [])" using dec [of "[]"] by simp
    then have "r1 < rans_byte_l" "(r1 * 256 + unat b) mod 2 ^ 32 = fst st"
      by (simp_all split: if_splits)
    then show ?thesis using bs r2 by (simp add: rans_dec_get_bits_def)
  qed
  then show ?thesis using put r2 by (auto simp: normalised_def rans_byte_l_def)
qed

lemma dec_init_flush:
  assumes "normalised st"
  shows "rans_dec_init (rans_enc_flush st @ rest) = Some (fst st, snd st @ rest)"
proof -
  have r: "fst st < 2 ^ 32" using assms by (simp add: normalised_def rans_byte_l_def)
  have u: "unat (word_of_nat x :: u8) = x mod 256" for x
    by (simp add: unsigned_of_nat take_bit_eq_mod)
  have "fst st mod 256 + fst st div 2 ^ 8 mod 256 * 2 ^ 8 + fst st div 2 ^ 16 mod 256 * 2 ^ 16
      + fst st div 2 ^ 24 mod 256 * 2 ^ 24 = fst st"
    (is "?sum = _")
  proof -
    let ?x = "fst st" and ?a = "fst st div 256"
    have q: "?x div 2 ^ 8 = ?a" "?x div 2 ^ 16 = ?a div 256" "?x div 2 ^ 24 = ?a div 256 div 256"
      by (simp_all flip: div_mult2_eq)
    have horner: "a + b * 2 ^ 8 + c * 2 ^ 16 + d * 2 ^ 24 = a + 256 * (b + 256 * (c + 256 * d))"
      for a b c d :: nat by simp
    have top: "?a div 256 div 256 < 256" using r by (simp flip: div_mult2_eq add: div_less_iff_less_mult)
    have "?sum = ?x mod 256 + 256 * (?a mod 256 + 256 * (?a div 256 mod 256 + 256 * (?a div 256 div 256)))"
      unfolding q mod_less [OF top] by (rule horner)
    also have "\<dots> = ?x" by (simp only: mod_mult_div_eq)
    finally show ?thesis .
  qed
  then show ?thesis
    by (simp only: rans_enc_flush_def Let_def u append_Cons rans_dec_init.simps)
qed

lemma length_enc_flush: "length (rans_enc_flush st) = 4 + length (snd st)"
  by (simp add: rans_enc_flush_def Let_def)

end
