(* ===== verification/RansLib.thy ===== *)
theory RansLib
  imports RansByte
begin

text \<open>
  \<^verbatim>\<open>third_party/dcvc_rans/src/rans.cpp\<close>: the symbol coder over the rANS primitives. Symbols outside
  the range of their distribution use the escape symbol followed by a variable number of two-bit
  bypass values. The encoder collects tasks and codes them backwards when it is flushed; the
  decoder reads forwards. The multi-threaded classes run the same code on a worker and wait for
  its result, so they are the same functions. A 32-bit signed value is an integer: the encoder's
  arithmetic stays in range for offsets below \<open>2 ^ 28\<close>, which \<open>valid_group\<close> asks for, and the
  decoder's raw value wraps explicitly. The bitwise or of disjoint bits is a sum; a shift by 32 bits or
  more, which C++ leaves undefined, is \<open>None\<close>.
\<close>

subsection \<open>Tables\<close>

record rans_symbol =
  rs_start :: nat
  rs_range :: nat

record encoder_group =
  eg_symbols :: "rans_symbol list list"
  eg_sizes :: "int list"
  eg_offsets :: "int list"

record decoder_group =
  dg_cdfs :: "int list list"
  dg_sizes :: "int list"
  dg_offsets :: "int list"

definition row_symbols :: "int list \<Rightarrow> rans_symbol list" where
  "row_symbols cdf =
     map (\<lambda>j. if Suc j < length cdf
        then \<lparr>rs_start = nat (cdf ! j mod 2 ^ 16), rs_range = nat ((cdf ! Suc j - cdf ! j) mod 2 ^ 16)\<rparr>
        else \<lparr>rs_start = 0, rs_range = 0\<rparr>) [0..<length cdf]"

definition encoder_add_cdf ::
  "int list list \<Rightarrow> int list \<Rightarrow> int list \<Rightarrow> encoder_group list \<Rightarrow> nat \<times> encoder_group list" where
  "encoder_add_cdf cdfs sizes offsets groups =
     (length groups,
      groups @ [\<lparr>eg_symbols = map row_symbols cdfs, eg_sizes = sizes, eg_offsets = offsets\<rparr>])"

definition decoder_add_cdf ::
  "int list list \<Rightarrow> int list \<Rightarrow> int list \<Rightarrow> decoder_group list \<Rightarrow> nat \<times> decoder_group list" where
  "decoder_add_cdf cdfs sizes offsets groups =
     (length groups, groups @ [\<lparr>dg_cdfs = cdfs, dg_sizes = sizes, dg_offsets = offsets\<rparr>])"

subsection \<open>One symbol\<close>

function count_bypass :: "nat \<Rightarrow> nat \<Rightarrow> nat" where
  "count_bypass raw n = (if raw div 4 ^ n \<noteq> 0 then count_bypass raw (Suc n) else n)"
  by auto
termination
proof (relation "measure (\<lambda>(raw, n). raw div 4 ^ n)")
  fix raw n :: nat assume "raw div 4 ^ n \<noteq> 0"
  moreover have "raw div 4 ^ Suc n = raw div 4 ^ n div 4"
    by (simp only: power_Suc2 div_mult2_eq)
  ultimately show "((raw, Suc n), raw, n) \<in> measure (\<lambda>(raw, n). raw div 4 ^ n)" by simp
qed simp

declare count_bypass.simps [simp del]

fun unary_bins :: "nat \<Rightarrow> nat list" where
  "unary_bins val = (if val \<ge> 3 then 3 # unary_bins (val - 3) else [val])"

declare unary_bins.simps [simp del]

definition bypass_bins :: "nat \<Rightarrow> nat list" where
  "bypass_bins raw =
     (let n_bypass = count_bypass raw 0 in
      unary_bins n_bypass @ map (\<lambda>j. raw div 4 ^ j mod 4) [0..<n_bypass])"

definition put_bins :: "nat list \<Rightarrow> nat \<times> u8 list \<Rightarrow> (nat \<times> u8 list) option" where
  "put_bins bins st = foldr (\<lambda>val st. Option.bind st (rans_enc_put_bits val)) bins (Some st)"

definition encode_one_symbol ::
  "int \<Rightarrow> int \<Rightarrow> int \<Rightarrow> rans_symbol list \<Rightarrow> nat \<times> u8 list \<Rightarrow> (nat \<times> u8 list) option" where
  "encode_one_symbol symbol cdf_size offset symbols st =
     (let max_value = cdf_size - 2;
          value = symbol - offset;
          (raw_val, value) =
            (if value < 0 then (nat (- 2 * value - 1), max_value)
             else if value \<ge> max_value then (nat (2 * (value - max_value)), max_value)
             else (0, value));
          sym = symbols ! nat value in
      Option.bind (if value = max_value then put_bins (bypass_bins raw_val) st else Some st)
        (rans_enc_put (rs_start sym) (rs_range sym)))"

partial_function (option) decode_unary :: "nat \<Rightarrow> nat \<times> u8 list \<Rightarrow> (nat \<times> nat \<times> u8 list) option" where
  "decode_unary n st =
     Option.bind (rans_dec_get_bits st) (\<lambda>r.
       if fst r = 3 then decode_unary (n + 3) (snd r) else Some (n + fst r, snd r))"

primrec decode_raw :: "nat \<Rightarrow> nat \<Rightarrow> nat \<Rightarrow> nat \<times> u8 list \<Rightarrow> (nat \<times> nat \<times> u8 list) option" where
  "decode_raw 0 j raw st = Some (raw, st)"
| "decode_raw (Suc k) j raw st =
     Option.bind (rans_dec_get_bits st) (\<lambda>(val, st).
       if j < 16 then decode_raw k (Suc j) (raw + val * 4 ^ j) st else None)"

definition to_int8 :: "int \<Rightarrow> int" where
  "to_int8 v = (v + 128) mod 256 - 128"

definition to_int32 :: "int \<Rightarrow> int" where
  "to_int32 v = (v + 2 ^ 31) mod 2 ^ 32 - 2 ^ 31"

definition upper_symbol :: "int list \<Rightarrow> int \<Rightarrow> nat \<Rightarrow> nat" where
  "upper_symbol cdf cdf_size cum_freq =
     length (takeWhile (\<lambda>c. c \<le> int cum_freq) (take (nat cdf_size - 1) (tl cdf)))"

definition decode_bypass :: "nat \<times> u8 list \<Rightarrow> (nat \<times> nat \<times> u8 list) option" where
  "decode_bypass st =
     Option.bind (decode_unary 0 st) (\<lambda>(n_bypass, st). decode_raw n_bypass 0 0 st)"

definition decode_one_symbol ::
  "int list \<Rightarrow> int \<Rightarrow> int \<Rightarrow> nat \<times> u8 list \<Rightarrow> (int \<times> nat \<times> u8 list) option" where
  "decode_one_symbol cdf cdf_size offset st =
     (let max_value = cdf_size - 2;
          s = upper_symbol cdf cdf_size (rans_dec_get st) in
      Option.bind (rans_dec_advance (nat (cdf ! s)) (nat (cdf ! Suc s - cdf ! s)) st) (\<lambda>st.
      if int s = max_value then
        Option.bind (decode_bypass st) (\<lambda>(raw_val, st).
        let raw_val = to_int32 (int raw_val);
            value = raw_val div 2;
            value = (if odd raw_val then - value - 1 else value + max_value) in
        Some (to_int8 (value + offset), st))
      else Some (to_int8 (int s + offset), st)))"

subsection \<open>Tasks\<close>

datatype pending_task =
    TaskY "int list" nat
  | TaskZ "int list" nat nat nat

text \<open>The symbols of a task with the rows of their distributions, in order.\<close>

fun task_symbols :: "pending_task \<Rightarrow> (int \<times> nat) list" where
  "task_symbols (TaskY symbols g) = map (\<lambda>c. (c div 256, nat (c mod 256))) symbols"
| "task_symbols (TaskZ symbols g start_offset per_channel_size) =
     map (\<lambda>i. (symbols ! i, i div per_channel_size + start_offset)) [0..<length symbols]"

fun task_group :: "pending_task \<Rightarrow> nat" where
  "task_group (TaskY _ g) = g"
| "task_group (TaskZ _ g _ _) = g"

definition encode_symbol :: "encoder_group \<Rightarrow> int \<times> nat \<Rightarrow> nat \<times> u8 list \<Rightarrow> (nat \<times> u8 list) option" where
  "encode_symbol grp p =
     encode_one_symbol (fst p) (eg_sizes grp ! snd p) (eg_offsets grp ! snd p) (eg_symbols grp ! snd p)"

definition encode_task ::
  "encoder_group list \<Rightarrow> pending_task \<Rightarrow> nat \<times> u8 list \<Rightarrow> (nat \<times> u8 list) option" where
  "encode_task groups task st =
     foldr (\<lambda>p st. Option.bind st (encode_symbol (groups ! task_group task) p)) (task_symbols task) (Some st)"

definition total_symbol_size :: "pending_task list \<Rightarrow> nat" where
  "total_symbol_size tasks = sum_list (map (length \<circ> task_symbols) tasks)"

definition encoder_flush :: "encoder_group list \<Rightarrow> pending_task list \<Rightarrow> u8 list option" where
  "encoder_flush groups tasks =
     (if total_symbol_size tasks = 0 then Some []
      else map_option rans_enc_flush
        (foldr (\<lambda>task st. Option.bind st (encode_task groups task)) tasks (Some (rans_enc_init, []))))"

fun decode_rows ::
  "decoder_group \<Rightarrow> nat list \<Rightarrow> nat \<times> u8 list \<Rightarrow> (int list \<times> nat \<times> u8 list) option" where
  "decode_rows grp [] st = Some ([], st)"
| "decode_rows grp (row # rows) st =
     Option.bind (decode_one_symbol (dg_cdfs grp ! row) (dg_sizes grp ! row) (dg_offsets grp ! row) st)
       (\<lambda>(v, st). Option.bind (decode_rows grp rows st) (\<lambda>(vs, st). Some (v # vs, st)))"

definition decoder_decode_y ::
  "decoder_group list \<Rightarrow> nat list \<Rightarrow> nat \<Rightarrow> nat \<times> u8 list \<Rightarrow> (int list \<times> nat \<times> u8 list) option" where
  "decoder_decode_y groups indexes g = decode_rows (groups ! g) indexes"

definition decoder_decode_z ::
  "decoder_group list \<Rightarrow> nat \<Rightarrow> nat \<Rightarrow> nat \<Rightarrow> nat \<Rightarrow> nat \<times> u8 list \<Rightarrow> (int list \<times> nat \<times> u8 list) option"
  where
  "decoder_decode_z groups total_size g start_offset per_channel_size =
     decode_rows (groups ! g) (map (\<lambda>i. i div per_channel_size + start_offset) [0..<total_size])"

subsection \<open>Steps that invert\<close>

definition inverts ::
  "(nat \<times> u8 list \<Rightarrow> (nat \<times> u8 list) option) \<Rightarrow> (nat \<times> u8 list \<Rightarrow> ('a \<times> nat \<times> u8 list) option) \<Rightarrow> 'a \<Rightarrow> bool"
  where
  "inverts e d x \<longleftrightarrow> (\<forall>st. normalised st \<longrightarrow> (\<exists>st' bs. e st = Some st' \<and> normalised st'
     \<and> snd st' = bs @ snd st \<and> (\<forall>rest. d (fst st', bs @ rest) = Some (x, fst st, rest))))"

lemma inverts_bind:
  assumes "inverts e1 d1 x" "inverts e2 (k x) y"
  shows "inverts (\<lambda>st. Option.bind (e2 st) e1) (\<lambda>st. Option.bind (d1 st) (\<lambda>r. k (fst r) (snd r))) y"
  unfolding inverts_def
proof (intro allI impI)
  fix st assume "normalised st"
  then obtain st2 bs2 where 2: "e2 st = Some st2" "normalised st2" "snd st2 = bs2 @ snd st"
    "\<And>rest. k x (fst st2, bs2 @ rest) = Some (y, fst st, rest)"
    using assms(2) unfolding inverts_def by metis
  then obtain st1 bs1 where "e1 st2 = Some st1" "normalised st1" "snd st1 = bs1 @ snd st2"
    "\<And>rest. d1 (fst st1, bs1 @ rest) = Some (x, fst st2, rest)"
    using assms(1) unfolding inverts_def by metis
  with 2 show "\<exists>st' bs. Option.bind (e2 st) e1 = Some st' \<and> normalised st' \<and> snd st' = bs @ snd st
      \<and> (\<forall>rest. Option.bind (d1 (fst st', bs @ rest)) (\<lambda>r. k (fst r) (snd r)) = Some (y, fst st, rest))"
    by (intro exI [of _ st1] exI [of _ "bs1 @ bs2"]) simp
qed

lemma inverts_skip: "inverts Some (\<lambda>st. Some (x, st)) x"
  by (auto simp: inverts_def)

lemma inverts_map:
  assumes "inverts e d x"
  shows "inverts e (\<lambda>st. Option.bind (d st) (\<lambda>r. Some (f (fst r), snd r))) (f x)"
  using inverts_bind [where k = "\<lambda>x st. Some (f x, st)", OF assms inverts_skip] by simp

lemma inverts_bits: "v < 4 \<Longrightarrow> inverts (rans_enc_put_bits v) rans_dec_get_bits v"
  using enc_put_bits_inverse [of _ v] unfolding inverts_def bypass_base_def by metis

lemma put_bins_simps:
  "put_bins [] = Some"
  "put_bins (v # vs) = (\<lambda>st. Option.bind (put_bins vs st) (rans_enc_put_bits v))"
  "put_bins (us @ vs) = (\<lambda>st. Option.bind (put_bins vs st) (put_bins us))"
proof -
  have n: "put_bins [] = Some" and c: "put_bins (v # vs) = (\<lambda>st. Option.bind (put_bins vs st) (rans_enc_put_bits v))"
    for v vs by (simp_all add: put_bins_def fun_eq_iff)
  then show "put_bins [] = Some" "put_bins (v # vs) = (\<lambda>st. Option.bind (put_bins vs st) (rans_enc_put_bits v))"
    by blast+
  show "put_bins (us @ vs) = (\<lambda>st. Option.bind (put_bins vs st) (put_bins us))"
    by (induction us) (simp_all add: n c)
qed

lemma inverts_cong: "inverts e d x \<Longrightarrow> (\<And>st. e st = e' st) \<Longrightarrow> (\<And>st. d st = d' st) \<Longrightarrow> x = x'
    \<Longrightarrow> inverts e' d' x'"
  by (simp add: inverts_def)

lemma inverts_unary: "inverts (put_bins (unary_bins n)) (decode_unary m) (m + n)"
proof (induction n arbitrary: m rule: unary_bins.induct)
  case (1 n)
  show ?case
  proof (cases "3 \<le> n")
    case True
    let ?k = "\<lambda>v st. if v = 3 then decode_unary (m + 3) st else Some (m + v, st)"
    have "inverts (put_bins (unary_bins (n - 3))) (?k 3) (m + n)"
      using 1 [OF True, of "m + 3"] True by (simp add: add.assoc)
    from inverts_bind [where k = ?k, OF inverts_bits this] show ?thesis
      using True by (simp add: unary_bins.simps [of n] put_bins_simps decode_unary.simps [of m, abs_def])
  next
    case False
    let ?k = "\<lambda>v st. if v = 3 then decode_unary (m + 3) st else Some (m + v, st)"
    have "inverts Some (?k n) (m + n)" using False inverts_skip by simp
    from inverts_bind [where k = ?k, OF inverts_bits this] show ?thesis
      using False by (simp add: unary_bins.simps [of n] put_bins_simps decode_unary.simps [of m, abs_def])
  qed
qed

lemma inverts_raw:
  "j + k \<le> 16 \<Longrightarrow> inverts (put_bins (map (\<lambda>i. raw div 4 ^ i mod 4) [j..<j + k])) (decode_raw k j acc)
     (acc + (raw div 4 ^ j mod 4 ^ k) * 4 ^ j)"
proof (induction k arbitrary: j acc)
  case 0
  then show ?case using inverts_skip by (simp add: put_bins_simps fun_eq_iff)
next
  case (Suc k)
  let ?d = "raw div 4 ^ j mod 4"
  let ?k = "\<lambda>v st. if j < 16 then decode_raw k (Suc j) (acc + v * 4 ^ j) st else None"
  have "raw div 4 ^ Suc j = raw div 4 ^ j div 4" by (simp only: power_Suc2 div_mult2_eq)
  moreover have "raw div 4 ^ j mod 4 ^ Suc k = 4 * (raw div 4 ^ j div 4 mod 4 ^ k) + ?d"
    by (simp only: power_Suc mod_mult2_eq)
  ultimately have v: "acc + ?d * 4 ^ j + (raw div 4 ^ Suc j mod 4 ^ k) * 4 ^ Suc j
      = acc + (raw div 4 ^ j mod 4 ^ Suc k) * 4 ^ j"
    by (simp add: algebra_simps)
  have "inverts (put_bins (map (\<lambda>i. raw div 4 ^ i mod 4) [Suc j..<j + Suc k])) (?k ?d)
      (acc + (raw div 4 ^ j mod 4 ^ Suc k) * 4 ^ j)"
    using Suc.IH [of "Suc j" "acc + ?d * 4 ^ j"] Suc.prems unfolding v by (simp del: upt_Suc power_Suc)
  from inverts_bind [where k = ?k, OF inverts_bits this] show ?case
    by (rule inverts_cong) (simp_all add: upt_conv_Cons put_bins_simps case_prod_beta' del: upt_Suc)
qed

lemma count_bypass_bound: "raw div 4 ^ count_bypass raw n = 0"
proof (induction raw n rule: count_bypass.induct)
  case (1 raw n)
  then show ?case by (cases "raw div 4 ^ n = 0") (simp_all add: count_bypass.simps [of raw n])
qed

lemma count_bypass_le: "raw < 4 ^ m \<Longrightarrow> n \<le> m \<Longrightarrow> count_bypass raw n \<le> m"
proof (induction raw n rule: count_bypass.induct)
  case (1 raw n)
  show ?case
  proof (cases "raw div 4 ^ n = 0")
    case False
    then have "4 ^ n \<le> raw" by (simp add: div_eq_0_iff)
    then have "(4::nat) ^ n < 4 ^ m" using 1(2) by linarith
    then have "Suc n \<le> m" by simp
    then show ?thesis using 1 False by (simp add: count_bypass.simps [of raw n])
  qed (use 1 in \<open>simp add: count_bypass.simps [of raw n]\<close>)
qed

lemma inverts_bypass:
  assumes "raw < 2 ^ 31"
  shows "inverts (put_bins (bypass_bins raw)) decode_bypass raw"
proof -
  let ?n = "count_bypass raw 0"
  have "?n \<le> 16" using assms by (intro count_bypass_le) simp_all
  have "raw mod 4 ^ ?n = raw" using count_bypass_bound [of raw 0] by (simp add: div_eq_0_iff)
  then have r: "inverts (put_bins (map (\<lambda>i. raw div 4 ^ i mod 4) [0..<?n])) (decode_raw ?n 0 0) raw"
    using inverts_raw [of 0 ?n raw 0] \<open>?n \<le> 16\<close> by simp
  from inverts_bind [where k = "\<lambda>n. decode_raw n 0 0", OF inverts_unary [of ?n 0]] r
  have "inverts (\<lambda>st. Option.bind (put_bins (map (\<lambda>i. raw div 4 ^ i mod 4) [0..<?n]) st) (put_bins (unary_bins ?n)))
      (\<lambda>st. Option.bind (decode_unary 0 st) (\<lambda>r. decode_raw (fst r) 0 0 (snd r))) raw"
    by simp
  then show ?thesis
    by (rule inverts_cong) (simp_all add: bypass_bins_def Let_def put_bins_simps decode_bypass_def case_prod_beta')
qed

subsection \<open>Symbols\<close>

definition valid_row :: "int list \<Rightarrow> int \<Rightarrow> bool" where
  "valid_row cdf sz \<longleftrightarrow> 3 \<le> sz \<and> nat sz \<le> length cdf \<and> cdf ! 0 = 0 \<and> cdf ! (nat sz - 1) = 2 ^ 16
     \<and> (\<forall>i. Suc i < nat sz \<longrightarrow> cdf ! i < cdf ! Suc i)"

lemma valid_row_mono:
  assumes "valid_row cdf sz" "i < j" "j < nat sz"
  shows "cdf ! i < cdf ! j"
  using assms(2,3)
proof (induction j)
  case (Suc j)
  then have "cdf ! j < cdf ! Suc j" using assms(1) by (simp add: valid_row_def)
  then show ?case using Suc by (cases "i = j") auto
qed simp

lemma valid_row_symbol:
  assumes "valid_row cdf sz" "Suc v < nat sz"
  shows "0 \<le> cdf ! v" "cdf ! v < cdf ! Suc v" "cdf ! Suc v \<le> 2 ^ 16" "cdf ! Suc v - cdf ! v < 2 ^ 16"
    "row_symbols cdf ! v = \<lparr>rs_start = nat (cdf ! v), rs_range = nat (cdf ! Suc v - cdf ! v)\<rparr>"
proof -
  have f: "cdf ! 0 = 0" "cdf ! (nat sz - 1) = 2 ^ 16" "2 < nat sz" "nat sz \<le> length cdf"
    using assms(1) by (auto simp: valid_row_def)
  show lo: "0 \<le> cdf ! v" using valid_row_mono [OF assms(1), of 0 v] assms(2) f by (cases "v = 0") auto
  show inc: "cdf ! v < cdf ! Suc v" using valid_row_mono [OF assms(1)] assms(2) by simp
  show hi: "cdf ! Suc v \<le> 2 ^ 16"
  proof (cases "Suc v = nat sz - 1")
    case False
    then have "Suc v < nat sz - 1" "nat sz - 1 < nat sz" using assms(2) by linarith+
    then show ?thesis using valid_row_mono [OF assms(1), of "Suc v" "nat sz - 1"] f(2) by linarith
  qed (use f in simp)
  show small: "cdf ! Suc v - cdf ! v < 2 ^ 16"
  proof (cases "v = 0")
    case True
    then have "cdf ! Suc v < 2 ^ 16"
      using valid_row_mono [OF assms(1), of 1 "nat sz - 1"] f by simp
    then show ?thesis using lo by simp
  next
    case False
    then have "0 < cdf ! v" using valid_row_mono [OF assms(1), of 0 v] assms(2) f by simp
    then show ?thesis using hi by simp
  qed
  have "cdf ! v mod 2 ^ 16 = cdf ! v" "(cdf ! Suc v - cdf ! v) mod 2 ^ 16 = cdf ! Suc v - cdf ! v"
    using lo inc hi small by simp_all
  then show "row_symbols cdf ! v = \<lparr>rs_start = nat (cdf ! v), rs_range = nat (cdf ! Suc v - cdf ! v)\<rparr>"
    using assms(2) f by (simp add: row_symbols_def)
qed

lemma upper_symbol_row:
  assumes "valid_row cdf sz" "Suc v < nat sz" "cdf ! v \<le> int cum" "int cum < cdf ! Suc v"
  shows "upper_symbol cdf sz cum = v"
proof -
  let ?xs = "take (nat sz - 1) (tl cdf)"
  have len: "length ?xs = nat sz - 1" using assms(1) by (auto simp: valid_row_def)
  have nth: "?xs ! i = cdf ! Suc i" if "i < nat sz - 1" for i
    using that len by (simp add: nth_tl)
  have "takeWhile (\<lambda>c. c \<le> int cum) ?xs = take v ?xs"
  proof (rule takeWhile_eq_take_P_nth)
    fix i assume i: "i < v" "i < length ?xs"
    then have "cdf ! Suc i \<le> cdf ! v"
      using valid_row_mono [OF assms(1), of "Suc i" v] assms(2) by (cases "Suc i = v") auto
    then show "?xs ! i \<le> int cum" using nth i len assms(3) by simp
  qed (use nth len assms in auto)
  then show ?thesis using len assms(2) by (simp add: upper_symbol_def)
qed

lemma inverts_table_symbol:
  assumes row: "valid_row cdf sz" and v: "Suc v < nat sz"
  shows "inverts (rans_enc_put (rs_start (row_symbols cdf ! v)) (rs_range (row_symbols cdf ! v)))
     (\<lambda>st. let s = upper_symbol cdf sz (rans_dec_get st) in
        Option.bind (rans_dec_advance (nat (cdf ! s)) (nat (cdf ! Suc s - cdf ! s)) st) (\<lambda>st. Some (s, st)))
     v"
  unfolding inverts_def
proof (intro allI impI)
  fix st assume "normalised st"
  let ?start = "nat (cdf ! v)" and ?freq = "nat (cdf ! Suc v - cdf ! v)"
  note sym = valid_row_symbol [OF row v]
  have "0 < ?freq" "?freq < scale_total" "?start + ?freq \<le> scale_total"
    using sym(1-4) by (auto simp: scale_total_def)
  from enc_put_inverse [OF \<open>normalised st\<close> this] obtain st' bs where
    st': "rans_enc_put ?start ?freq st = Some st'" "normalised st'" "snd st' = bs @ snd st"
    "?start \<le> rans_dec_get st'" "rans_dec_get st' < ?start + ?freq"
    "\<And>rest. rans_dec_advance ?start ?freq (fst st', bs @ rest) = Some (fst st, rest)"
    by auto
  have "upper_symbol cdf sz (rans_dec_get (fst st', bs @ rest)) = v" for rest
    using upper_symbol_row [OF row v, of "rans_dec_get st'"] st'(4,5) sym(1,2)
    by (simp add: rans_dec_get_def)
  with st' show "\<exists>st' bs. rans_enc_put (rs_start (row_symbols cdf ! v)) (rs_range (row_symbols cdf ! v)) st = Some st'
      \<and> normalised st' \<and> snd st' = bs @ snd st
      \<and> (\<forall>rest. (let s = upper_symbol cdf sz (rans_dec_get (fst st', bs @ rest)) in
        Option.bind (rans_dec_advance (nat (cdf ! s)) (nat (cdf ! Suc s - cdf ! s)) (fst st', bs @ rest))
          (\<lambda>st. Some (s, st))) = Some (v, fst st, rest))"
    by (intro exI [of _ st'] exI [of _ bs]) (simp add: sym(5))
qed

lemma to_int8_id: "- 128 \<le> v \<Longrightarrow> v < 128 \<Longrightarrow> to_int8 v = v"
  by (simp add: to_int8_def)

lemma to_int32_id: "- 2147483648 \<le> v \<Longrightarrow> v < 2147483648 \<Longrightarrow> to_int32 v = v"
  by (simp add: to_int32_def)

lemma inverts_symbol:
  assumes row: "valid_row cdf sz" and sym: "- 128 \<le> symbol" "symbol < 128" and off: "\<bar>off\<bar> < 2 ^ 28"
  shows "inverts (encode_one_symbol symbol sz off (row_symbols cdf)) (decode_one_symbol cdf sz off) symbol"
proof -
  let ?max = "sz - 2" and ?v = "symbol - off"
  let ?tab = "\<lambda>v. rans_enc_put (rs_start (row_symbols cdf ! v)) (rs_range (row_symbols cdf ! v))"
  let ?T = "\<lambda>st. let s = upper_symbol cdf sz (rans_dec_get st) in
      Option.bind (rans_dec_advance (nat (cdf ! s)) (nat (cdf ! Suc s - cdf ! s)) st) (\<lambda>st. Some (s, st))"
  let ?f = "\<lambda>raw. let raw = to_int32 (int raw); value = raw div 2; value = (if odd raw then - value - 1 else value + ?max)
      in to_int8 (value + off)"
  let ?k = "\<lambda>s st. if int s = ?max then Option.bind (decode_bypass st) (\<lambda>r. Some (?f (fst r), snd r))
      else Some (to_int8 (int s + off), st)"
  have sz: "3 \<le> sz" using row by (simp add: valid_row_def)
  have dec: "Option.bind (?T st) (\<lambda>r. ?k (fst r) (snd r)) = decode_one_symbol cdf sz off st" for st
    by (auto simp: decode_one_symbol_def Let_def case_prod_beta' split: Option.bind_splits)
  show ?thesis
  proof (cases "0 \<le> ?v \<and> ?v < ?max")
    case True
    then have v: "Suc (nat ?v) < nat sz" and e: "encode_one_symbol symbol sz off (row_symbols cdf) st
        = Option.bind (Some st) (?tab (nat ?v))" for st
      by (auto simp: encode_one_symbol_def Let_def)
    have "?k (nat ?v) = (\<lambda>st. Some (symbol, st))"
      using True sym by (auto simp: to_int8_id)
    then have "inverts Some (?k (nat ?v)) symbol" using inverts_skip [of symbol] by presburger
    from inverts_bind [where k = ?k, OF inverts_table_symbol [OF row v] this] show ?thesis
      by (rule inverts_cong) (simp_all only: e dec refl)
  next
    case False
    define raw where "raw = (if ?v < 0 then nat (- 2 * ?v - 1) else nat (2 * (?v - ?max)))"
    have raw: "raw < 2 ^ 31" using False off sym sz by (auto simp: raw_def)
    then have wrap: "to_int32 (int raw) = int raw" by (intro to_int32_id) simp_all
    have v: "Suc (nat ?max) < nat sz" using sz by simp
    have e: "encode_one_symbol symbol sz off (row_symbols cdf) st
        = Option.bind (put_bins (bypass_bins raw) st) (?tab (nat ?max))" for st
      using False by (auto simp: encode_one_symbol_def Let_def raw_def)
    have "?f raw = symbol"
    proof (cases "?v < 0")
      case True
      define m where "m = nat (- ?v - 1)"
      have "raw = 2 * m + 1" "int m = - ?v - 1" using True by (simp_all add: raw_def m_def)
      then show ?thesis using sym unfolding wrap by (simp add: to_int8_id)
    next
      case vpos: False
      define m where "m = nat (?v - ?max)"
      have "raw = 2 * m" "int m = ?v - ?max" using vpos False by (simp_all add: raw_def m_def)
      then show ?thesis using sym unfolding wrap by (simp add: to_int8_id)
    qed
    then have "inverts (put_bins (bypass_bins raw)) (?k (nat ?max)) symbol"
      using inverts_map [OF inverts_bypass [OF raw], of ?f] sz by simp
    from inverts_bind [where k = ?k, OF inverts_table_symbol [OF row v] this] show ?thesis
      by (rule inverts_cong) (simp_all only: e dec refl)
  qed
qed

subsection \<open>Streams\<close>

definition encoder_of :: "decoder_group \<Rightarrow> encoder_group" where
  "encoder_of g = \<lparr>eg_symbols = map row_symbols (dg_cdfs g), eg_sizes = dg_sizes g, eg_offsets = dg_offsets g\<rparr>"

definition valid_group :: "decoder_group \<Rightarrow> bool" where
  "valid_group g \<longleftrightarrow> length (dg_sizes g) = length (dg_cdfs g) \<and> length (dg_offsets g) = length (dg_cdfs g)
     \<and> (\<forall>i < length (dg_cdfs g). valid_row (dg_cdfs g ! i) (dg_sizes g ! i) \<and> \<bar>dg_offsets g ! i\<bar> < 2 ^ 28)"

definition valid_task :: "decoder_group list \<Rightarrow> pending_task \<Rightarrow> bool" where
  "valid_task groups task \<longleftrightarrow> task_group task < length groups
     \<and> (\<forall>(s, row) \<in> set (task_symbols task).
          - 128 \<le> s \<and> s < 128 \<and> row < length (dg_cdfs (groups ! task_group task)))"

lemma inverts_rows:
  assumes "\<And>p. p \<in> set ps \<Longrightarrow> inverts (E p)
      (decode_one_symbol (dg_cdfs g ! snd p) (dg_sizes g ! snd p) (dg_offsets g ! snd p)) (fst p)"
  shows "inverts (\<lambda>st. foldr (\<lambda>p st. Option.bind st (E p)) ps (Some st))
     (decode_rows g (map snd ps)) (map fst ps)"
  using assms
proof (induction ps)
  case Nil
  then show ?case using inverts_skip [of "[]"] by simp
next
  case (Cons p ps)
  let ?k = "\<lambda>v st. Option.bind (decode_rows g (map snd ps) st) (\<lambda>r. Some (v # fst r, snd r))"
  have "inverts (\<lambda>st. foldr (\<lambda>p st. Option.bind st (E p)) ps (Some st)) (?k (fst p)) (fst p # map fst ps)"
    using inverts_map [OF Cons.IH, of "\<lambda>vs. fst p # vs"] Cons.prems by simp
  from inverts_bind [where k = ?k, OF Cons.prems [OF list.set_intros(1)] this] show ?case
    by (rule inverts_cong) (simp_all add: case_prod_beta')
qed

fun decode_tasks ::
  "decoder_group list \<Rightarrow> pending_task list \<Rightarrow> nat \<times> u8 list \<Rightarrow> (int list list \<times> nat \<times> u8 list) option" where
  "decode_tasks groups [] st = Some ([], st)"
| "decode_tasks groups (task # tasks) st =
     Option.bind (decode_rows (groups ! task_group task) (map snd (task_symbols task)) st)
       (\<lambda>(v, st). Option.bind (decode_tasks groups tasks st) (\<lambda>(vs, st). Some (v # vs, st)))"

lemma inverts_task:
  assumes groups: "\<forall>g \<in> set groups. valid_group g" and task: "valid_task groups task"
  shows "inverts (encode_task (map encoder_of groups) task)
     (decode_rows (groups ! task_group task) (map snd (task_symbols task))) (map fst (task_symbols task))"
proof -
  let ?g = "groups ! task_group task"
  have g: "valid_group ?g" using groups task by (simp add: valid_task_def)
  have "inverts (encode_symbol (encoder_of ?g) p)
      (decode_one_symbol (dg_cdfs ?g ! snd p) (dg_sizes ?g ! snd p) (dg_offsets ?g ! snd p)) (fst p)"
    if "p \<in> set (task_symbols task)" for p
  proof -
    have "- 128 \<le> fst p" "fst p < 128" "snd p < length (dg_cdfs ?g)"
      using task that by (auto simp: valid_task_def)
    then show ?thesis
      using inverts_symbol [of "dg_cdfs ?g ! snd p" "dg_sizes ?g ! snd p" "fst p" "dg_offsets ?g ! snd p"] g
      by (simp add: encode_symbol_def [abs_def] encoder_of_def valid_group_def)
  qed
  from inverts_rows [OF this] show ?thesis
    using task by (simp add: encode_task_def [abs_def] valid_task_def)
qed

lemma inverts_tasks:
  assumes "\<forall>g \<in> set groups. valid_group g" "\<forall>t \<in> set tasks. valid_task groups t"
  shows "inverts (\<lambda>st. foldr (\<lambda>t st. Option.bind st (encode_task (map encoder_of groups) t)) tasks (Some st))
     (decode_tasks groups tasks) (map (\<lambda>t. map fst (task_symbols t)) tasks)"
  using assms(2)
proof (induction tasks)
  case Nil
  then show ?case using inverts_skip [of "[]"] by simp
next
  case (Cons t ts)
  let ?k = "\<lambda>v st. Option.bind (decode_tasks groups ts st) (\<lambda>r. Some (v # fst r, snd r))"
  let ?v = "map fst (task_symbols t)"
  have *: "inverts (\<lambda>st. foldr (\<lambda>t st. Option.bind st (encode_task (map encoder_of groups) t)) ts (Some st))
      (?k ?v) (?v # map (\<lambda>t. map fst (task_symbols t)) ts)"
    using inverts_map [OF Cons.IH, of "\<lambda>vs. ?v # vs"] Cons.prems by simp
  from Cons.prems have "valid_task groups t" by simp
  from inverts_bind [where k = ?k, OF inverts_task [OF assms(1) this] *] show ?case
    by (rule inverts_cong) (simp_all add: case_prod_beta')
qed

text \<open>What an encoder flushes, any decoder reads back, whatever bytes follow.\<close>

lemma flush_decodes:
  assumes "\<forall>g \<in> set groups. valid_group g" "\<forall>t \<in> set tasks. valid_task groups t"
    "total_symbol_size tasks \<noteq> 0"
  shows "\<exists>stream. encoder_flush (map encoder_of groups) tasks = Some stream \<and> 4 \<le> length stream
     \<and> (\<forall>rest. \<exists>st. rans_dec_init (stream @ rest) = Some st
          \<and> decode_tasks groups tasks st = Some (map (\<lambda>t. map fst (task_symbols t)) tasks, rans_enc_init, rest))"
proof -
  from inverts_tasks [OF assms(1,2)] obtain st bs where
    e: "foldr (\<lambda>t st. Option.bind st (encode_task (map encoder_of groups) t)) tasks (Some (rans_enc_init, [])) = Some st"
    and n: "normalised st" and bs: "snd st = bs @ []"
    and d: "\<And>rest. decode_tasks groups tasks (fst st, bs @ rest) = Some (map (\<lambda>t. map fst (task_symbols t)) tasks, rans_enc_init, rest)"
    unfolding inverts_def using normalised_init [of "[]"] by (metis fst_conv snd_conv)
  show ?thesis
  proof (intro exI [of _ "rans_enc_flush st"] conjI allI)
    show "encoder_flush (map encoder_of groups) tasks = Some (rans_enc_flush st)"
      using e assms(3) by (simp add: encoder_flush_def)
    show "4 \<le> length (rans_enc_flush st)" by (simp add: length_enc_flush)
    show "\<exists>s. rans_dec_init (rans_enc_flush st @ rest) = Some s
        \<and> decode_tasks groups tasks s = Some (map (\<lambda>t. map fst (task_symbols t)) tasks, rans_enc_init, rest)" for rest
      using dec_init_flush [OF n, of rest] d [of rest] bs by simp
  qed
qed

end
