(* ===== verification/RansCodec.thy ===== *)
theory RansCodec
  imports RansLib Errors
begin

text \<open>
  \<^verbatim>\<open>src/dcvcrt/rans_codec.cpp\<close>: the entropy session of DCVC-RT, a validation boundary around the
  rANS library, with one or two coders. With two coders the second half of every tensor goes to
  the second encoder, whose stream is appended backwards to the first one, sharing an equal tail;
  the second decoder reads the merged stream from its end. A call that does not return, or that
  reads past the end of the stream, is \<open>None\<close>. Failed allocations are not modelled.
\<close>

subsection \<open>State\<close>

record rans_cdf_table =
  ct_values :: "int list list"
  ct_sizes :: "int list"
  ct_offsets :: "int list"

record rans_encoder =
  re_groups :: "encoder_group list"
  re_pending :: "pending_task list"

record rans_decoder =
  rd_groups :: "decoder_group list"
  rd_state :: "nat \<times> u8 list"

record rans_codec =
  rc_encoder0 :: rans_encoder
  rc_encoder1 :: rans_encoder
  rc_decoder0 :: rans_decoder
  rc_decoder1 :: rans_decoder
  rc_cdf_rows :: "nat list"
  rc_use_two_coders :: bool
  rc_encoder_has_symbols :: bool
  rc_encoder_finished :: bool
  rc_stream_set :: bool

definition make_rans_codec :: rans_codec where
  "make_rans_codec =
     \<lparr>rc_encoder0 = \<lparr>re_groups = [], re_pending = []\<rparr>, rc_encoder1 = \<lparr>re_groups = [], re_pending = []\<rparr>,
      rc_decoder0 = \<lparr>rd_groups = [], rd_state = (0, [])\<rparr>, rc_decoder1 = \<lparr>rd_groups = [], rd_state = (0, [])\<rparr>,
      rc_cdf_rows = [], rc_use_two_coders = False, rc_encoder_has_symbols = False,
      rc_encoder_finished = False, rc_stream_set = False\<rparr>"

definition rans_error :: "error_code \<Rightarrow> string \<Rightarrow> error" where
  "rans_error c msg = Error c msg ''dcvcrt.rans''"

definition rans_invalid :: "string \<Rightarrow> error" where
  "rans_invalid msg = rans_error invalid_argument msg"

subsection \<open>Tables\<close>

definition cdf_total :: int where "cdf_total = 2 ^ 16"

definition row_message :: "nat \<Rightarrow> string \<Rightarrow> error" where
  "row_message row_index what = rans_invalid (''CDF row '' @ decimal_string row_index @ what)"

definition validate_row :: "nat \<Rightarrow> int list \<Rightarrow> int \<Rightarrow> unit result" where
  "validate_row row_index row declared_size =
     (if declared_size < 2 \<or> nat declared_size > length row then
        Inl (row_message row_index '' has an invalid size'')
      else if hd row \<noteq> 0 \<or> row ! (nat declared_size - 1) \<noteq> cdf_total then
        Inl (row_message row_index '' must span [0, 65536]'')
      else if \<exists>index \<in> set [1..<nat declared_size]. row ! index \<le> row ! (index - 1) then
        Inl (row_message row_index '' is not increasing'')
      else Inr ())"

fun validate_rows :: "nat \<Rightarrow> (int list \<times> int) list \<Rightarrow> unit result" where
  "validate_rows row_index [] = Inr ()"
| "validate_rows row_index ((row, declared_size) # rows) =
     res_bind (validate_row row_index row declared_size) (\<lambda>_. validate_rows (Suc row_index) rows)"

definition validate_cdf :: "rans_cdf_table \<Rightarrow> unit result" where
  "validate_cdf table =
     (if ct_values table = [] then Inl (rans_invalid ''CDF table cannot be empty'')
      else if length (ct_values table) \<noteq> length (ct_sizes table)
          \<or> length (ct_values table) \<noteq> length (ct_offsets table) then
        Inl (rans_invalid ''CDF values, sizes, and offsets must have the same row count'')
      else validate_rows 0 (zip (ct_values table) (ct_sizes table)))"

definition set_use_two_coders :: "bool \<Rightarrow> rans_codec \<Rightarrow> unit result \<times> rans_codec" where
  "set_use_two_coders enabled c =
     (if rc_encoder_has_symbols c \<or> rc_encoder_finished c then
        (Inl (rans_error invalid_state ''coder mode cannot change during an encode session''), c)
      else (Inr (), c\<lparr>rc_use_two_coders := enabled\<rparr>))"

definition add_cdf :: "rans_cdf_table \<Rightarrow> rans_codec \<Rightarrow> nat result \<times> rans_codec" where
  "add_cdf table c =
     (case validate_cdf table of
        Inl e \<Rightarrow> (Inl e, c)
      | Inr _ \<Rightarrow>
        let (group, e0) = encoder_add_cdf (ct_values table) (ct_sizes table) (ct_offsets table)
              (re_groups (rc_encoder0 c));
            (encoder1_group, e1) = encoder_add_cdf (ct_values table) (ct_sizes table) (ct_offsets table)
              (re_groups (rc_encoder1 c));
            (decoder0_group, d0) = decoder_add_cdf (ct_values table) (ct_sizes table) (ct_offsets table)
              (rd_groups (rc_decoder0 c));
            (decoder1_group, d1) = decoder_add_cdf (ct_values table) (ct_sizes table) (ct_offsets table)
              (rd_groups (rc_decoder1 c));
            c = c\<lparr>rc_encoder0 := (rc_encoder0 c)\<lparr>re_groups := e0\<rparr>,
                  rc_encoder1 := (rc_encoder1 c)\<lparr>re_groups := e1\<rparr>,
                  rc_decoder0 := (rc_decoder0 c)\<lparr>rd_groups := d0\<rparr>,
                  rc_decoder1 := (rc_decoder1 c)\<lparr>rd_groups := d1\<rparr>\<rparr> in
        if encoder1_group \<noteq> group \<or> decoder0_group \<noteq> group \<or> decoder1_group \<noteq> group
            \<or> group \<noteq> length (rc_cdf_rows c) then
          (Inl (rans_error internal_error ''upstream CDF group mismatch''), c)
        else (Inr group, c\<lparr>rc_cdf_rows := rc_cdf_rows c @ [length (ct_values table)]\<rparr>))"

definition reset_encoder :: "rans_codec \<Rightarrow> rans_codec" where
  "reset_encoder c =
     c\<lparr>rc_encoder0 := (rc_encoder0 c)\<lparr>re_pending := []\<rparr>, rc_encoder1 := (rc_encoder1 c)\<lparr>re_pending := []\<rparr>,
       rc_encoder_has_symbols := False, rc_encoder_finished := False\<rparr>"

definition clear_cdfs :: "rans_codec \<Rightarrow> rans_codec" where
  "clear_cdfs c =
     (reset_encoder (c\<lparr>rc_encoder0 := (rc_encoder0 c)\<lparr>re_groups := []\<rparr>,
        rc_encoder1 := (rc_encoder1 c)\<lparr>re_groups := []\<rparr>, rc_decoder0 := (rc_decoder0 c)\<lparr>rd_groups := []\<rparr>,
        rc_decoder1 := (rc_decoder1 c)\<lparr>rd_groups := []\<rparr>, rc_cdf_rows := []\<rparr>))\<lparr>rc_stream_set := False\<rparr>"

subsection \<open>Encoding\<close>

definition push_task :: "pending_task \<Rightarrow> rans_encoder \<Rightarrow> rans_encoder" where
  "push_task task e = e\<lparr>re_pending := re_pending e @ [task]\<rparr>"

definition codec_encode_y :: "int list \<Rightarrow> nat \<Rightarrow> rans_codec \<Rightarrow> unit result \<times> rans_codec" where
  "codec_encode_y combined_symbols cdf_group c =
     (if cdf_group \<ge> length (rc_cdf_rows c) then (Inl (rans_invalid ''unknown CDF group''), c)
      else if rc_encoder_finished c then
        (Inl (rans_error invalid_state ''reset encoder before reuse''), c)
      else if list_ex (\<lambda>combined. nat (combined mod 256) \<ge> rc_cdf_rows c ! cdf_group) combined_symbols then
        (Inl (rans_invalid ''y symbol has invalid CDF index''), c)
      else if combined_symbols = [] then (Inr (), c)
      else if rc_use_two_coders c \<and> length combined_symbols < 2 then
        (Inl (rans_invalid ''two-coder y input must contain at least two symbols''), c)
      else
        let half = length combined_symbols div 2;
            c = c\<lparr>rc_encoder0 := push_task (TaskY (take (if rc_use_two_coders c then half
                else length combined_symbols) combined_symbols) cdf_group) (rc_encoder0 c)\<rparr>;
            c = (if rc_use_two_coders c then
                   c\<lparr>rc_encoder1 := push_task (TaskY (drop half combined_symbols) cdf_group) (rc_encoder1 c)\<rparr>
                 else c) in
        (Inr (), c\<lparr>rc_encoder_has_symbols := True\<rparr>))"

definition codec_encode_z ::
  "int list \<Rightarrow> nat \<Rightarrow> nat \<Rightarrow> nat \<Rightarrow> rans_codec \<Rightarrow> unit result \<times> rans_codec" where
  "codec_encode_z symbols cdf_group start_offset per_channel_size c =
     (if cdf_group \<ge> length (rc_cdf_rows c) then (Inl (rans_invalid ''unknown CDF group''), c)
      else if rc_encoder_finished c then
        (Inl (rans_error invalid_state ''reset encoder before reuse''), c)
      else if per_channel_size = 0 \<or> length symbols mod per_channel_size \<noteq> 0 then
        (Inl (rans_invalid ''z symbols must contain complete non-empty channels''), c)
      else
        let channel_count = length symbols div per_channel_size in
        if start_offset > rc_cdf_rows c ! cdf_group
            \<or> channel_count > rc_cdf_rows c ! cdf_group - start_offset then
          (Inl (rans_invalid ''z symbols exceed CDF rows''), c)
        else if symbols = [] then (Inr (), c)
        else
          let half = length symbols div 2 in
          if rc_use_two_coders c \<and> (half = 0 \<or> half mod per_channel_size \<noteq> 0) then
            (Inl (rans_invalid ''two-coder z input must split on a channel boundary''), c)
          else
            let c = c\<lparr>rc_encoder0 := push_task (TaskZ (take (if rc_use_two_coders c then half
                    else length symbols) symbols) cdf_group start_offset per_channel_size) (rc_encoder0 c)\<rparr>;
                c = (if rc_use_two_coders c then
                       c\<lparr>rc_encoder1 := push_task (TaskZ (drop half symbols) cdf_group
                         (start_offset + half div per_channel_size) per_channel_size) (rc_encoder1 c)\<rparr>
                     else c) in
            (Inr (), c\<lparr>rc_encoder_has_symbols := True\<rparr>))"

definition equal_tail :: "u8 list \<Rightarrow> u8 list \<Rightarrow> nat" where
  "equal_tail stream0 stream1 =
     (let check = min (min (length stream0) (length stream1)) 8;
          identical = length (takeWhile (\<lambda>(a, b). a = 0 \<and> b = 0) (take check (zip (rev stream0) (rev stream1)))) in
      if identical = 0 \<and> last stream0 = last stream1 then 1 else identical)"

definition merge_streams :: "u8 list \<Rightarrow> u8 list \<Rightarrow> u8 list" where
  "merge_streams stream0 stream1 =
     stream0 @ rev (take (length stream1 - equal_tail stream0 stream1) stream1)"

definition finish_encode :: "rans_codec \<Rightarrow> (byte list result \<times> rans_codec) option" where
  "finish_encode c =
     (if rc_encoder_finished c then
        Some (Inl (rans_error invalid_state ''encode session is already finished''), c)
      else if \<not> rc_encoder_has_symbols c then Some (Inr [], c\<lparr>rc_encoder_finished := True\<rparr>)
      else
        Option.bind (if rc_use_two_coders c
            then encoder_flush (re_groups (rc_encoder1 c)) (re_pending (rc_encoder1 c)) else Some [])
          (\<lambda>stream1.
        Option.bind (encoder_flush (re_groups (rc_encoder0 c)) (re_pending (rc_encoder0 c))) (\<lambda>stream0.
        if \<not> rc_use_two_coders c then Some (Inr stream0, c\<lparr>rc_encoder_finished := True\<rparr>)
        else if stream0 = [] \<or> stream1 = [] then
          Some (Inl (rans_error internal_error ''empty split rANS stream''), c)
        else Some (Inr (merge_streams stream0 stream1), c\<lparr>rc_encoder_finished := True\<rparr>))))"

subsection \<open>Decoding\<close>

definition decoder_set_stream :: "u8 list \<Rightarrow> rans_decoder \<Rightarrow> rans_decoder option" where
  "decoder_set_stream stream d = map_option (\<lambda>st. d\<lparr>rd_state := st\<rparr>) (rans_dec_init stream)"

definition set_stream :: "byte list \<Rightarrow> rans_codec \<Rightarrow> (unit result \<times> rans_codec) option" where
  "set_stream bitstream c =
     (if length bitstream < 4 then
        Some (Inl (rans_error malformed_bitstream ''rANS stream is shorter than its state''), c)
      else
        Option.bind (decoder_set_stream bitstream (rc_decoder0 c)) (\<lambda>d0.
        let c = c\<lparr>rc_decoder0 := d0\<rparr> in
        if rc_use_two_coders c then
          Option.bind (decoder_set_stream (rev bitstream) (rc_decoder1 c)) (\<lambda>d1.
          Some (Inr (), c\<lparr>rc_decoder1 := d1, rc_stream_set := True\<rparr>))
        else Some (Inr (), c\<lparr>rc_stream_set := True\<rparr>)))"

definition decoder_run ::
  "(nat \<times> u8 list \<Rightarrow> (int list \<times> nat \<times> u8 list) option) \<Rightarrow> rans_decoder \<Rightarrow> (int list \<times> rans_decoder) option"
  where
  "decoder_run f d = map_option (\<lambda>(vs, st). (vs, d\<lparr>rd_state := st\<rparr>)) (f (rd_state d))"

text \<open>The common end of both decoding calls: the second decoder runs, then the first.\<close>

definition run_decoders ::
  "(rans_decoder \<Rightarrow> (int list \<times> rans_decoder) option) \<Rightarrow> (rans_decoder \<Rightarrow> (int list \<times> rans_decoder) option)
     \<Rightarrow> rans_codec \<Rightarrow> (int list result \<times> rans_codec) option" where
  "run_decoders run0 run1 c =
     (if rc_use_two_coders c then
        Option.bind (run1 (rc_decoder1 c)) (\<lambda>(result1, d1).
        Option.bind (run0 (rc_decoder0 c)) (\<lambda>(result0, d0).
        Some (Inr (result0 @ result1), c\<lparr>rc_decoder0 := d0, rc_decoder1 := d1\<rparr>)))
      else
        Option.bind (run0 (rc_decoder0 c)) (\<lambda>(result0, d0).
        Some (Inr result0, c\<lparr>rc_decoder0 := d0\<rparr>)))"

definition codec_decode_y :: "nat list \<Rightarrow> nat \<Rightarrow> rans_codec \<Rightarrow> (int list result \<times> rans_codec) option" where
  "codec_decode_y indexes cdf_group c =
     (if \<not> rc_stream_set c then
        Some (Inl (rans_error invalid_state ''set rANS stream before decoding''), c)
      else if cdf_group \<ge> length (rc_cdf_rows c) then Some (Inl (rans_invalid ''unknown CDF group''), c)
      else if list_ex (\<lambda>row. row \<ge> rc_cdf_rows c ! cdf_group) indexes then
        Some (Inl (rans_invalid ''y decode index exceeds CDF rows''), c)
      else if indexes = [] then Some (Inr [], c)
      else if rc_use_two_coders c \<and> length indexes < 2 then
        Some (Inl (rans_invalid ''two-coder y indexes must contain at least two entries''), c)
      else
        let half = length indexes div 2 in
        run_decoders
          (\<lambda>d. decoder_run (decoder_decode_y (rd_groups d)
             (take (if rc_use_two_coders c then half else length indexes) indexes) cdf_group) d)
          (\<lambda>d. decoder_run (decoder_decode_y (rd_groups d) (drop half indexes) cdf_group) d) c)"

definition codec_decode_z ::
  "nat \<Rightarrow> nat \<Rightarrow> nat \<Rightarrow> nat \<Rightarrow> rans_codec \<Rightarrow> (int list result \<times> rans_codec) option" where
  "codec_decode_z symbol_count cdf_group start_offset per_channel_size c =
     (if \<not> rc_stream_set c then
        Some (Inl (rans_error invalid_state ''set rANS stream before decoding''), c)
      else if cdf_group \<ge> length (rc_cdf_rows c) then Some (Inl (rans_invalid ''unknown CDF group''), c)
      else if per_channel_size = 0 \<or> symbol_count mod per_channel_size \<noteq> 0 then
        Some (Inl (rans_invalid ''z decode count must contain complete non-empty channels''), c)
      else
        let channel_count = symbol_count div per_channel_size in
        if start_offset > rc_cdf_rows c ! cdf_group
            \<or> channel_count > rc_cdf_rows c ! cdf_group - start_offset then
          Some (Inl (rans_invalid ''z decode count exceeds CDF rows''), c)
        else if symbol_count = 0 then Some (Inr [], c)
        else
          let half = symbol_count div 2 in
          if rc_use_two_coders c \<and> (half = 0 \<or> half mod per_channel_size \<noteq> 0) then
            Some (Inl (rans_invalid ''two-coder z decode must split on a channel boundary''), c)
          else
            run_decoders
              (\<lambda>d. decoder_run (decoder_decode_z (rd_groups d)
                 (if rc_use_two_coders c then half else symbol_count) cdf_group start_offset per_channel_size) d)
              (\<lambda>d. decoder_run (decoder_decode_z (rd_groups d) (symbol_count - half) cdf_group
                 (start_offset + half div per_channel_size) per_channel_size) d) c)"

subsection \<open>Merged streams\<close>

lemma replicate_prefix:
  "k \<le> length xs \<Longrightarrow> (\<forall>i<k. xs ! i = x) \<Longrightarrow> take k xs = replicate k x"
  by (rule nth_equalityI) simp_all

lemma equal_tail_shared:
  assumes "stream0 \<noteq> []" "stream1 \<noteq> []"
  shows "equal_tail stream0 stream1 \<le> length stream1
     \<and> take (equal_tail stream0 stream1) (rev stream0) = drop (length stream1 - equal_tail stream0 stream1) stream1"
proof -
  let ?n = "min (min (length stream0) (length stream1)) 8"
  let ?zs = "take ?n (zip (rev stream0) (rev stream1))"
  define k where "k = length (takeWhile (\<lambda>(a, b). a = 0 \<and> b = 0) ?zs)"
  have k: "k \<le> length stream0" "k \<le> length stream1" "k \<le> length ?zs"
    using length_takeWhile_le [of "\<lambda>(a, b). a = 0 \<and> b = 0" ?zs] by (simp_all add: k_def)
  have z: "rev stream0 ! i = 0 \<and> rev stream1 ! i = 0" if "i < k" for i
  proof -
    have i: "i < length stream0" "i < length stream1" "i < ?n" using that k by auto
    have "(case ?zs ! i of (a, b) \<Rightarrow> a = 0 \<and> b = 0)"
      using that nth_mem [of i "takeWhile (\<lambda>(a, b). a = 0 \<and> b = 0) ?zs"] set_takeWhileD
        takeWhile_nth [of i "\<lambda>(a, b). a = 0 \<and> b = 0" ?zs] by (metis (no_types, lifting) k_def)
    then show ?thesis using i by simp
  qed
  show ?thesis
  proof (cases "k = 0 \<and> last stream0 = last stream1")
    case True
    have e: "equal_tail stream0 stream1 = 1"
      using True k_def by (simp add: equal_tail_def Let_def)
    have t: "take 1 (rev stream0) = [last stream0]" using assms by (simp add: take_Suc hd_rev)
    have d: "drop (length stream1 - 1) stream1 = [last stream1]"
      using assms by (cases stream1 rule: rev_cases) simp_all
    show ?thesis unfolding e t d using True assms by (simp add: Suc_leI)
  next
    case False
    then have e: "equal_tail stream0 stream1 = k" by (simp add: equal_tail_def Let_def k_def)
    have "take k (rev stream0) = replicate k 0" "take k (rev stream1) = replicate k 0"
      using z k by (auto intro!: replicate_prefix)
    moreover have "take k (rev stream1) = rev (drop (length stream1 - k) stream1)"
      using k by (simp add: rev_drop)
    ultimately have "take k (rev stream0) = drop (length stream1 - k) stream1"
      by (metis rev_replicate rev_rev_ident)
    then show ?thesis unfolding e using k by simp
  qed
qed

text \<open>The first stream is a prefix of the merged one, and the second of its reverse.\<close>

lemma merge_streams_prefixes:
  assumes "stream0 \<noteq> []" "stream1 \<noteq> []"
  shows "\<exists>rest0 rest1. merge_streams stream0 stream1 = stream0 @ rest0
     \<and> rev (merge_streams stream0 stream1) = stream1 @ rest1"
proof -
  let ?k = "equal_tail stream0 stream1"
  note t = equal_tail_shared [OF assms]
  have "rev (merge_streams stream0 stream1)
      = take (length stream1 - ?k) stream1 @ take ?k (rev stream0) @ drop ?k (rev stream0)"
    by (simp add: merge_streams_def)
  then have "rev (merge_streams stream0 stream1) = stream1 @ drop ?k (rev stream0)"
    using t by (metis append_assoc append_take_drop_id)
  then show ?thesis by (auto simp: merge_streams_def)
qed

subsection \<open>Sessions\<close>

text \<open>The calls of an encode session, and the calls that read the same tensors back.\<close>

datatype rans_op =
    PutY "int list" nat
  | PutZ "int list" nat nat nat

fun encode_op :: "rans_op \<Rightarrow> rans_codec \<Rightarrow> unit result \<times> rans_codec" where
  "encode_op (PutY combined_symbols g) c = codec_encode_y combined_symbols g c"
| "encode_op (PutZ symbols g start_offset per_channel_size) c =
     codec_encode_z symbols g start_offset per_channel_size c"

fun encode_ops :: "rans_op list \<Rightarrow> rans_codec \<Rightarrow> unit result \<times> rans_codec" where
  "encode_ops [] c = (Inr (), c)"
| "encode_ops (op # ops) c =
     (case encode_op op c of (Inl e, c') \<Rightarrow> (Inl e, c') | (Inr _, c') \<Rightarrow> encode_ops ops c')"

fun decode_op :: "rans_op \<Rightarrow> rans_codec \<Rightarrow> (int list result \<times> rans_codec) option" where
  "decode_op (PutY combined_symbols g) c = codec_decode_y (map (\<lambda>s. nat (s mod 256)) combined_symbols) g c"
| "decode_op (PutZ symbols g start_offset per_channel_size) c =
     codec_decode_z (length symbols) g start_offset per_channel_size c"

fun decode_ops :: "rans_op list \<Rightarrow> rans_codec \<Rightarrow> (int list list result \<times> rans_codec) option" where
  "decode_ops [] c = Some (Inr [], c)"
| "decode_ops (op # ops) c =
     (case decode_op op c of
        None \<Rightarrow> None
      | Some (Inl e, c') \<Rightarrow> Some (Inl e, c')
      | Some (Inr v, c') \<Rightarrow>
        (case decode_ops ops c' of
           None \<Rightarrow> None
         | Some (Inl e, c'') \<Rightarrow> Some (Inl e, c'')
         | Some (Inr vs, c'') \<Rightarrow> Some (Inr (v # vs), c'')))"

fun op_values :: "rans_op \<Rightarrow> int list" where
  "op_values (PutY combined_symbols g) = map (\<lambda>s. s div 256) combined_symbols"
| "op_values (PutZ symbols g start_offset per_channel_size) = symbols"

fun op_in_range :: "rans_op \<Rightarrow> bool" where
  "op_in_range (PutY combined_symbols g) \<longleftrightarrow> (\<forall>s \<in> set combined_symbols. - 32768 \<le> s \<and> s < 32768)"
| "op_in_range (PutZ symbols g start_offset per_channel_size) \<longleftrightarrow> (\<forall>s \<in> set symbols. - 128 \<le> s \<and> s < 128)"

definition codec_tables :: "decoder_group list \<Rightarrow> rans_codec \<Rightarrow> bool" where
  "codec_tables groups c \<longleftrightarrow> list_all valid_group groups
     \<and> re_groups (rc_encoder0 c) = map encoder_of groups \<and> re_groups (rc_encoder1 c) = map encoder_of groups
     \<and> rd_groups (rc_decoder0 c) = groups \<and> rd_groups (rc_decoder1 c) = groups
     \<and> rc_cdf_rows c = map (length \<circ> dg_cdfs) groups"

definition fresh_encoder :: "rans_codec \<Rightarrow> bool" where
  "fresh_encoder c \<longleftrightarrow> re_pending (rc_encoder0 c) = [] \<and> re_pending (rc_encoder1 c) = []
     \<and> \<not> rc_encoder_has_symbols c \<and> \<not> rc_encoder_finished c"

lemma fresh_reset: "fresh_encoder (reset_encoder c)"
  by (simp add: fresh_encoder_def reset_encoder_def)

subsection \<open>Tables of a codec\<close>

lemma validate_rows_ok:
  "validate_rows k rows = Inr () \<Longrightarrow> i < length rows \<Longrightarrow>
     validate_row (k + i) (fst (rows ! i)) (snd (rows ! i)) = Inr ()"
proof (induction rows arbitrary: k i)
  case (Cons r rows)
  obtain row sz where r: "r = (row, sz)" by (cases r)
  have "validate_row k row sz = Inr ()" "validate_rows (Suc k) rows = Inr ()"
    using Cons.prems r by (auto simp: res_bind_def split: sum.splits)
  then show ?case using Cons.IH [of "Suc k" "i - 1"] Cons.prems r by (cases i) simp_all
qed simp

lemma validate_row_valid:
  assumes "validate_row k row sz = Inr ()" "3 \<le> sz"
  shows "valid_row row sz"
proof -
  have "\<not> (sz < 2 \<or> nat sz > length row)" "\<not> (hd row \<noteq> 0 \<or> row ! (nat sz - 1) \<noteq> cdf_total)"
    and i: "\<not> (\<exists>index \<in> set [1..<nat sz]. row ! index \<le> row ! (index - 1))"
    using assms(1) unfolding validate_row_def by (auto split: if_splits)
  moreover have "row ! j < row ! Suc j" if "Suc j < nat sz" for j
    using i that by (auto dest!: bspec [of _ _ "Suc j"] simp: not_le)
  moreover have "row \<noteq> []" using calculation(1) assms(2) by auto
  ultimately show ?thesis using assms(2) by (auto simp: valid_row_def cdf_total_def hd_conv_nth)
qed

definition wide_table :: "rans_cdf_table \<Rightarrow> bool" where
  "wide_table t \<longleftrightarrow> list_all (\<lambda>sz. 3 \<le> sz) (ct_sizes t) \<and> list_all (\<lambda>off. \<bar>off\<bar> < 2 ^ 28) (ct_offsets t)"

definition group_of :: "rans_cdf_table \<Rightarrow> decoder_group" where
  "group_of t = \<lparr>dg_cdfs = ct_values t, dg_sizes = ct_sizes t, dg_offsets = ct_offsets t\<rparr>"

lemma validate_cdf_valid:
  assumes "validate_cdf t = Inr ()" "wide_table t"
  shows "valid_group (group_of t)"
proof -
  have len: "length (ct_sizes t) = length (ct_values t)" "length (ct_offsets t) = length (ct_values t)"
    and rows: "validate_rows 0 (zip (ct_values t) (ct_sizes t)) = Inr ()"
    using assms(1) unfolding validate_cdf_def by (auto split: if_splits)
  have "valid_row (ct_values t ! i) (ct_sizes t ! i) \<and> \<bar>ct_offsets t ! i\<bar> < 2 ^ 28" if "i < length (ct_values t)" for i
    using validate_rows_ok [OF rows, of i] validate_row_valid [of i] that len assms(2)
    by (simp add: wide_table_def list_all_length)
  then show ?thesis by (simp add: valid_group_def group_of_def len)
qed

lemma add_cdf_tables:
  assumes "codec_tables groups c" "validate_cdf t = Inr ()" "wide_table t"
  shows "fst (add_cdf t c) = Inr (length groups) \<and> codec_tables (groups @ [group_of t]) (snd (add_cdf t c))"
  using assms(1,2) validate_cdf_valid [OF assms(2,3)]
  by (simp add: add_cdf_def codec_tables_def encoder_add_cdf_def decoder_add_cdf_def group_of_def encoder_of_def)

lemma make_codec_tables: "codec_tables [] make_rans_codec" "fresh_encoder make_rans_codec"
  by (simp_all add: codec_tables_def fresh_encoder_def make_rans_codec_def)

subsection \<open>Encode sessions\<close>

text \<open>The tasks a call gives to the first and to the second encoder.\<close>

fun op_tasks :: "bool \<Rightarrow> rans_op \<Rightarrow> pending_task list \<times> pending_task list" where
  "op_tasks two (PutY cs g) =
     (let half = length cs div 2 in
      if cs = [] then ([], [])
      else ([TaskY (take (if two then half else length cs) cs) g], if two then [TaskY (drop half cs) g] else []))"
| "op_tasks two (PutZ zs g start per) =
     (let half = length zs div 2 in
      if zs = [] then ([], [])
      else ([TaskZ (take (if two then half else length zs) zs) g start per],
            if two then [TaskZ (drop half zs) g (start + half div per) per] else []))"

fun op_accepted :: "bool \<Rightarrow> nat list \<Rightarrow> rans_op \<Rightarrow> bool" where
  "op_accepted two rows (PutY cs g) \<longleftrightarrow>
     g < length rows \<and> (\<forall>c \<in> set cs. nat (c mod 256) < rows ! g) \<and> (two \<longrightarrow> length cs \<noteq> 1)"
| "op_accepted two rows (PutZ zs g start per) \<longleftrightarrow>
     g < length rows \<and> per \<noteq> 0 \<and> length zs mod per = 0 \<and> start + length zs div per \<le> rows ! g
     \<and> (two \<longrightarrow> zs \<noteq> [] \<longrightarrow> length zs div 2 \<noteq> 0 \<and> length zs div 2 mod per = 0)"

definition append_tasks :: "pending_task list \<times> pending_task list \<Rightarrow> rans_codec \<Rightarrow> rans_codec" where
  "append_tasks ts c =
     c\<lparr>rc_encoder0 := (rc_encoder0 c)\<lparr>re_pending := re_pending (rc_encoder0 c) @ fst ts\<rparr>,
       rc_encoder1 := (rc_encoder1 c)\<lparr>re_pending := re_pending (rc_encoder1 c) @ snd ts\<rparr>,
       rc_encoder_has_symbols := rc_encoder_has_symbols c \<or> fst ts \<noteq> []\<rparr>"

lemma append_no_tasks: "append_tasks ([], []) c = c"
  by (simp add: append_tasks_def)

lemma append_append_tasks:
  "append_tasks ts' (append_tasks ts c) = append_tasks (fst ts @ fst ts', snd ts @ snd ts') c"
  by (simp add: append_tasks_def)

lemma encode_op_accepted:
  assumes "encode_op op c = (Inr (), c')"
  shows "op_accepted (rc_use_two_coders c) (rc_cdf_rows c) op
     \<and> c' = append_tasks (op_tasks (rc_use_two_coders c) op) c"
proof (cases op)
  case (PutY cs g)
  show ?thesis
  proof (cases "cs = []")
    case False
    then show ?thesis using assms PutY
      by (auto simp: codec_encode_y_def append_tasks_def push_task_def Let_def list_ex_iff not_le
          split: if_splits)
  qed (use assms PutY in \<open>auto simp: codec_encode_y_def append_no_tasks split: if_splits\<close>)
next
  case (PutZ zs g start per)
  show ?thesis
  proof (cases "zs = []")
    case False
    then show ?thesis using assms PutZ
      by (auto simp: codec_encode_z_def append_tasks_def push_task_def Let_def not_le not_less
          split: if_splits)
  qed (use assms PutZ in \<open>auto simp: codec_encode_z_def append_no_tasks split: if_splits\<close>)
qed

definition ops_tasks :: "bool \<Rightarrow> rans_op list \<Rightarrow> pending_task list \<times> pending_task list" where
  "ops_tasks two ops = (concat (map (fst \<circ> op_tasks two) ops), concat (map (snd \<circ> op_tasks two) ops))"

lemma append_tasks_keeps [simp]:
  "rc_use_two_coders (append_tasks ts c) = rc_use_two_coders c"
  "rc_cdf_rows (append_tasks ts c) = rc_cdf_rows c"
  by (simp_all add: append_tasks_def)

lemma encode_ops_accepted:
  assumes "encode_ops ops c = (Inr (), c')"
  shows "list_all (op_accepted (rc_use_two_coders c) (rc_cdf_rows c)) ops
     \<and> c' = append_tasks (ops_tasks (rc_use_two_coders c) ops) c"
  using assms
proof (induction ops arbitrary: c)
  case Nil
  then show ?case by (simp add: ops_tasks_def append_no_tasks)
next
  case (Cons op ops)
  then obtain c1 where "encode_op op c = (Inr (), c1)" "encode_ops ops c1 = (Inr (), c')"
    by (auto split: prod.splits sum.splits)
  with encode_op_accepted Cons.IH show ?case
    by (fastforce simp: append_append_tasks ops_tasks_def)
qed

abbreviation task_values :: "pending_task \<Rightarrow> int list" where
  "task_values t \<equiv> map fst (task_symbols t)"

lemma task_values_simps:
  "task_values (TaskY cs g) = map (\<lambda>c. c div 256) cs" "task_values (TaskZ zs g start per) = zs"
  by (simp_all add: comp_def map_nth)

lemma task_rows_simps:
  "map snd (task_symbols (TaskY cs g)) = map (\<lambda>c. nat (c mod 256)) cs"
  "map snd (task_symbols (TaskZ zs g start per)) = map (\<lambda>i. i div per + start) [0..<length zs]"
  by (simp_all add: comp_def)

lemma valid_task_y:
  assumes "g < length groups" "\<forall>c \<in> set cs. - 32768 \<le> c \<and> c < 32768 \<and> nat (c mod 256) < length (dg_cdfs (groups ! g))"
  shows "valid_task groups (TaskY cs g)"
  using assms by (auto simp: valid_task_def)

lemma valid_task_z:
  assumes "g < length groups" "\<forall>z \<in> set zs. - 128 \<le> z \<and> z < 128" "per \<noteq> 0" "length zs mod per = 0"
    "start + length zs div per \<le> length (dg_cdfs (groups ! g))"
  shows "valid_task groups (TaskZ zs g start per)"
proof -
  have "i div per + start < length (dg_cdfs (groups ! g))" if "i < length zs" for i
  proof -
    have "length zs = length zs div per * per" using assms(4) by auto
    then have "i div per < length zs div per" using that assms(3) by (metis div_less_iff_less_mult gr0I)
    then show ?thesis using assms(5) by simp
  qed
  then show ?thesis using assms(1,2) by (auto simp: valid_task_def)
qed

lemma op_tasks_valid:
  assumes "op_accepted two (map (length \<circ> dg_cdfs) groups) op" "op_in_range op"
    "t \<in> set (fst (op_tasks two op)) \<union> set (snd (op_tasks two op))"
  shows "valid_task groups t \<and> task_symbols t \<noteq> []"
proof (cases op)
  case (PutY cs g)
  have ne: "cs \<noteq> []" using assms(3) PutY by (cases cs) auto
  have g: "g < length groups"
    and cs: "\<forall>c \<in> set cs. - 32768 \<le> c \<and> c < 32768 \<and> nat (c mod 256) < length (dg_cdfs (groups ! g))"
    using assms(1,2) PutY by auto
  have sub: "set cs' \<subseteq> set cs \<Longrightarrow> valid_task groups (TaskY cs' g)" for cs'
    using cs by (intro valid_task_y [OF g]) auto
  have "two \<Longrightarrow> length cs div 2 \<noteq> 0 \<and> length cs div 2 < length cs" using assms(1) PutY ne
    by (cases cs) (auto simp: div_eq_0_iff)
  then show ?thesis
    using assms(3) PutY ne sub [OF set_take_subset] sub [OF set_drop_subset] sub [OF subset_refl]
    by (auto simp: Let_def split: if_splits)
next
  case (PutZ zs g start per)
  let ?half = "length zs div 2"
  have ne: "zs \<noteq> []" using assms(3) PutZ by (cases zs) auto
  have g: "g < length groups" and zs: "\<forall>z \<in> set zs. - 128 \<le> z \<and> z < 128" and per: "per \<noteq> 0" "length zs mod per = 0"
    and bound: "start + length zs div per \<le> length (dg_cdfs (groups ! g))"
    and half: "two \<Longrightarrow> ?half \<noteq> 0 \<and> ?half mod per = 0"
    using assms(1,2) PutZ ne by auto
  have h: "?half \<le> length zs" by simp
  have split: "(length zs - ?half) mod per = 0" "?half div per + (length zs - ?half) div per = length zs div per" if two: "two"
  proof -
    obtain a b where ab: "?half = per * a" "length zs = per * b" using half [OF two] per(2) by (meson dvdE mod_eq_0_iff_dvd)
    have e: "length zs - ?half = per * (b - a)" unfolding ab(1) unfolding ab(2) by (simp add: diff_mult_distrib2)
    then show "(length zs - ?half) mod per = 0" by simp
    have "a \<le> b" using ab h per(1) by simp
    moreover have "?half div per = a" unfolding ab(1) using per(1) by simp
    moreover have "length zs div per = b" unfolding ab(2) using per(1) by simp
    moreover have "(length zs - ?half) div per = b - a" unfolding e using per(1) by simp
    ultimately show "?half div per + (length zs - ?half) div per = length zs div per" by simp
  qed
  consider "t = TaskZ zs g start per" | "two" "t = TaskZ (take ?half zs) g start per"
    | "two" "t = TaskZ (drop ?half zs) g (start + ?half div per) per"
    using assms(3) PutZ ne by (auto simp: Let_def split: if_splits)
  then show ?thesis
  proof cases
    case 1
    then show ?thesis using valid_task_z [OF g zs per bound] ne by simp
  next
    case 2
    have "valid_task groups t" unfolding 2(2)
      using half [OF 2(1)] bound split [OF 2(1)] zs per(1)
      by (intro valid_task_z g) (auto dest: in_set_takeD simp: min_absorb2)
    then show ?thesis using 2 half ne by simp
  next
    case 3
    have "valid_task groups t" unfolding 3(2)
      using bound split [OF 3(1)] zs per(1)
      by (intro valid_task_z g) (auto dest: in_set_dropD)
    moreover have "length zs - ?half \<noteq> 0" using ne by (cases zs) auto
    ultimately show ?thesis using 3 by simp
  qed
qed

lemma decode_single_task:
  "decode_tasks groups [t] st = Some ([v], st')
     \<longleftrightarrow> decode_rows (groups ! task_group t) (map snd (task_symbols t)) st = Some (v, st')"
  by (cases st') (auto simp: bind_eq_Some_conv case_prod_beta')

lemma decoder_run_state: "f (rd_state d) = Some (v, st) \<Longrightarrow> decoder_run f d = Some (v, d\<lparr>rd_state := st\<rparr>)"
  by (simp add: decoder_run_def)

lemma decode_op_tasks:
  assumes c: "codec_tables groups c" "rc_stream_set c" and ok: "op_accepted (rc_use_two_coders c) (rc_cdf_rows c) op"
    and d0: "decode_tasks groups (fst (op_tasks (rc_use_two_coders c) op)) (rd_state (rc_decoder0 c))
      = Some (map task_values (fst (op_tasks (rc_use_two_coders c) op)), st0)"
    and d1: "decode_tasks groups (snd (op_tasks (rc_use_two_coders c) op)) (rd_state (rc_decoder1 c))
      = Some (map task_values (snd (op_tasks (rc_use_two_coders c) op)), st1)"
  shows "decode_op op c = Some (Inr (op_values op),
     c\<lparr>rc_decoder0 := (rc_decoder0 c)\<lparr>rd_state := st0\<rparr>, rc_decoder1 := (rc_decoder1 c)\<lparr>rd_state := st1\<rparr>\<rparr>)"
proof (cases op)
  case (PutY cs g)
  let ?half = "length cs div 2" and ?rows = "map (\<lambda>s. nat (s mod 256)) cs"
  have g: "g < length (rc_cdf_rows c)" "\<not> list_ex (\<lambda>row. row \<ge> rc_cdf_rows c ! g) ?rows"
    using ok PutY by (auto simp: list_ex_iff not_le)
  have groups: "rd_groups (rc_decoder0 c) = groups" "rd_groups (rc_decoder1 c) = groups"
    using c(1) by (simp_all add: codec_tables_def)
  show ?thesis
  proof (cases "cs = []")
    case True
    then show ?thesis using PutY c(2) g d0 d1 by (simp add: codec_decode_y_def)
  next
    case False
    show ?thesis
    proof (cases "rc_use_two_coders c")
      case True
      have "decode_rows (groups ! g) (take ?half ?rows) (rd_state (rc_decoder0 c))
          = Some (map (\<lambda>c. c div 256) (take ?half cs), st0)"
        "decode_rows (groups ! g) (drop ?half ?rows) (rd_state (rc_decoder1 c))
          = Some (map (\<lambda>c. c div 256) (drop ?half cs), st1)"
        using d0 d1 PutY True False
        by (simp_all add: Let_def decode_single_task task_values_simps task_rows_simps take_map drop_map
            del: decode_tasks.simps task_symbols.simps)
      moreover have "take ?half (map (\<lambda>c. c div 256) cs) @ drop ?half (map (\<lambda>c. c div 256) cs) = map (\<lambda>c. c div 256) cs"
        by (rule append_take_drop_id)
      moreover have "\<not> length cs < 2" using ok PutY True False by (cases cs) auto
      ultimately show ?thesis using PutY c(2) g groups True False
        by (simp add: codec_decode_y_def run_decoders_def decoder_run_state decoder_decode_y_def
            take_map drop_map Let_def flip: map_append)
    next
      case one: False
      have "decode_rows (groups ! g) ?rows (rd_state (rc_decoder0 c)) = Some (map (\<lambda>c. c div 256) cs, st0)"
        using d0 PutY one False
        by (simp add: Let_def decode_single_task task_values_simps task_rows_simps
            del: decode_tasks.simps task_symbols.simps)
      then show ?thesis using PutY c(2) g groups one False d1
        by (simp add: codec_decode_y_def run_decoders_def decoder_run_state decoder_decode_y_def Let_def)
    qed
  qed
next
  case (PutZ zs g start per)
  let ?half = "length zs div 2"
  have g: "g < length (rc_cdf_rows c)" "per \<noteq> 0" "length zs mod per = 0" "\<not> start > rc_cdf_rows c ! g"
    "\<not> length zs div per > rc_cdf_rows c ! g - start"
    using ok PutZ by auto
  have groups: "rd_groups (rc_decoder0 c) = groups" "rd_groups (rc_decoder1 c) = groups"
    using c(1) by (simp_all add: codec_tables_def)
  show ?thesis
  proof (cases "zs = []")
    case True
    then show ?thesis using PutZ c(2) g d0 d1 by (simp add: codec_decode_z_def)
  next
    case False
    show ?thesis
    proof (cases "rc_use_two_coders c")
      case True
      have "decode_rows (groups ! g) (map (\<lambda>i. i div per + start) [0..<?half]) (rd_state (rc_decoder0 c))
          = Some (take ?half zs, st0)"
        "decode_rows (groups ! g) (map (\<lambda>i. i div per + (start + ?half div per)) [0..<length zs - ?half])
          (rd_state (rc_decoder1 c)) = Some (drop ?half zs, st1)"
        using d0 d1 PutZ True False
        by (simp_all add: Let_def decode_single_task task_values_simps task_rows_simps min_absorb2
            del: decode_tasks.simps task_symbols.simps)
      then show ?thesis using PutZ c(2) g groups True False ok
        by (simp add: codec_decode_z_def run_decoders_def decoder_run_state decoder_decode_z_def Let_def)
    next
      case one: False
      have "decode_rows (groups ! g) (map (\<lambda>i. i div per + start) [0..<length zs]) (rd_state (rc_decoder0 c))
          = Some (zs, st0)"
        using d0 PutZ one False
        by (simp add: Let_def decode_single_task task_values_simps task_rows_simps
            del: decode_tasks.simps task_symbols.simps)
      then show ?thesis using PutZ c(2) g groups one False d1
        by (simp add: codec_decode_z_def run_decoders_def decoder_run_state decoder_decode_z_def Let_def)
    qed
  qed
qed

lemma decode_tasks_append:
  assumes "decode_tasks groups (ts @ us) st = Some (vs @ ws, st'')" "length vs = length ts"
  shows "\<exists>st'. decode_tasks groups ts st = Some (vs, st') \<and> decode_tasks groups us st' = Some (ws, st'')"
  using assms
proof (induction ts arbitrary: st vs)
  case (Cons t ts)
  then obtain v vs' where "vs = v # vs'" "length vs' = length ts" by (cases vs) auto
  with Cons.prems(1) Cons.IH [of _ vs'] show ?case
    by (fastforce simp: bind_eq_Some_conv)
qed simp

text \<open>Both decoders run through the tasks of the session.\<close>

lemma decode_ops_tasks:
  assumes "codec_tables groups c" "rc_stream_set c" "list_all (op_accepted (rc_use_two_coders c) (rc_cdf_rows c)) ops"
    "decode_tasks groups (fst (ops_tasks (rc_use_two_coders c) ops)) (rd_state (rc_decoder0 c))
      = Some (map task_values (fst (ops_tasks (rc_use_two_coders c) ops)), st0)"
    "decode_tasks groups (snd (ops_tasks (rc_use_two_coders c) ops)) (rd_state (rc_decoder1 c))
      = Some (map task_values (snd (ops_tasks (rc_use_two_coders c) ops)), st1)"
  shows "\<exists>c'. decode_ops ops c = Some (Inr (map op_values ops), c')"
  using assms
proof (induction ops arbitrary: c)
  case (Cons op ops)
  let ?two = "rc_use_two_coders c"
  have parts: "fst (ops_tasks ?two (op # ops)) = fst (op_tasks ?two op) @ fst (ops_tasks ?two ops)"
    "snd (ops_tasks ?two (op # ops)) = snd (op_tasks ?two op) @ snd (ops_tasks ?two ops)"
    by (simp_all add: ops_tasks_def)
  obtain m0 where m0: "decode_tasks groups (fst (op_tasks ?two op)) (rd_state (rc_decoder0 c))
        = Some (map task_values (fst (op_tasks ?two op)), m0)"
      "decode_tasks groups (fst (ops_tasks ?two ops)) m0 = Some (map task_values (fst (ops_tasks ?two ops)), st0)"
    using decode_tasks_append [OF Cons.prems(4) [unfolded parts map_append]] by auto
  obtain m1 where m1: "decode_tasks groups (snd (op_tasks ?two op)) (rd_state (rc_decoder1 c))
        = Some (map task_values (snd (op_tasks ?two op)), m1)"
      "decode_tasks groups (snd (ops_tasks ?two ops)) m1 = Some (map task_values (snd (ops_tasks ?two ops)), st1)"
    using decode_tasks_append [OF Cons.prems(5) [unfolded parts map_append]] by auto
  let ?c = "c\<lparr>rc_decoder0 := (rc_decoder0 c)\<lparr>rd_state := m0\<rparr>, rc_decoder1 := (rc_decoder1 c)\<lparr>rd_state := m1\<rparr>\<rparr>"
  have "decode_op op c = Some (Inr (op_values op), ?c)"
    using decode_op_tasks [OF Cons.prems(1,2) _ m0(1) m1(1)] Cons.prems(3) by simp
  moreover have "\<exists>c'. decode_ops ops ?c = Some (Inr (map op_values ops), c')"
    using Cons.prems(1-3) m0(2) m1(2) by (intro Cons.IH) (simp_all add: codec_tables_def)
  ultimately show ?case by auto
qed simp

lemma total_symbols_positive:
  "ts \<noteq> [] \<Longrightarrow> \<forall>t \<in> set ts. task_symbols t \<noteq> [] \<Longrightarrow> total_symbol_size ts \<noteq> 0"
  by (cases ts) (simp_all add: total_symbol_size_def)

lemma two_tasks: "two \<Longrightarrow> fst (ops_tasks two ops) = [] \<longleftrightarrow> snd (ops_tasks two ops) = []"
proof -
  assume "two"
  then have "fst (op_tasks two op) = [] \<longleftrightarrow> snd (op_tasks two op) = []" for op
    by (cases op) (simp_all add: Let_def)
  then show ?thesis by (simp add: ops_tasks_def)
qed

text \<open>One encoder of a session and the decoder that reads its stream, whatever follows it.\<close>

lemma coder_decodes:
  assumes "list_all valid_group groups" "\<forall>t \<in> set ts. valid_task groups t \<and> task_symbols t \<noteq> []" "ts \<noteq> []"
  obtains stream where "encoder_flush (map encoder_of groups) ts = Some stream" "4 \<le> length stream"
    "\<And>rest. \<exists>st. rans_dec_init (stream @ rest) = Some st
       \<and> decode_tasks groups ts st = Some (map task_values ts, rans_enc_init, rest)"
  using flush_decodes [of groups ts] total_symbols_positive [of ts] assms by (auto simp: list_all_iff)

lemma session_decodes:
  assumes enc: "codec_tables groups enc" "fresh_encoder enc" and dec: "codec_tables groups dec"
    and mode: "rc_use_two_coders dec = rc_use_two_coders enc"
    and range: "list_all op_in_range ops"
    and run: "encode_ops ops enc = (Inr (), enc')" and some: "rc_encoder_has_symbols enc'"
  shows "\<exists>bytes enc'' dec' dec''. finish_encode enc' = Some (Inr bytes, enc'') \<and> rc_encoder_finished enc''
     \<and> set_stream bytes dec = Some (Inr (), dec')
     \<and> decode_ops ops dec' = Some (Inr (map op_values ops), dec'')"
proof -
  let ?two = "rc_use_two_coders enc"
  let ?ts0 = "fst (ops_tasks ?two ops)" and ?ts1 = "snd (ops_tasks ?two ops)"
  note acc = encode_ops_accepted [OF run]
  have rows: "rc_cdf_rows enc = map (length \<circ> dg_cdfs) groups" "rc_cdf_rows dec = rc_cdf_rows enc"
    and valid: "list_all valid_group groups" using enc dec by (simp_all add: codec_tables_def)
  have enc': "re_pending (rc_encoder0 enc') = ?ts0" "re_pending (rc_encoder1 enc') = ?ts1" "?ts0 \<noteq> []"
    "re_groups (rc_encoder0 enc') = map encoder_of groups" "re_groups (rc_encoder1 enc') = map encoder_of groups"
    "rc_use_two_coders enc' = ?two" "\<not> rc_encoder_finished enc'"
    using acc enc some by (auto simp: append_tasks_def fresh_encoder_def codec_tables_def)
  have ts: "\<forall>t \<in> set ?ts0 \<union> set ?ts1. valid_task groups t \<and> task_symbols t \<noteq> []"
  proof
    fix t assume "t \<in> set ?ts0 \<union> set ?ts1"
    then obtain op where "op \<in> set ops" "t \<in> set (fst (op_tasks ?two op)) \<union> set (snd (op_tasks ?two op))"
      by (auto simp: ops_tasks_def)
    then show "valid_task groups t \<and> task_symbols t \<noteq> []"
      using op_tasks_valid [of ?two groups op t] acc range rows by (simp add: list_all_iff)
  qed
  then have ts0: "\<forall>t \<in> set ?ts0. valid_task groups t \<and> task_symbols t \<noteq> []"
    and ts1: "\<forall>t \<in> set ?ts1. valid_task groups t \<and> task_symbols t \<noteq> []" by blast+
  from coder_decodes [OF valid ts0 enc'(3)] obtain s0 where s0:
    "encoder_flush (map encoder_of groups) ?ts0 = Some s0" "4 \<le> length s0"
    "\<And>rest. \<exists>st. rans_dec_init (s0 @ rest) = Some st
       \<and> decode_tasks groups ?ts0 st = Some (map task_values ?ts0, rans_enc_init, rest)" by blast
  show ?thesis
  proof (cases ?two)
    case False
    have one: "snd (op_tasks False op) = []" for op by (cases op) (simp_all add: Let_def)
    then have "?ts1 = []" using False by (simp add: ops_tasks_def comp_def)
    from s0(3) [of "[]"] obtain st where
      st: "rans_dec_init s0 = Some st" "decode_tasks groups ?ts0 st = Some (map task_values ?ts0, rans_enc_init, [])" by auto
    let ?d = "dec\<lparr>rc_decoder0 := (rc_decoder0 dec)\<lparr>rd_state := st\<rparr>, rc_stream_set := True\<rparr>"
    have "\<exists>c'. decode_ops ops ?d = Some (Inr (map op_values ops), c')"
      by (rule decode_ops_tasks) (use dec mode acc rows st \<open>?ts1 = []\<close> in \<open>simp_all add: codec_tables_def\<close>)
    moreover have "set_stream s0 dec = Some (Inr (), ?d)"
      using s0(2) st mode False by (simp add: set_stream_def decoder_set_stream_def)
    moreover have "finish_encode enc' = Some (Inr s0, enc'\<lparr>rc_encoder_finished := True\<rparr>)"
      using enc' some s0 False by (simp add: finish_encode_def)
    ultimately show ?thesis by fastforce
  next
    case True
    then have "?ts1 \<noteq> []" using enc'(3) two_tasks by blast
    from coder_decodes [OF valid ts1 this] obtain s1 where s1:
      "encoder_flush (map encoder_of groups) ?ts1 = Some s1" "4 \<le> length s1"
      "\<And>rest. \<exists>st. rans_dec_init (s1 @ rest) = Some st
         \<and> decode_tasks groups ?ts1 st = Some (map task_values ?ts1, rans_enc_init, rest)" by blast
    have ne: "s0 \<noteq> []" "s1 \<noteq> []" using s0(2) s1(2) by auto
    from merge_streams_prefixes [OF this] obtain rest0 rest1 where
      m: "merge_streams s0 s1 = s0 @ rest0" "rev (merge_streams s0 s1) = s1 @ rest1" by blast
    obtain st0 where st0: "rans_dec_init (merge_streams s0 s1) = Some st0"
      "decode_tasks groups ?ts0 st0 = Some (map task_values ?ts0, rans_enc_init, rest0)" using s0(3) [of rest0] m(1) by auto
    obtain st1 where st1: "rans_dec_init (rev (merge_streams s0 s1)) = Some st1"
      "decode_tasks groups ?ts1 st1 = Some (map task_values ?ts1, rans_enc_init, rest1)" using s1(3) [of rest1] m(2) by auto
    let ?d = "dec\<lparr>rc_decoder0 := (rc_decoder0 dec)\<lparr>rd_state := st0\<rparr>,
        rc_decoder1 := (rc_decoder1 dec)\<lparr>rd_state := st1\<rparr>, rc_stream_set := True\<rparr>"
    have "\<exists>c'. decode_ops ops ?d = Some (Inr (map op_values ops), c')"
      by (rule decode_ops_tasks) (use dec mode acc rows st0 st1 in \<open>simp_all add: codec_tables_def\<close>)
    moreover have "\<not> length (merge_streams s0 s1) < 4" using s0(2) m(1) by simp
    then have "set_stream (merge_streams s0 s1) dec = Some (Inr (), ?d)"
      using st0(1) st1(1) mode True by (simp add: set_stream_def decoder_set_stream_def)
    moreover have "finish_encode enc' = Some (Inr (merge_streams s0 s1), enc'\<lparr>rc_encoder_finished := True\<rparr>)"
      using enc' some s0 s1 True ne by (simp add: finish_encode_def)
    ultimately show ?thesis by fastforce
  qed
qed

subsection \<open>Properties\<close>

text \<open>A codec as its client sets it up: every table added, then the coder mode chosen.\<close>

definition setup_codec :: "rans_cdf_table list \<Rightarrow> bool \<Rightarrow> rans_codec" where
  "setup_codec tables two =
     snd (set_use_two_coders two (fold (\<lambda>t c. snd (add_cdf t c)) tables make_rans_codec))"

lemma add_cdf_fresh: "fresh_encoder c \<Longrightarrow> fresh_encoder (snd (add_cdf t c))"
  by (auto simp: fresh_encoder_def add_cdf_def Let_def split: sum.splits prod.splits)

lemma setup_codec_tables:
  assumes "list_all (\<lambda>t. validate_cdf t = Inr () \<and> wide_table t) tables"
  shows "codec_tables (map group_of tables) (setup_codec tables two)" "fresh_encoder (setup_codec tables two)"
    "rc_use_two_coders (setup_codec tables two) = two"
proof -
  let ?c = "\<lambda>c. fold (\<lambda>t c. snd (add_cdf t c)) tables c"
  have "codec_tables (groups @ map group_of tables) (?c c) \<and> fresh_encoder (?c c)"
    if "codec_tables groups c" "fresh_encoder c" for groups c
    using assms that
  proof (induction tables arbitrary: groups c)
    case (Cons t ts)
    then have "codec_tables (groups @ [group_of t]) (snd (add_cdf t c))" "fresh_encoder (snd (add_cdf t c))"
      using add_cdf_tables add_cdf_fresh by simp_all
    from Cons.IH [OF _ this] Cons.prems(1) show ?case by simp
  qed simp
  from this [OF make_codec_tables] have c: "codec_tables (map group_of tables) (?c make_rans_codec)"
    "fresh_encoder (?c make_rans_codec)" by simp_all
  then have s: "setup_codec tables two = (?c make_rans_codec)\<lparr>rc_use_two_coders := two\<rparr>"
    by (simp add: setup_codec_def set_use_two_coders_def fresh_encoder_def)
  show "codec_tables (map group_of tables) (setup_codec tables two)" "fresh_encoder (setup_codec tables two)"
    "rc_use_two_coders (setup_codec tables two) = two"
    using c unfolding s by (simp_all add: codec_tables_def fresh_encoder_def)
qed





lemma enc_renorm_zero: "rans_enc_renorm 0 x out = None"
proof -
  have "x_max \<noteq> 0" if "rans_enc_renorm x_max x out = Some y" for x_max x out y
    using rans_enc_renorm.raw_induct [where P = "\<lambda>x_max x out y. x_max \<noteq> 0" and xa = "((x_max, x), out)"] that
    by (auto split: if_splits)
  from this [of 0 x out] show ?thesis by (cases "rans_enc_renorm 0 x out") blast+
qed

lemma enc_put_zero: "rans_enc_put start 0 st = None"
  by (simp add: rans_enc_put_def renorm_limit_def enc_renorm_zero)

text \<open>
  Property C37. \<open>validate_cdf\<close> accepts a row with two entries, but the 16-bit range of its only symbol
  wraps to zero and the encoder's renormalisation loop has no end: \<open>finish_encode\<close> does not return.
\<close>

theorem two_entry_row_never_returns:
  "let (r1, c) = add_cdf \<lparr>ct_values = [[0, 65536]], ct_sizes = [2], ct_offsets = [0]\<rparr> make_rans_codec;
       (r2, c) = codec_encode_y [256 * symbol] 0 c in
   r1 = Inr 0 \<and> r2 = Inr () \<and> finish_encode c = None"
proof -
  have sym: "row_symbols [0, 65536] ! 0 = \<lparr>rs_start = 0, rs_range = 0\<rparr>" by (simp add: row_symbols_def)
  have none: "Option.bind st (rans_enc_put start 0) = None" for st start
    by (cases st) (simp_all add: enc_put_zero)
  have "encode_one_symbol symbol 2 0 (row_symbols [0, 65536]) st = None" for st
    using sym by (simp add: encode_one_symbol_def Let_def none)
  then show ?thesis
    by (simp add: add_cdf_def validate_cdf_def validate_row_def res_bind_def cdf_total_def make_rans_codec_def
        encoder_add_cdf_def decoder_add_cdf_def codec_encode_y_def push_task_def finish_encode_def
        encoder_flush_def total_symbol_size_def encode_task_def encode_symbol_def Let_def)
qed

end
