(* ===== verification/Registry.thy ===== *)
theory Registry
  imports Resolver Configuration
begin

text \<open>
  \<^verbatim>\<open>include/nvcr/codec/descriptor.hpp\<close>, \<^verbatim>\<open>include/nvcr/runtime/registry.hpp\<close>,
  \<^verbatim>\<open>src/runtime/registry.cpp\<close>: the process-wide registry of codecs and execution providers, and
  \<open>RuntimeServices\<close>, which picks a provider for an artifact or a configuration. A \<open>std::function\<close>
  member is an optional function; adapters, executables, component bundles and provider sessions,
  which other code supplies, are type parameters. The mutex makes every call atomic. Both tables
  are instances of one interface, the locale \<open>keyed_registry\<close>.
\<close>

subsection \<open>Entries\<close>

record codec_descriptor =
  cd_id :: string
  cd_display_name :: string
  cd_api_version :: u32

record codec_capabilities =
  cp_supports_intra :: bool
  cp_supports_predicted :: bool
  cp_supports_bidirectional :: bool
  cp_supports_hierarchical :: bool
  cp_supports_delayed_output :: bool
  cp_min_qp :: u32
  cp_max_qp :: u32

record option_declaration =
  od_name :: string
  od_type :: string
  od_description :: string
  od_default_value :: "string option"
  od_min_value :: "string option"
  od_max_value :: "string option"
  od_required :: bool

type_synonym option_schema = "option_declaration list"

datatype provider_kind = tensorrt | cpu_reference | onnx_runtime | cuda_fused

record provider_descriptor =
  pd_kind :: provider_kind
  pd_id :: string
  pd_version :: string
  pd_display_name :: string

record provider_capabilities =
  pv_supports_fp16 :: bool
  pv_supports_int8 :: bool
  pv_supports_dynamic_shapes :: bool
  pv_supports_cuda_graphs :: bool
  pv_target_device :: string

record 'x execution_provider =
  ep_supports :: "artifact_descriptor \<Rightarrow> bool"
  ep_load :: "artifact_descriptor \<Rightarrow> 'x result"

record 'a codec_entry =
  ce_descriptor :: codec_descriptor
  ce_capabilities :: codec_capabilities
  ce_encoder_options :: option_schema
  ce_decoder_options :: option_schema
  ce_factory :: "(unit \<Rightarrow> 'a option) option"

record ('x, 'c, 's) provider_entry =
  pe_descriptor :: provider_descriptor
  pe_capabilities :: provider_capabilities
  pe_factory :: "(unit \<Rightarrow> 'x execution_provider option) option"
  pe_component_factory :: "(runtime_configuration \<Rightarrow> 'c result) option"
  pe_session_factory :: "(runtime_configuration \<Rightarrow> 's result) option"

record ('a, 'x, 'c, 's) registry =
  rg_codecs :: "'a codec_entry list"
  rg_providers :: "('x, 'c, 's) provider_entry list"

definition make_registry :: "('a, 'x, 'c, 's) registry" where
  "make_registry = \<lparr>rg_codecs = [], rg_providers = []\<rparr>"

definition registry_error :: "error_code \<Rightarrow> string \<Rightarrow> error" where
  "registry_error c msg = Error c msg ''registry''"

subsection \<open>Registration and lookup\<close>

text \<open>The body of both registration functions: \<open>std::find_if\<close>, then assignment or \<open>push_back\<close>.\<close>

fun replace_or_append :: "('e \<Rightarrow> string) \<Rightarrow> 'e \<Rightarrow> 'e list \<Rightarrow> 'e list" where
  "replace_or_append key entry [] = [entry]"
| "replace_or_append key entry (e # es) =
     (if key e = key entry then entry # es else e # replace_or_append key entry es)"

abbreviation codec_key :: "'a codec_entry \<Rightarrow> string" where
  "codec_key e \<equiv> cd_id (ce_descriptor e)"

abbreviation provider_key :: "('x, 'c, 's) provider_entry \<Rightarrow> string" where
  "provider_key e \<equiv> pd_id (pe_descriptor e)"

definition register_codec :: "'a codec_entry \<Rightarrow> ('a, 'x, 'c, 's) registry \<Rightarrow> ('a, 'x, 'c, 's) registry" where
  "register_codec entry r = r\<lparr>rg_codecs := replace_or_append codec_key entry (rg_codecs r)\<rparr>"

definition register_provider ::
  "('x, 'c, 's) provider_entry \<Rightarrow> ('a, 'x, 'c, 's) registry \<Rightarrow> ('a, 'x, 'c, 's) registry" where
  "register_provider entry r = r\<lparr>rg_providers := replace_or_append provider_key entry (rg_providers r)\<rparr>"

definition find_codec :: "string \<Rightarrow> ('a, 'x, 'c, 's) registry \<Rightarrow> 'a codec_entry option" where
  "find_codec i r = find (\<lambda>e. codec_key e = i) (rg_codecs r)"

definition find_provider :: "string \<Rightarrow> ('a, 'x, 'c, 's) registry \<Rightarrow> ('x, 'c, 's) provider_entry option" where
  "find_provider i r = find (\<lambda>e. provider_key e = i) (rg_providers r)"

definition create_codec :: "string \<Rightarrow> ('a, 'x, 'c, 's) registry \<Rightarrow> 'a result" where
  "create_codec i r =
     (case find_codec i r of
        None \<Rightarrow> Inl (registry_error missing_codec (''codec is not registered: '' @ i))
      | Some entry \<Rightarrow>
        (case ce_factory entry of
           None \<Rightarrow> Inl (registry_error dependency_unavailable
             (''codec has no registered adapter factory: '' @ i))
         | Some factory \<Rightarrow>
           (case factory () of
              None \<Rightarrow> Inl (registry_error internal_error ''registered codec adapter factory returned null'')
            | Some adapter \<Rightarrow> Inr adapter)))"

definition compatible :: "string \<Rightarrow> string \<Rightarrow> ('a, 'x, 'c, 's) registry \<Rightarrow> bool" where
  "compatible cid pid r \<longleftrightarrow>
     list_ex (\<lambda>e. codec_key e = cid) (rg_codecs r) \<and> list_ex (\<lambda>e. provider_key e = pid) (rg_providers r)"

subsection \<open>Runtime services\<close>

record ('a, 'x, 'c, 's) runtime_services =
  rv_registry :: "('a, 'x, 'c, 's) registry"
  rv_preferred_provider_id :: string

definition unregistered :: "string \<Rightarrow> error" where
  "unregistered pid =
     registry_error missing_provider (''execution provider is not registered: '' @ pid)"

definition resolve_executable ::
  "artifact_descriptor \<Rightarrow> ('a, 'x, 'c, 's) runtime_services \<Rightarrow> 'x result" where
  "resolve_executable artifact services =
     (let pid = (if ad_provider_id artifact = [] then rv_preferred_provider_id services
           else ad_provider_id artifact) in
      if pid = [] then
        Inl (registry_error missing_provider ''artifact does not identify an execution provider'')
      else
        case find (\<lambda>entry. provider_key entry = pid) (rg_providers (rv_registry services)) of
          None \<Rightarrow> Inl (unregistered pid)
        | Some chosen \<Rightarrow>
          (case pe_factory chosen of
             None \<Rightarrow> Inl (unregistered pid)
           | Some factory \<Rightarrow>
             (case factory () of
                None \<Rightarrow> Inl (registry_error dependency_unavailable
                  (''execution provider factory returned null: '' @ pid))
              | Some instance_ \<Rightarrow>
                if \<not> ep_supports instance_ artifact then
                  Inl (registry_error incompatible_target
                    (''execution provider does not support artifact: '' @ ad_component_id artifact))
                else ep_load instance_ artifact)))"

definition resolve_request ::
  "resolver \<Rightarrow> artifact_request \<Rightarrow> ('a, 'x, 'c, 's) runtime_services \<Rightarrow> 'x result" where
  "resolve_request resolver request services =
     res_bind (resolve resolver request) (\<lambda>selected.
       resolve_executable (ac_artifact (ra_candidate selected)) services)"

text \<open>The common part of both factory calls: which provider the configuration names.\<close>

definition configured_provider_id :: "runtime_configuration \<Rightarrow> ('a, 'x, 'c, 's) runtime_services \<Rightarrow> string" where
  "configured_provider_id configuration services =
     (let normalized = reconcile_legacy_fields configuration in
      if pc_id (provider normalized) = [] then rv_preferred_provider_id services else pc_id (provider normalized))"

definition with_factory ::
  "(('x, 'c, 's) provider_entry \<Rightarrow> (runtime_configuration \<Rightarrow> 'r result) option) \<Rightarrow> string
     \<Rightarrow> runtime_configuration \<Rightarrow> ('a, 'x, 'c, 's) runtime_services \<Rightarrow> 'r result" where
  "with_factory pick what configuration services =
     (let pid = configured_provider_id configuration services in
      if pid = [] then
        Inl (registry_error missing_provider ''configuration does not identify an execution provider'')
      else
        case find (\<lambda>entry. provider_key entry = pid) (rg_providers (rv_registry services)) of
          None \<Rightarrow> Inl (unregistered pid)
        | Some chosen \<Rightarrow>
          (case pick chosen of
             None \<Rightarrow> Inl (registry_error not_implemented (''execution provider cannot create '' @ what @ pid))
           | Some factory \<Rightarrow> factory (reconcile_legacy_fields configuration)))"

definition create_components ::
  "runtime_configuration \<Rightarrow> ('a, 'x, 'c, 's) runtime_services \<Rightarrow> 'c result" where
  "create_components = with_factory pe_component_factory ''codec components: ''"

definition create_provider_session ::
  "runtime_configuration \<Rightarrow> ('a, 'x, 'c, 's) runtime_services \<Rightarrow> 's result" where
  "create_provider_session = with_factory pe_session_factory ''a session: ''"

subsection \<open>The contract of a table\<close>

locale keyed_registry =
  fixes register :: "'e \<Rightarrow> 'r \<Rightarrow> 'r"
    and lookup :: "string \<Rightarrow> 'r \<Rightarrow> 'e option"
    and ids :: "'r \<Rightarrow> string list"
    and key :: "'e \<Rightarrow> string"
  assumes lookup_register: "lookup i (register e r) = (if i = key e then Some e else lookup i r)"
    and ids_register: "ids (register e r) = (if key e \<in> set (ids r) then ids r else ids r @ [key e])"
    and lookup_ids: "lookup i r \<noteq> None \<longleftrightarrow> i \<in> set (ids r)"
begin

lemma fold_lookup:
  "lookup i (fold register es r) =
     (case find (\<lambda>e. key e = i) (rev es) of Some e \<Rightarrow> Some e | None \<Rightarrow> lookup i r)"
proof (induction es arbitrary: r)
  case (Cons e es)
  have f: "find P (xs @ ys) = (case find P xs of Some x \<Rightarrow> Some x | None \<Rightarrow> find P ys)" for P :: "'e \<Rightarrow> bool" and xs ys
    by (induction xs) simp_all
  show ?case by (simp add: Cons.IH f lookup_register split: option.splits)
qed simp

lemma fold_distinct: "distinct (ids r) \<Longrightarrow> distinct (ids (fold register es r))"
  by (induction es arbitrary: r) (simp_all add: ids_register)

lemma fold_order: "\<exists>new. ids (fold register es r) = ids r @ new"
proof (induction es arbitrary: r)
  case (Cons e es)
  from Cons.IH [of "register e r"] show ?case by (auto simp: ids_register split: if_splits)
qed simp

end

lemma find_replace_or_append:
  "find (\<lambda>x. key x = i) (replace_or_append key e es) = (if i = key e then Some e else find (\<lambda>x. key x = i) es)"
  by (induction es) auto

lemma map_replace_or_append:
  "map key (replace_or_append key e es) = (if key e \<in> set (map key es) then map key es else map key es @ [key e])"
  by (induction es) auto

lemma find_ids: "find (\<lambda>x. key x = i) es \<noteq> None \<longleftrightarrow> i \<in> set (map key es)"
  by (auto simp: find_None_iff)

definition codec_ids :: "('a, 'x, 'c, 's) registry \<Rightarrow> string list" where
  "codec_ids r = map codec_key (rg_codecs r)"

definition provider_ids :: "('a, 'x, 'c, 's) registry \<Rightarrow> string list" where
  "provider_ids r = map provider_key (rg_providers r)"

lemmas registry_defs =
  codec_ids_def find_codec_def register_codec_def provider_ids_def find_provider_def register_provider_def

interpretation codecs: keyed_registry register_codec find_codec codec_ids codec_key
  by unfold_locales
     (simp_all add: registry_defs find_replace_or_append map_replace_or_append find_ids del: set_map not_None_eq not_Some_eq)

interpretation providers: keyed_registry register_provider find_provider provider_ids provider_key
  by unfold_locales
     (simp_all add: registry_defs find_replace_or_append map_replace_or_append find_ids del: set_map not_None_eq not_Some_eq)

subsection \<open>Properties\<close>

text \<open>Any interleaving of registrations.\<close>

datatype ('a, 'x, 'c, 's) registration =
    Codec "'a codec_entry"
  | Provider "('x, 'c, 's) provider_entry"

fun register_one :: "('a, 'x, 'c, 's) registration \<Rightarrow> ('a, 'x, 'c, 's) registry \<Rightarrow> ('a, 'x, 'c, 's) registry" where
  "register_one (Codec e) = register_codec e"
| "register_one (Provider e) = register_provider e"

definition codec_registrations :: "('a, 'x, 'c, 's) registration list \<Rightarrow> 'a codec_entry list" where
  "codec_registrations ops = List.map_filter (\<lambda>r. case r of Codec e \<Rightarrow> Some e | _ \<Rightarrow> None) ops"

definition provider_registrations :: "('a, 'x, 'c, 's) registration list \<Rightarrow> ('x, 'c, 's) provider_entry list" where
  "provider_registrations ops = List.map_filter (\<lambda>r. case r of Provider e \<Rightarrow> Some e | _ \<Rightarrow> None) ops"

lemma register_tables:
  "rg_codecs (fold register_one ops r) = rg_codecs (fold register_codec (codec_registrations ops) r)"
  "rg_providers (fold register_one ops r) = rg_providers (fold register_provider (provider_registrations ops) r)"
proof -
  have c: "rg_codecs (fold register_codec es r) = fold (replace_or_append codec_key) es (rg_codecs r)"
    for es and r :: "('a, 'x, 'c, 's) registry"
    by (induction es arbitrary: r) (simp_all add: register_codec_def)
  have p: "rg_providers (fold register_provider es r) = fold (replace_or_append provider_key) es (rg_providers r)"
    for es and r :: "('a, 'x, 'c, 's) registry"
    by (induction es arbitrary: r) (simp_all add: register_provider_def)
  show "rg_codecs (fold register_one ops r) = rg_codecs (fold register_codec (codec_registrations ops) r)"
    "rg_providers (fold register_one ops r) = rg_providers (fold register_provider (provider_registrations ops) r)"
    unfolding c p
    by (induction ops arbitrary: r)
       (auto simp: codec_registrations_def provider_registrations_def register_codec_def register_provider_def
          split: registration.splits)
qed

lemma compatible_registered: "compatible cid pid r \<longleftrightarrow> find_codec cid r \<noteq> None \<and> find_provider pid r \<noteq> None"
  unfolding compatible_def find_codec_def find_provider_def find_ids by (auto simp: list_ex_iff)

text \<open>
  Property C32. Whatever registrations were made, in any order and any number of times, each
  lookup finds the last entry registered under its identifier and the tables hold every
  identifier once; a codec and a provider are \<open>compatible\<close> as soon as both are registered,
  whatever the provider can execute.
\<close>

theorem registry_lookup:
  "let r = fold register_one ops make_registry in
     find_codec i r = find (\<lambda>e. codec_key e = i) (rev (codec_registrations ops))
   \<and> find_provider i r = find (\<lambda>e. provider_key e = i) (rev (provider_registrations ops))
   \<and> distinct (codec_ids r) \<and> distinct (provider_ids r)
   \<and> (compatible i j r \<longleftrightarrow> i \<in> codec_key ` set (codec_registrations ops)
        \<and> j \<in> provider_key ` set (provider_registrations ops))"
proof -
  let ?r = "fold register_one ops make_registry"
  have c: "find_codec i ?r = find (\<lambda>e. codec_key e = i) (rev (codec_registrations ops))" for i
    using codecs.fold_lookup [of i "codec_registrations ops" make_registry]
    by (simp add: find_codec_def register_tables make_registry_def split: option.splits)
  have p: "find_provider i ?r = find (\<lambda>e. provider_key e = i) (rev (provider_registrations ops))" for i
    using providers.fold_lookup [of i "provider_registrations ops" make_registry]
    by (simp add: find_provider_def register_tables make_registry_def split: option.splits)
  have "distinct (codec_ids ?r)"
    using codecs.fold_distinct [of make_registry "codec_registrations ops"]
    by (simp add: codec_ids_def register_tables make_registry_def)
  moreover have "distinct (provider_ids ?r)"
    using providers.fold_distinct [of make_registry "provider_registrations ops"]
    by (simp add: provider_ids_def register_tables make_registry_def)
  moreover have "compatible i j ?r \<longleftrightarrow> i \<in> codec_key ` set (codec_registrations ops)
      \<and> j \<in> provider_key ` set (provider_registrations ops)"
    unfolding compatible_registered c p by (auto simp: find_None_iff)
  ultimately show ?thesis using c p by (simp add: Let_def)
qed

text \<open>
  An executable is only ever loaded by the one provider the artifact names, or by
  the preferred one when it names none: resolution succeeds exactly when that provider is
  registered with a factory, its instance supports the artifact and loads it. No other provider
  is asked.
\<close>

lemma resolve_executable_iff:
  "resolve_executable artifact services = Inr executable \<longleftrightarrow>
     (let pid = (if ad_provider_id artifact = [] then rv_preferred_provider_id services
         else ad_provider_id artifact) in
      pid \<noteq> [] \<and> (\<exists>entry factory inst. find_provider pid (rv_registry services) = Some entry
        \<and> pe_factory entry = Some factory \<and> factory () = Some inst
        \<and> ep_supports inst artifact \<and> ep_load inst artifact = Inr executable))"
  unfolding resolve_executable_def find_provider_def Let_def
  by (auto split: option.splits)

end
