(* ===== verification/RuntimeFacade.thy ===== *)
theory RuntimeFacade
  imports Registry CodecRuntime MemoryPools CodecLockstep
begin

text \<open>
  \<^verbatim>\<open>include/nvcr/runtime/runtime.hpp\<close>, \<^verbatim>\<open>src/runtime/runtime.cpp\<close>: the public \<open>nvcr::Runtime\<close>, which
  composes a registered codec adapter and a provider session and forwards calls to the two codec
  sessions. The virtual functions of \<open>IEncoderSession\<close>, \<open>IDecoderSession\<close> and \<open>ICodecAdapter\<close> are
  parameters; a session call returns a result or throws, and the facade turns what it catches into
  \<open>backend_error\<close>. \<open>receive_access_unit\<close>, \<open>receive_frame\<close> and \<open>reset\<close> have no handler, so an exception
  leaves them. The mutex makes every call atomic; the log line is not modelled.
\<close>

subsection \<open>Interfaces\<close>

datatype 'a outcome = Returns 'a | Throws string | Throws_unknown

record 's session_interface =
  si_send_frame :: "frame \<Rightarrow> 's \<Rightarrow> unit result outcome \<times> 's"
  si_receive_access_unit :: "'s \<Rightarrow> packet result outcome \<times> 's"
  si_encoder_flush :: "'s \<Rightarrow> unit result outcome \<times> 's"
  si_encoder_reset :: "'s \<Rightarrow> unit result outcome \<times> 's"
  si_send_access_unit :: "packet \<Rightarrow> 's \<Rightarrow> unit result outcome \<times> 's"
  si_receive_frame :: "'s \<Rightarrow> frame result outcome \<times> 's"
  si_decoder_flush :: "'s \<Rightarrow> unit result outcome \<times> 's"
  si_decoder_reset :: "'s \<Rightarrow> unit result outcome \<times> 's"

text \<open>\<open>codec::Sessions\<close>: which of the two sessions are present, their joint state, and their counters.\<close>

record 's codec_sessions =
  cs_encoder :: bool
  cs_decoder :: bool
  cs_state :: 's
  cs_statistics :: "('s \<Rightarrow> statistics) option"

record ('a, 'x, 'c, 'p, 's) adapter_interface =
  ai_create_sessions :: "'a \<Rightarrow> runtime_configuration \<Rightarrow> 'p \<Rightarrow> 's codec_sessions result"
  ai_create_components :: "'a \<Rightarrow> runtime_configuration \<Rightarrow> ('a, 'x, 'c, 'p) runtime_services \<Rightarrow> 'c result"

subsection \<open>State and construction\<close>

datatype runtime_state = initializing | ready | failed | stopped

record 's facade =
  fa_configuration :: runtime_configuration
  fa_stats :: "('s \<Rightarrow> statistics) option"
  fa_host_pool :: pool_state
  fa_sessions :: 's
  fa_state :: runtime_state

text \<open>A moved-from runtime has no implementation object.\<close>

type_synonym 's runtime_object = "'s facade option"

definition facade_error :: "error_code \<Rightarrow> string \<Rightarrow> error" where
  "facade_error c msg = Error c msg ''runtime''"

datatype construction = Constructed | Bad_alloc | Exception string

definition create_from_sessions ::
  "(runtime_configuration \<Rightarrow> construction) \<Rightarrow> runtime_configuration \<Rightarrow> 's codec_sessions \<Rightarrow> 's facade result" where
  "create_from_sessions construct configuration sessions =
     (let configuration = reconcile_legacy_fields configuration in
      res_bind (validate configuration) (\<lambda>_.
      if \<not> cs_encoder sessions \<or> \<not> cs_decoder sessions then
        Inl (facade_error dependency_unavailable ''codec encoder and decoder sessions must be provided'')
      else
        case construct configuration of
          Bad_alloc \<Rightarrow> Inl (facade_error resource_exhausted ''unable to allocate runtime resources'')
        | Exception what \<Rightarrow> Inl (facade_error internal_error what)
        | Constructed \<Rightarrow>
            Inr \<lparr>fa_configuration = configuration, fa_stats = cs_statistics sessions,
                 fa_host_pool = make_pool (unat (ro_memory_pool_bytes (runtime configuration))),
                 fa_sessions = cs_state sessions, fa_state = ready\<rparr>))"

definition create_from_components ::
  "(runtime_configuration \<Rightarrow> 'c \<Rightarrow> 's codec_sessions result) \<Rightarrow> (runtime_configuration \<Rightarrow> construction)
     \<Rightarrow> runtime_configuration \<Rightarrow> 'c \<Rightarrow> 's facade result" where
  "create_from_components legacy_sessions construct configuration components =
     (let configuration = reconcile_legacy_fields configuration in
      res_bind (legacy_sessions configuration components) (\<lambda>sessions.
        create_from_sessions construct configuration sessions))"

definition runtime_create ::
  "('a, 'x, 'c, 'p, 's) adapter_interface \<Rightarrow> (runtime_configuration \<Rightarrow> 'c \<Rightarrow> 's codec_sessions result)
     \<Rightarrow> (runtime_configuration \<Rightarrow> construction) \<Rightarrow> ('a, 'x, 'c, 'p) registry \<Rightarrow> runtime_configuration
     \<Rightarrow> 's facade result" where
  "runtime_create ai legacy_sessions construct registry configuration =
     (let configuration = reconcile_legacy_fields configuration;
          cid = cc_id (codec configuration); pid = pc_id (provider configuration) in
      res_bind (validate configuration) (\<lambda>_.
      res_bind (create_codec cid registry) (\<lambda>adapter.
      if \<not> compatible cid pid registry then
        Inl (facade_error missing_provider
          (''codec/provider selection is not registered: '' @ cid @ ''/'' @ pid))
      else
        let services = \<lparr>rv_registry = registry, rv_preferred_provider_id = pid\<rparr>;
            components = res_bind (ai_create_components ai adapter configuration services)
              (create_from_components legacy_sessions construct configuration) in
        case create_provider_session configuration services of
          Inr provider_session \<Rightarrow>
            (case ai_create_sessions ai adapter configuration provider_session of
               Inr sessions \<Rightarrow> create_from_sessions construct configuration sessions
             | Inl e \<Rightarrow> if code e \<noteq> not_implemented then Inl e else components)
        | Inl e \<Rightarrow> if code e \<noteq> not_implemented then Inl e else components)))"

subsection \<open>Calls\<close>

text \<open>Every public call first looks at the implementation object.\<close>

definition on_object ::
  "('s facade \<Rightarrow> 'r result outcome \<times> 's facade) \<Rightarrow> 's runtime_object \<Rightarrow> 'r result outcome \<times> 's runtime_object" where
  "on_object f rt =
     (case rt of
        None \<Rightarrow> (Returns (Inl (facade_error invalid_state ''runtime was moved from'')), None)
      | Some r \<Rightarrow> apsnd Some (f r))"

definition if_ready ::
  "('s facade \<Rightarrow> 'r result outcome \<times> 's facade) \<Rightarrow> 's facade \<Rightarrow> 'r result outcome \<times> 's facade" where
  "if_ready f r =
     (if fa_state r \<noteq> ready then (Returns (Inl (facade_error invalid_state ''runtime is not ready'')), r) else f r)"

definition call_session :: "('s \<Rightarrow> 'r \<times> 's) \<Rightarrow> 's facade \<Rightarrow> 'r \<times> 's facade" where
  "call_session f r = (let (x, s) = f (fa_sessions r) in (x, r\<lparr>fa_sessions := s\<rparr>))"

fun caught :: "'r result outcome \<Rightarrow> 'r result outcome" where
  "caught (Returns x) = Returns x"
| "caught (Throws what) = Returns (Inl (facade_error backend_error what))"
| "caught Throws_unknown = Returns (Inl (facade_error backend_error ''unknown backend failure''))"

text \<open>One direction, then the other, and the first error of the two; an exception stops the pair.\<close>

definition both_directions ::
  "('s \<Rightarrow> unit result outcome \<times> 's) \<Rightarrow> ('s \<Rightarrow> unit result outcome \<times> 's) \<Rightarrow> 's \<Rightarrow> unit result outcome \<times> 's" where
  "both_directions f g s =
     (case f s of
        (Returns encoder, s) \<Rightarrow>
          (case g s of
             (Returns decoder, s) \<Rightarrow> (Returns (case encoder of Inl e \<Rightarrow> Inl e | Inr _ \<Rightarrow> decoder), s)
           | thrown \<Rightarrow> thrown)
      | thrown \<Rightarrow> thrown)"

definition facade_send_frame ::
  "'s session_interface \<Rightarrow> frame \<Rightarrow> 's facade \<Rightarrow> unit result outcome \<times> 's facade" where
  "facade_send_frame si frame = if_ready (\<lambda>r.
     if size_bytes frame = 0 then
       (Returns (Inl (facade_error invalid_argument ''cannot encode an empty frame'')), r)
     else apfst caught (call_session (si_send_frame si frame) r))"

definition facade_receive_access_unit ::
  "'s session_interface \<Rightarrow> 's facade \<Rightarrow> packet result outcome \<times> 's facade" where
  "facade_receive_access_unit si = call_session (si_receive_access_unit si)"

definition facade_send_access_unit ::
  "'s session_interface \<Rightarrow> packet \<Rightarrow> 's facade \<Rightarrow> unit result outcome \<times> 's facade" where
  "facade_send_access_unit si packet = if_ready (\<lambda>r. apfst caught (call_session (si_send_access_unit si packet) r))"

definition facade_receive_frame ::
  "'s session_interface \<Rightarrow> 's facade \<Rightarrow> frame result outcome \<times> 's facade" where
  "facade_receive_frame si = call_session (si_receive_frame si)"

definition facade_flush :: "'s session_interface \<Rightarrow> 's facade \<Rightarrow> unit result outcome \<times> 's facade" where
  "facade_flush si = if_ready (\<lambda>r. apfst caught
     (call_session (both_directions (si_encoder_flush si) (si_decoder_flush si)) r))"

definition facade_reset :: "'s session_interface \<Rightarrow> 's facade \<Rightarrow> unit result outcome \<times> 's facade" where
  "facade_reset si = if_ready (call_session (both_directions (si_encoder_reset si) (si_decoder_reset si)))"

definition facade_encode ::
  "'s session_interface \<Rightarrow> frame \<Rightarrow> 's facade \<Rightarrow> packet result outcome \<times> 's facade" where
  "facade_encode si frame r =
     (case facade_send_frame si frame r of
        (Returns (Inr _), r) \<Rightarrow> facade_receive_access_unit si r
      | (Returns (Inl e), r) \<Rightarrow> (Returns (Inl e), r)
      | (Throws what, r) \<Rightarrow> (Throws what, r)
      | (Throws_unknown, r) \<Rightarrow> (Throws_unknown, r))"

definition facade_decode ::
  "'s session_interface \<Rightarrow> packet \<Rightarrow> 's facade \<Rightarrow> frame result outcome \<times> 's facade" where
  "facade_decode si packet r =
     (case facade_send_access_unit si packet r of
        (Returns (Inr _), r) \<Rightarrow> facade_receive_frame si r
      | (Returns (Inl e), r) \<Rightarrow> (Returns (Inl e), r)
      | (Throws what, r) \<Rightarrow> (Throws what, r)
      | (Throws_unknown, r) \<Rightarrow> (Throws_unknown, r))"

definition facade_flush_encoder :: "'s session_interface \<Rightarrow> 's facade \<Rightarrow> unit result outcome \<times> 's facade" where
  "facade_flush_encoder si = if_ready (\<lambda>r. apfst caught (call_session (si_encoder_flush si) r))"

definition facade_reset_encoder :: "'s session_interface \<Rightarrow> 's facade \<Rightarrow> unit result outcome \<times> 's facade" where
  "facade_reset_encoder si = if_ready (call_session (si_encoder_reset si))"

definition facade_flush_decoder :: "'s session_interface \<Rightarrow> 's facade \<Rightarrow> unit result outcome \<times> 's facade" where
  "facade_flush_decoder si = if_ready (\<lambda>r. apfst caught (call_session (si_decoder_flush si) r))"

definition facade_reset_decoder :: "'s session_interface \<Rightarrow> 's facade \<Rightarrow> unit result outcome \<times> 's facade" where
  "facade_reset_decoder si = if_ready (call_session (si_decoder_reset si))"

definition facade_state :: "'s runtime_object \<Rightarrow> runtime_state" where
  "facade_state rt = (case rt of None \<Rightarrow> stopped | Some r \<Rightarrow> fa_state r)"

definition facade_statistics :: "'s runtime_object \<Rightarrow> statistics" where
  "facade_statistics rt =
     (case rt of
        None \<Rightarrow> make_statistics
      | Some r \<Rightarrow> (case fa_stats r of None \<Rightarrow> make_statistics | Some stats \<Rightarrow> stats (fa_sessions r)))"

subsection \<open>The DCVC-RT adapter\<close>

text \<open>
  \<^verbatim>\<open>src/dcvcrt/adapter.cpp\<close>: the backend that the configured provider calls for, which drives an
  inference library and is a parameter, and the session pair over it. The DCVC-RT sessions do
  not throw.
\<close>

definition dcvcrt_create_sessions ::
  "'b codec_backend \<Rightarrow> (nat \<Rightarrow> bool) \<Rightarrow> nat \<Rightarrow> (runtime_configuration \<Rightarrow> 'p \<Rightarrow> 'b option result)
     \<Rightarrow> runtime_configuration \<Rightarrow> 'p \<Rightarrow> 'b sessions codec_sessions result" where
  "dcvcrt_create_sessions be alloc session_bytes make_backend configuration provider_session =
     res_bind (make_backend configuration provider_session) (\<lambda>backend.
     res_bind (make_sessions be alloc session_bytes configuration backend) (\<lambda>s.
     Inr \<lparr>cs_encoder = True, cs_decoder = True, cs_state = s,
          cs_statistics = Some (\<lambda>s. sc_statistics (sn_core s))\<rparr>))"

definition dcvcrt_interface :: "'b codec_backend \<Rightarrow> (nat \<Rightarrow> bool) \<Rightarrow> i64 \<Rightarrow> 'b sessions session_interface" where
  "dcvcrt_interface be alloc elapsed =
     \<lparr>si_send_frame = \<lambda>f s. apfst Returns (enc_send_frame be alloc elapsed f s),
      si_receive_access_unit = \<lambda>s. apfst Returns (enc_receive_access_unit s),
      si_encoder_flush = \<lambda>s. apfst Returns (enc_flush be s),
      si_encoder_reset = \<lambda>s. apfst Returns (enc_reset be s),
      si_send_access_unit = \<lambda>p s. apfst Returns (dec_send_access_unit be alloc elapsed p s),
      si_receive_frame = \<lambda>s. apfst Returns (dec_receive_frame s),
      si_decoder_flush = \<lambda>s. apfst Returns (dec_flush be s),
      si_decoder_reset = \<lambda>s. apfst Returns (dec_reset be s)\<rparr>"

subsection \<open>The facade keeps the contract of its sessions\<close>

fun returned :: "'r result outcome \<Rightarrow> 'r result" where
  "returned (Returns x) = x"
| "returned (Throws what) = Inl (facade_error internal_error what)"
| "returned Throws_unknown = Inl (facade_error internal_error [])"

lemmas facade_defs =
  facade_send_frame_def facade_receive_access_unit_def facade_send_access_unit_def facade_receive_frame_def
  facade_flush_encoder_def facade_reset_encoder_def facade_flush_decoder_def facade_reset_decoder_def
  if_ready_def call_session_def dcvcrt_interface_def facade_error_def

interpretation facade_encoder: ordered_session
  "\<lambda>f r. apfst returned (facade_send_frame (dcvcrt_interface be alloc t) f r)"
  "\<lambda>r. apfst returned (facade_receive_access_unit (dcvcrt_interface be alloc t) r)"
  "\<lambda>r. apfst returned (facade_flush_encoder (dcvcrt_interface be alloc t) r)"
  "\<lambda>r. apfst returned (facade_reset_encoder (dcvcrt_interface be alloc t) r)"
  "\<lambda>r. enc_outputs (fa_sessions r)" "\<lambda>r. enc_flushed (fa_sessions r)"
  by unfold_locales
     (auto simp: facade_defs session_defs Let_def split: if_splits prod.splits sum.splits list.splits)

interpretation facade_decoder: output_session
  "\<lambda>p r. apfst returned (facade_send_access_unit (dcvcrt_interface be alloc t) p r)"
  "\<lambda>r. apfst returned (facade_receive_frame (dcvcrt_interface be alloc t) r)"
  "\<lambda>r. apfst returned (facade_flush_decoder (dcvcrt_interface be alloc t) r)"
  "\<lambda>r. apfst returned (facade_reset_decoder (dcvcrt_interface be alloc t) r)"
  "\<lambda>r. dec_outputs (fa_sessions r)" "\<lambda>r. dec_flushed (fa_sessions r)"
  by unfold_locales
     (auto simp: facade_defs session_defs Let_def split: if_splits prod.splits sum.splits list.splits)

subsection \<open>Encoding and decoding through the facade\<close>

fun encode_all :: "'s session_interface \<Rightarrow> frame list \<Rightarrow> 's facade \<Rightarrow> (packet list \<times> 's facade) option" where
  "encode_all si [] r = Some ([], r)"
| "encode_all si (f # fs) r =
     (case facade_encode si f r of
        (Returns (Inr p), r) \<Rightarrow> map_option (apfst ((#) p)) (encode_all si fs r)
      | _ \<Rightarrow> None)"

fun decode_all :: "'s session_interface \<Rightarrow> packet list \<Rightarrow> 's facade \<Rightarrow> (frame list \<times> 's facade) option" where
  "decode_all si [] r = Some ([], r)"
| "decode_all si (p # ps) r =
     (case facade_decode si p r of
        (Returns (Inr f), r) \<Rightarrow> map_option (apfst ((#) f)) (decode_all si ps r)
      | _ \<Rightarrow> None)"

definition idle :: "'b sessions facade \<Rightarrow> bool" where
  "idle r \<longleftrightarrow> fa_state r = ready \<and> sc_initialized (sn_core (fa_sessions r))
     \<and> enc_outputs (fa_sessions r) = [] \<and> \<not> enc_flushed (fa_sessions r)
     \<and> dec_outputs (fa_sessions r) = [] \<and> \<not> dec_flushed (fa_sessions r)"

definition set_core :: "'b session_core \<Rightarrow> 'b sessions facade \<Rightarrow> 'b sessions facade" where
  "set_core core r = r\<lparr>fa_sessions := (fa_sessions r)\<lparr>sn_core := core\<rparr>\<rparr>"

lemma set_core_simps [simp]:
  "sn_core (fa_sessions (set_core core r)) = core"
  "idle r \<Longrightarrow> idle (set_core core r) = sc_initialized core"
  by (simp_all add: set_core_def idle_def)

lemma encode_frame_initialized:
  "encode_frame be alloc t f core = (Inr p, core') \<Longrightarrow> sc_initialized core' = sc_initialized core"
  by (erule encode_frame_Inr) simp

lemma finish_decode_initialized:
  "sc_initialized (snd (finish_decode alloc t p au dr core)) = sc_initialized core"
  by (auto simp: finish_decode_def Let_def split: sum.splits)

lemma unwrap_packet_initialized:
  "sc_initialized (snd (unwrap_packet alloc p core)) = sc_initialized core"
  by (auto simp: unwrap_packet_def split: sum.splits)

lemma decode_packet_initialized:
  "sc_initialized (snd (decode_packet be alloc t p core)) = sc_initialized core"
  using unwrap_packet_initialized [of alloc p core]
  by (auto simp: decode_packet_def Let_def finish_decode_initialized split: prod.splits sum.splits)

lemma facade_encode_idle:
  assumes "idle r"
  shows "facade_encode (dcvcrt_interface be alloc t) f r = (Returns (Inr p), r')
     \<longleftrightarrow> (\<exists>core. encode_frame be alloc t f (sn_core (fa_sessions r)) = (Inr p, core) \<and> r' = set_core core r)"
proof (cases "size_bytes f = 0")
  case True
  then show ?thesis using assms
    by (simp add: facade_encode_def facade_defs idle_def encode_frame_def)
next
  case False
  obtain x core where e: "encode_frame be alloc t f (sn_core (fa_sessions r)) = (x, core)" by fastforce
  show ?thesis using assms False e
    by (cases x)
       (auto simp: facade_encode_def facade_defs idle_def set_core_def session_defs core_encode_def)
qed

lemma facade_decode_idle:
  assumes "idle r" "decode_packet be alloc t p (sn_core (fa_sessions r)) = (Inr f, core)"
  shows "facade_decode (dcvcrt_interface be alloc t) p r = (Returns (Inr f), set_core core r)"
  using assms
  by (auto simp: facade_decode_def facade_defs idle_def set_core_def session_defs core_decode_def)

lemma facades_in_step:
  assumes mirrors: "backend_mirrors be rel" and alloc: "\<And>n. alloc n"
    and "idle e" "idle d" "core_sync rel (sn_core (fa_sessions e)) (sn_core (fa_sessions d))"
    "encode_all (dcvcrt_interface be alloc t) fs e = Some (ps, e')"
    "unat (ss_frame_index (sc_encoder_state (sn_core (fa_sessions e)))) + length fs < 2 ^ 64"
  shows "\<exists>outs d'. decode_all (dcvcrt_interface be alloc t') ps d = Some (outs, d')
     \<and> list_all2 same_dimensions fs outs
     \<and> core_sync rel (sn_core (fa_sessions e')) (sn_core (fa_sessions d'))"
  using assms(3-)
proof (induction fs arbitrary: e d ps)
  case (Cons f fs)
  from Cons.prems(4) obtain p e1 ps1 where
    enc: "facade_encode (dcvcrt_interface be alloc t) f e = (Returns (Inr p), e1)"
    and rest: "encode_all (dcvcrt_interface be alloc t) fs e1 = Some (ps1, e')" and ps: "ps = p # ps1"
    by (auto split: prod.splits outcome.splits sum.splits)
  from enc obtain core where core: "encode_frame be alloc t f (sn_core (fa_sessions e)) = (Inr p, core)"
    and e1: "e1 = set_core core e"
    using facade_encode_idle [OF Cons.prems(1)] by blast
  have idx: "unat (ss_frame_index (sc_encoder_state (sn_core (fa_sessions e)))) + 1 < 2 ^ 64"
    using Cons.prems(5) by simp
  from lockstep_frame [OF mirrors alloc Cons.prems(3) core idx, of t'] obtain out dcore where
    dec: "decode_packet be alloc t' p (sn_core (fa_sessions d)) = (Inr out, dcore)" "core_sync rel core dcore"
    "same_dimensions f out"
    "unat (ss_frame_index (sc_encoder_state core)) = unat (ss_frame_index (sc_encoder_state (sn_core (fa_sessions e)))) + 1"
    unfolding same_dimensions_def by metis
  have "sc_initialized core" using encode_frame_initialized [OF core] Cons.prems(1) by (simp add: idle_def)
  moreover have "sc_initialized dcore"
    using decode_packet_initialized [of be alloc t' p "sn_core (fa_sessions d)"] dec(1) Cons.prems(2)
    by (simp add: idle_def)
  ultimately have idle: "idle e1" "idle (set_core dcore d)"
    using Cons.prems(1,2) by (simp_all add: e1)
  from Cons.IH [OF idle _ rest] dec Cons.prems(5) obtain outs d' where
    "decode_all (dcvcrt_interface be alloc t') ps1 (set_core dcore d) = Some (outs, d')"
    "list_all2 same_dimensions fs outs" "core_sync rel (sn_core (fa_sessions e')) (sn_core (fa_sessions d'))"
    by (auto simp: e1)
  then show ?case
    using facade_decode_idle [OF Cons.prems(2) dec(1)] dec(3) by (auto simp: ps)
qed auto

lemma created_facade:
  assumes "create_from_sessions construct cfg ss = Inr r"
  shows "validate (reconcile_legacy_fields cfg) = Inr ()" "fa_state r = ready" "fa_sessions r = cs_state ss"
    "fa_configuration r = reconcile_legacy_fields cfg"
  using assms
  by (auto simp: create_from_sessions_def Let_def res_bind_def split: sum.splits if_splits construction.splits)

lemma dcvcrt_sessions_fresh:
  assumes "dcvcrt_create_sessions be alloc n make_backend cfg session = Inr ss"
  shows "\<exists>b. cs_state ss = \<lparr>sn_core = (make_session_core cfg b)\<lparr>sc_initialized := True\<rparr>, enc_outputs = [],
     enc_flushed = False, dec_outputs = [], dec_flushed = False\<rparr>"
  using assms
  by (auto simp: dcvcrt_create_sessions_def make_sessions_def core_initialize_def make_session_core_def Let_def
      res_bind_def split: sum.splits if_splits option.splits prod.splits)

lemma validate_gop: "validate cfg = Inr () \<Longrightarrow> cc_gop_size (codec (reconcile_legacy_fields cfg)) \<noteq> 0"
  by (auto simp: validate_def Let_def split: if_splits)


lemma encode_all_stream:
  assumes "idle r" "encode_stream be alloc fs (sn_core (fa_sessions r)) = Inr (ps, core)"
  shows "encode_all (dcvcrt_interface be alloc 0) fs r = Some (ps, set_core core r)"
  using assms
proof (induction fs arbitrary: r ps)
  case Nil
  then show ?case by (simp add: set_core_def)
next
  case (Cons f fs)
  then obtain p c1 ps1 where c1: "encode_frame be alloc 0 f (sn_core (fa_sessions r)) = (Inr p, c1)"
    and rest: "encode_stream be alloc fs c1 = Inr (ps1, core)" and ps: "ps = p # ps1"
    by (auto simp: result_simps split: prod.splits sum.splits)
  have "idle (set_core c1 r)" using Cons.prems(1) encode_frame_initialized [OF c1] by (simp add: idle_def set_core_def)
  from Cons.IH [OF this] rest have "encode_all (dcvcrt_interface be alloc 0) fs (set_core c1 r) = Some (ps1, set_core core r)"
    by (simp add: set_core_def)
  moreover have "facade_encode (dcvcrt_interface be alloc 0) f r = (Returns (Inr p), set_core c1 r)"
    using facade_encode_idle [OF Cons.prems(1)] c1 by blast
  ultimately show ?case by (simp add: ps)
qed

text \<open>The default configuration, for the witnesses.\<close>

lemma default_reconciled: "reconcile_legacy_fields default_configuration = default_configuration"
  by code_simp

lemma default_validates: "validate default_configuration = Inr ()"
  by code_simp

definition raw_sessions :: "unit sessions" where
  "raw_sessions = \<lparr>sn_core = (make_session_core default_configuration ())\<lparr>sc_initialized := True\<rparr>, enc_outputs = [],
     enc_flushed = False, dec_outputs = [], dec_flushed = False\<rparr>"

definition raw_codec_sessions :: "unit sessions codec_sessions" where
  "raw_codec_sessions = \<lparr>cs_encoder = True, cs_decoder = True, cs_state = raw_sessions,
     cs_statistics = Some (\<lambda>s. sc_statistics (sn_core s))\<rparr>"

lemma raw_created:
  "dcvcrt_create_sessions raw_backend (\<lambda>_. True) 0 (\<lambda>_ _. Inr (Some ())) default_configuration session = Inr raw_codec_sessions"
  "\<exists>r. create_from_sessions (\<lambda>_. Constructed) default_configuration raw_codec_sessions = Inr r"
  by (simp_all add: dcvcrt_create_sessions_def make_sessions_def core_initialize_def raw_codec_sessions_def raw_sessions_def
      raw_backend_def make_session_core_def result_simps create_from_sessions_def default_reconciled default_validates)


text \<open>
  Property C31. A created runtime is ready, holds the reconciled and validated configuration, and its
  sessions come from the registered adapter of the configured codec for a registered provider: from
  \<open>create_sessions\<close> on a provider session when both are implemented, and otherwise from the legacy
  components.
\<close>

theorem runtime_create_ready:
  assumes "runtime_create ai legacy_sessions construct registry cfg = Inr r"
  shows "fa_state r = ready \<and> fa_configuration r = reconcile_legacy_fields cfg
     \<and> validate (reconcile_legacy_fields cfg) = Inr ()
     \<and> (let c = reconcile_legacy_fields cfg;
            services = \<lparr>rv_registry = registry, rv_preferred_provider_id = pc_id (provider c)\<rparr> in
         find_provider (pc_id (provider c)) registry \<noteq> None
         \<and> (\<exists>adapter sessions. create_codec (cc_id (codec c)) registry = Inr adapter
              \<and> fa_sessions r = cs_state sessions
              \<and> ((\<exists>p. create_provider_session c services = Inr p \<and> ai_create_sessions ai adapter c p = Inr sessions)
                 \<or> (\<exists>components. ai_create_components ai adapter c services = Inr components
                      \<and> legacy_sessions c components = Inr sessions))))"
proof -
  define c where "c = reconcile_legacy_fields cfg"
  define services where "services = \<lparr>rv_registry = registry, rv_preferred_provider_id = pc_id (provider c)\<rparr>"
  have cc: "reconcile_legacy_fields c = c" by (simp add: c_def reconcile_establishes reconcile_fixpoint)
  have v: "validate c = Inr ()" and "\<exists>adapter. create_codec (cc_id (codec c)) registry = Inr adapter"
    and comp: "compatible (cc_id (codec c)) (pc_id (provider c)) registry"
    using assms unfolding runtime_create_def Let_def c_def [symmetric]
    by (auto simp: res_bind_def split: sum.splits if_splits)
  then obtain adapter where a: "create_codec (cc_id (codec c)) registry = Inr adapter" by blast
  have "\<exists>sessions. create_from_sessions construct c sessions = Inr r
      \<and> ((\<exists>p. create_provider_session c services = Inr p \<and> ai_create_sessions ai adapter c p = Inr sessions)
         \<or> (\<exists>components. ai_create_components ai adapter c services = Inr components
              \<and> legacy_sessions c components = Inr sessions))"
    using assms v a comp unfolding runtime_create_def Let_def c_def [symmetric] services_def [symmetric]
    by (auto simp: res_bind_def create_from_components_def cc Let_def split: sum.splits if_splits)
  then obtain sessions where s: "create_from_sessions construct c sessions = Inr r"
    "((\<exists>p. create_provider_session c services = Inr p \<and> ai_create_sessions ai adapter c p = Inr sessions)
         \<or> (\<exists>components. ai_create_components ai adapter c services = Inr components
              \<and> legacy_sessions c components = Inr sessions))" by blast
  then show ?thesis
    using created_facade [OF s(1)] v a comp compatible_registered
    unfolding Let_def c_def [symmetric] services_def [symmetric] cc by blast
qed

definition raw_codec_entry :: "unit codec_entry" where
  "raw_codec_entry = \<lparr>ce_descriptor = \<lparr>cd_id = cc_id (codec default_configuration), cd_display_name = ''raw'', cd_api_version = 1\<rparr>,
     ce_capabilities = \<lparr>cp_supports_intra = True, cp_supports_predicted = True, cp_supports_bidirectional = False,
       cp_supports_hierarchical = False, cp_supports_delayed_output = False, cp_min_qp = 0, cp_max_qp = 63\<rparr>,
     ce_encoder_options = [], ce_decoder_options = [], ce_factory = Some (\<lambda>_. Some ())\<rparr>"

definition raw_provider_entry :: "(unit, unit, unit) provider_entry" where
  "raw_provider_entry = \<lparr>pe_descriptor = \<lparr>pd_kind = cpu_reference, pd_id = pc_id (provider default_configuration),
       pd_version = ''1'', pd_display_name = ''raw''\<rparr>,
     pe_capabilities = \<lparr>pv_supports_fp16 = False, pv_supports_int8 = False, pv_supports_dynamic_shapes = False,
       pv_supports_cuda_graphs = False, pv_target_device = ''host''\<rparr>,
     pe_factory = None, pe_component_factory = None, pe_session_factory = Some (\<lambda>_. Inr ())\<rparr>"

definition raw_adapter :: "(unit, unit, unit, unit, unit sessions) adapter_interface" where
  "raw_adapter = \<lparr>ai_create_sessions = \<lambda>_. dcvcrt_create_sessions raw_backend (\<lambda>_. True) 0 (\<lambda>_ _. Inr (Some ())),
     ai_create_components = \<lambda>_ _ _. Inl (facade_error not_implemented [])\<rparr>"

theorem runtime_create_ready_witness:
  "\<exists>r. runtime_create raw_adapter (\<lambda>_ _. Inl (facade_error not_implemented [])) (\<lambda>_. Constructed)
       (register_provider raw_provider_entry (register_codec raw_codec_entry make_registry)) default_configuration = Inr r
     \<and> fa_state r = ready \<and> fa_sessions r = raw_sessions"
proof -
  let ?reg = "register_provider raw_provider_entry (register_codec raw_codec_entry make_registry)"
  let ?services = "\<lparr>rv_registry = ?reg, rv_preferred_provider_id = pc_id (provider default_configuration)\<rparr>"
  have ne: "pc_id (provider default_configuration) \<noteq> []"
    by (simp add: default_configuration_def default_provider_configuration_def)
  have p: "create_provider_session default_configuration ?services = Inr ()"
    using ne by (simp add: create_provider_session_def with_factory_def configured_provider_id_def default_reconciled
      registry_defs make_registry_def raw_provider_entry_def)
  have a: "create_codec (cc_id (codec default_configuration)) ?reg = Inr ()"
    and c: "compatible (cc_id (codec default_configuration)) (pc_id (provider default_configuration)) ?reg"
    by (simp_all add: create_codec_def compatible_def registry_defs make_registry_def raw_codec_entry_def raw_provider_entry_def)
  from raw_created(2) obtain r where r: "create_from_sessions (\<lambda>_. Constructed) default_configuration raw_codec_sessions = Inr r"
    by blast
  have run: "runtime_create raw_adapter (\<lambda>_ _. Inl (facade_error not_implemented [])) (\<lambda>_. Constructed) ?reg default_configuration = Inr r"
    unfolding runtime_create_def Let_def default_reconciled
    by (simp add: default_validates a c p raw_adapter_def raw_created(1) r result_simps)
  from runtime_create_ready [OF run] run created_facade(3) [OF r] show ?thesis
    by (auto simp: raw_codec_sessions_def)
qed

end
