(* ===== verification/Spec2Isabelle.thy ===== *)
theory Spec2Isabelle
  imports SectionedUnits PacketFormat CodecRuntime Catalog MemoryPools DcvcrtPayload MlvcLockstep UfLockstep
    Sha256 Json RansCodec RuntimeFacade
begin

text \<open>
  A verification library for nvcr, the runtime of neural video codecs (C++ under \<^verbatim>\<open>src/\<close> and
  \<^verbatim>\<open>include/nvcr/\<close>).

  \<^bold>\<open>The program.\<close> \<open>nvcr::Runtime\<close> is created from a configuration: it looks a codec and an execution
  provider up in the registry, lets the codec's adapter build an encoder and a decoder session, and
  forwards calls to them. A session codes one frame at a time: it asks its scheduler for the frame
  type, runs the networks of the provider on the frame and the reference state, entropy-codes the
  latents, wraps the payload in an access unit, and commits the new reference state. The decoder does
  the converse, so both sides have to keep the same references. Around this are the byte formats
  (packets, access units in two versions, codec payloads, frame records), the entropy coders, the
  selection of model artifacts, a memory pool, JSON and SHA-256 for model bundles.

  \<^bold>\<open>Conventions.\<close> A C++ struct is a \<open>record\<close>, an enum a \<open>datatype\<close>, an unsigned integer a word of its
  width, \<open>std::string\<close> and byte vectors are lists, \<open>std::map\<close> the ordered map of \<open>OrdMaps\<close>,
  \<open>Result<T>\<close> the sum \<open>error + 'a\<close> of \<open>Errors\<close>. A method that changes its object takes the state last
  and returns it. What the program does not compute itself is an argument: \<open>alloc\<close> says which
  allocations succeed, \<open>elapsed\<close> is a measured duration, \<open>read_double\<close> is the conversion of a number
  token, \<open>construct\<close> the outcome of a construction. The networks are a record of functions
  (\<open>codec_backend\<close>) and what the theorems need of them is a named predicate
  (\<open>backend_mirrors\<close>), with a concrete backend in the witnesses. Locks make calls atomic; logging has
  no effect.

  \<^bold>\<open>Shared theories.\<close> \<open>Prelude\<close>: word, list and text lemmas, the type names, the \<open>named_theorems\<close>
  collections. \<open>Errors\<close>: \<^verbatim>\<open>common/error.hpp\<close>. \<open>OrdMaps\<close>: the locale \<open>std_map\<close> and its interpretation.
  \<open>Versions\<close>, \<open>Stats\<close>: the version structs and the counters.

  \<^bold>\<open>Byte formats.\<close> \<open>ByteIO\<close> models \<open>ByteWriter\<close> and \<open>ByteReader\<close> (\<^verbatim>\<open>bitstream/packet_io.cpp\<close>); the locale
  \<open>wire_field\<close> says that a reader inverts a writer and is interpreted for every field. \<open>PacketFormat\<close>
  (same file), \<open>AccessUnits\<close> and \<open>SectionedUnits\<close> (\<^verbatim>\<open>bitstream/access_unit.cpp\<close>), \<open>DcvcrtPayload\<close>
  (\<^verbatim>\<open>dcvcrt/payload.cpp\<close>) and the record part of \<open>MlvcSequence\<close> (\<^verbatim>\<open>mlvc/record.cpp\<close>) prove round trips
  in both directions: what is written is read back, and what is accepted is the canonical form of the
  result. \<open>Frames\<close> (\<^verbatim>\<open>runtime/frame.cpp\<close>) gives the exact sizes and the branch that wraps.

  \<^bold>\<open>Entropy coding.\<close> \<open>RansByte\<close> and \<open>RansLib\<close> model the coder under \<^verbatim>\<open>third_party/dcvc_rans\<close>: the
  primitives on a 32-bit state, the escape symbols, the tasks and \<open>flush\<close>. The relation \<open>inverts\<close>
  composes: decoding undoes encoding step by step, whatever bytes follow. \<open>RansCodec\<close>
  (\<^verbatim>\<open>dcvcrt/rans_codec.cpp\<close>) adds validation, one or two coders and the merged stream; its property is the
  round trip of a whole session. Loops that may run for ever are \<open>partial_function (option)\<close>: the round
  trip proves that they return, and one property shows an accepted table on which they do not.

  \<^bold>\<open>Sequences.\<close> \<open>SequenceStates\<close> (\<^verbatim>\<open>codec/sequence_state.cpp\<close>): reference state, its step relation,
  invariant and GOP cadence. \<open>CodecCore\<close> and \<open>CodecLockstep\<close> (\<^verbatim>\<open>codec/runtime.cpp\<close>,
  \<^verbatim>\<open>dcvcrt/session.cpp\<close>): coding one frame, and the simulation between an encoder and a decoder core.
  \<open>MlvcBundle\<close> and \<open>MlvcSequence\<close> (\<^verbatim>\<open>mlvc/bundle.cpp\<close>, \<^verbatim>\<open>mlvc/sequence.hpp\<close>): canvas selection, the frame
  scheduler and the store of reference features.

  \<^bold>\<open>MLVC.\<close> \<open>MlvcLoad\<close> is \<open>load_bundle\<close> (\<^verbatim>\<open>mlvc/bundle.cpp\<close>): the checks of a bundle on disk, and that what
  they accept is well formed. \<open>FloatBits\<close> is IEEE binary32 arithmetic on bit patterns, as exact rationals with
  rounding to even; \<open>MlvcHost\<close> (\<^verbatim>\<open>mlvc/host_ops.cpp\<close>) uses it for binary16 conversion, the layout of frames on a
  canvas and the scale indices. \<open>MlvcEntropy\<close> (\<^verbatim>\<open>mlvc/entropy.cpp\<close>) is the order in which symbols go
  through the msrtc rANS library, whose stack discipline is the hypothesis \<open>stack_stream\<close>. \<open>MlvcCanvas\<close> and
  \<open>MlvcSession\<close> (\<^verbatim>\<open>mlvc/session.cpp\<close>) are the shared canvases and both sessions over an \<open>environment\<close>, a
  record with the execution provider's calls; \<open>MlvcLockstep\<close> shows that a decoder follows every encoder.

  \<^bold>\<open>DCVC-UF.\<close> \<open>UfPayload\<close> is the payload of an access unit and \<open>UfSession\<close> the sessions and their creation
  (\<^verbatim>\<open>dcvcuf/adapter.cpp\<close>, \<^verbatim>\<open>dcvcuf/registration.cpp\<close>): an intra frame, then groups of eight, the last one padded by
  \<open>flush\<close>. The execution session is the record \<open>execution\<close>; \<open>UfLockstep\<close> shows, for one that satisfies
  \<open>uf_mirrors\<close>, that the decoder presents the frames that were sent, and gives the exact schedule of intra frames.

  \<^bold>\<open>Sessions.\<close> \<open>SessionApi\<close> states the contract of \<^verbatim>\<open>codec/session.hpp\<close> as the locales \<open>ordered_session\<close> and
  \<open>output_session\<close>; \<open>DcvcrtSession\<close>, \<open>MlvcSession\<close> and \<open>UfSession\<close> interpret it for their sessions, \<open>RuntimeFacade\<close> for the
  public \<open>Runtime\<close> over them. \<open>CodecRuntime\<close> has the legacy sessions, which do not meet it.

  \<^bold>\<open>Construction and artifacts.\<close> \<open>Configuration\<close> (\<^verbatim>\<open>configuration/configuration.cpp\<close>), \<open>Registry\<close>
  (\<^verbatim>\<open>runtime/registry.cpp\<close>, locale \<open>keyed_registry\<close>), \<open>RuntimeFacade\<close> (\<^verbatim>\<open>runtime/runtime.cpp\<close>,
  \<^verbatim>\<open>dcvcrt/adapter.cpp\<close>), \<open>Resolver\<close> (\<^verbatim>\<open>artifacts/resolver.cpp\<close>), \<open>CatalogJson\<close> and \<open>Catalog\<close>
  (\<^verbatim>\<open>artifacts/catalog.cpp\<close>: the catalog of engine bundles, whose entries become the resolver's candidates), \<open>MemoryPools\<close>
  (\<^verbatim>\<open>memory/memory_pool.cpp\<close>), \<open>Sha256\<close> and \<open>Json\<close> (\<^verbatim>\<open>common/\<close>). The loops of the two JSON parsers
  carry fuel, the number of unread characters, which every iteration lowers; totality is proved, so it never
  runs out.

  \<^bold>\<open>Not modelled.\<close> The TensorRT, CUDA and ONNX Runtime code, whose behaviour lies in libraries and
  devices; the floating-point tensor operators of DCVC-RT; command line, logger and directory
  traversal, which are input and output; the worker threads of the rANS library, which run the
  modelled functions; the rANS coder of DCVC-UF.
\<close>

end
